(* ===== verification/Ottery_Prelude.thy ===== *)
theory Ottery_Prelude
  imports Main "HOL-Library.Word"
begin

text \<open>
  What the components of the libottery development share: names for the C integer types, the
  C arithmetic on \<^verbatim>\<open>unsigned\<close>, \<^verbatim>\<open>size_t\<close> and \<^verbatim>\<open>uint16_t\<close> values kept as natural numbers
  with their wrap-around written out, byte arrays with the \<^verbatim>\<open>memcpy\<close> and \<^verbatim>\<open>memset\<close> writes
  into them, little-endian loads and stores of 32-bit and 64-bit integers, and the outcome
  of a call that may abort the process or never return.

  Three collections of rewrite rules are filled here and in the later theories:
  \<open>mem_simps\<close> (lengths and contents of memory after writes), \<open>cint_simps\<close> (C arithmetic
  in range is arithmetic on the natural numbers) and \<open>outcome_simps\<close> (sequencing).
\<close>

unbundle bit_operations_syntax

named_theorems mem_simps "lengths and contents of byte arrays after writes"
named_theorems cint_simps "C integer arithmetic that stays in range"
named_theorems outcome_simps "sequencing of outcomes"

type_synonym u8 = "8 word"
type_synonym u32 = "32 word"
type_synonym u64 = "64 word"
type_synonym bytes = "u8 list"

section \<open>C integers as natural numbers with wrap-around\<close>

definition add16 :: "nat \<Rightarrow> nat \<Rightarrow> nat" where
  "add16 a b = (a + b) mod 2 ^ 16"

definition mul32 :: "nat \<Rightarrow> nat \<Rightarrow> nat" where
  "mul32 a b = (a * b) mod 2 ^ 32"

definition sub32 :: "nat \<Rightarrow> nat \<Rightarrow> nat" where
  "sub32 a b = nat ((int a - int b) mod 2 ^ 32)"

definition add64 :: "nat \<Rightarrow> nat \<Rightarrow> nat" where
  "add64 a b = (a + b) mod 2 ^ 64"

definition mul64 :: "nat \<Rightarrow> nat \<Rightarrow> nat" where
  "mul64 a b = (a * b) mod 2 ^ 64"

definition sub64 :: "nat \<Rightarrow> nat \<Rightarrow> nat" where
  "sub64 a b = nat ((int a - int b) mod 2 ^ 64)"

lemma add16_id [cint_simps]: "a + b < 65536 \<Longrightarrow> add16 a b = a + b"
  by (simp add: add16_def)

lemma mul32_id [cint_simps]: "a * b < 4294967296 \<Longrightarrow> mul32 a b = a * b"
  by (simp add: mul32_def)

lemma sub32_id [cint_simps]: "b \<le> a \<Longrightarrow> a < 4294967296 \<Longrightarrow> sub32 a b = a - b"
  by (simp add: sub32_def of_nat_diff [symmetric] del: of_nat_diff)

lemma add64_id [cint_simps]: "a + b < 18446744073709551616 \<Longrightarrow> add64 a b = a + b"
  by (simp add: add64_def)

lemma mul64_id [cint_simps]: "a * b < 18446744073709551616 \<Longrightarrow> mul64 a b = a * b"
  by (simp add: mul64_def)

lemma sub64_id [cint_simps]: "b \<le> a \<Longrightarrow> a < 18446744073709551616 \<Longrightarrow> sub64 a b = a - b"
  by (simp add: sub64_def of_nat_diff [symmetric] del: of_nat_diff)

section \<open>Byte arrays\<close>

text \<open>
  \<open>mem_write m off bs\<close> stores \<open>bs\<close> at offset \<open>off\<close> of the array \<open>m\<close>
  (\<^verbatim>\<open>memcpy(m + off, bs, len)\<close>), \<open>mem_clear m off n\<close> is \<^verbatim>\<open>memset(m + off, 0, n)\<close> and
  \<open>mem_read m off n\<close> are the bytes that \<^verbatim>\<open>memcpy(_, m + off, n)\<close> reads. A write outside
  the array would be undefined behaviour in C; the model keeps the part inside and the
  development proves the writes of the library to be in bounds.
\<close>

definition mem_write :: "'a list \<Rightarrow> nat \<Rightarrow> 'a list \<Rightarrow> 'a list" where
  "mem_write m off bs =
     take off m @ take (length m - off) bs @ drop (off + length bs) m"

definition mem_clear :: "bytes \<Rightarrow> nat \<Rightarrow> nat \<Rightarrow> bytes" where
  "mem_clear m off n = mem_write m off (replicate n 0)"

definition mem_read :: "'a list \<Rightarrow> nat \<Rightarrow> nat \<Rightarrow> 'a list" where
  "mem_read m off n = take n (drop off m)"

lemma length_mem_write [simp, mem_simps]: "length (mem_write m off bs) = length m"
  by (auto simp: mem_write_def min_def)

lemma length_mem_clear [simp, mem_simps]: "length (mem_clear m off n) = length m"
  by (simp add: mem_clear_def)

lemma length_mem_read [mem_simps]: "off + n \<le> length m \<Longrightarrow> length (mem_read m off n) = n"
  by (simp add: mem_read_def)

lemma mem_write_nil [simp]: "mem_write m off [] = m"
  by (simp add: mem_write_def)

lemma mem_read_zero [simp]: "mem_read m off 0 = []"
  by (simp add: mem_read_def)

lemma mem_clear_zero [simp]: "mem_clear m off 0 = m"
  by (simp add: mem_clear_def)

lemma mem_write_nth:
  "i < length m \<Longrightarrow>
     mem_write m off bs ! i = (if off \<le> i \<and> i < off + length bs then bs ! (i - off) else m ! i)"
  by (auto simp: mem_write_def nth_append min_def not_less)

lemma mem_write_start:
  "length bs \<le> length m \<Longrightarrow> mem_write m 0 bs = bs @ drop (length bs) m"
  by (simp add: mem_write_def)

lemma mem_write_full: "length bs = length m \<Longrightarrow> mem_write m 0 bs = bs"
  by (simp add: mem_write_def)

lemma mem_clear_nth:
  "i < length m \<Longrightarrow>
     mem_clear m off n ! i = (if off \<le> i \<and> i < off + n then 0 else m ! i)"
  by (auto simp: mem_clear_def mem_write_nth)

lemma mem_write_append:
  assumes "off + length xs + length ys \<le> length m"
  shows "mem_write (mem_write m off xs) (off + length xs) ys = mem_write m off (xs @ ys)"
  using assms by (intro nth_equalityI) (auto simp: mem_write_nth nth_append)

lemma mem_write_overwrite:
  assumes "length xs = length ys"
  shows "mem_write (mem_write m off xs) off ys = mem_write m off ys"
  using assms by (intro nth_equalityI) (auto simp: mem_write_nth)

lemma mem_read_nth: "i < n \<Longrightarrow> off + i < length m \<Longrightarrow> mem_read m off n ! i = m ! (off + i)"
  by (simp add: mem_read_def)

lemma mem_read_write:
  assumes "off + length bs \<le> length m"
  shows "mem_read (mem_write m off bs) off (length bs) = bs"
  using assms by (simp add: mem_read_def mem_write_def)

lemma drop_mem_write:
  assumes "off + length bs \<le> k" "k \<le> length m"
  shows "drop k (mem_write m off bs) = drop k m"
  using assms by (intro nth_equalityI) (auto simp: mem_write_nth)

lemma drop_mem_clear:
  assumes "off + n \<le> k" "k \<le> length m"
  shows "drop k (mem_clear m off n) = drop k m"
  using assms by (simp add: mem_clear_def drop_mem_write)

lemma take_mem_write:
  assumes "k \<le> off" "k \<le> length m"
  shows "take k (mem_write m off bs) = take k m"
  using assms by (intro nth_equalityI) (auto simp: mem_write_nth)

lemma list_update_mem_write: "xs[i := v] = mem_write xs i [v]"
proof (cases "i < length xs")
  case True
  then show ?thesis
    by (intro nth_equalityI) (auto simp: mem_write_nth nth_list_update)
next
  case False
  then show ?thesis by (simp add: mem_write_def list_update_beyond)
qed

section \<open>Little-endian integers in memory\<close>

text \<open>
  \<open>le32\<close> is a 32-bit integer as four bytes, least significant first, and \<open>load32\<close> reads
  one at an offset. \<open>le_word\<close> reads all bytes of a list as one little-endian integer of
  the width of the result: \<^verbatim>\<open>memcpy(&r, p, sizeof(r))\<close> on a little-endian machine.
\<close>

definition le32 :: "u32 \<Rightarrow> bytes" where
  "le32 v = [ucast v, ucast (drop_bit 8 v), ucast (drop_bit 16 v), ucast (drop_bit 24 v)]"

definition load32 :: "bytes \<Rightarrow> nat \<Rightarrow> u32" where
  "load32 m off =
     ucast (m ! off) OR push_bit 8 (ucast (m ! (off + 1)))
     OR push_bit 16 (ucast (m ! (off + 2))) OR push_bit 24 (ucast (m ! (off + 3)))"

fun le_word :: "bytes \<Rightarrow> 'a::len word" where
  "le_word [] = 0"
| "le_word (b # bs) = ucast b OR push_bit 8 (le_word bs)"

lemma length_le32 [simp, mem_simps]: "length (le32 v) = 4"
  by (simp add: le32_def)

lemma load32_le32: "load32 (le32 v) 0 = v"
proof (rule bit_word_eqI)
  fix n assume "n < LENGTH(32)"
  then consider "n < 8" | "8 \<le> n" "n < 16" | "16 \<le> n" "n < 24" | "24 \<le> n" "n < 32"
    by fastforce
  then show "bit (load32 (le32 v) 0) n = bit v n"
    by cases (auto simp: load32_def le32_def bit_simps)
qed

lemma load32_append:
  "off + 4 \<le> length xs \<Longrightarrow> load32 (xs @ ys) off = load32 xs off"
  by (simp add: load32_def nth_append)

lemma load32_shift: "load32 (xs @ ys) (length xs + k) = load32 ys k"
  by (simp add: load32_def nth_append)

lemma load32_drop: "load32 (drop n xs) k = load32 xs (n + k)" if "n \<le> length xs"
  using that by (simp add: load32_def add.assoc)

lemma load32_take: "off + 4 \<le> n \<Longrightarrow> load32 (take n xs) off = load32 xs off"
  by (simp add: load32_def)

lemma le32_load32:
  assumes "off + 4 \<le> length m"
  shows "le32 (load32 m off) = mem_read m off 4"
proof -
  have "mem_read m off 4 = [m ! off, m ! (off + 1), m ! (off + 2), m ! (off + 3)]"
    using assms by (intro nth_equalityI) (auto simp: mem_read_def less_Suc_eq numeral_eq_Suc)
  moreover have "ucast (load32 m off) = m ! off"
    "ucast (drop_bit 8 (load32 m off)) = m ! (off + 1)"
    "ucast (drop_bit 16 (load32 m off)) = m ! (off + 2)"
    "ucast (drop_bit 24 (load32 m off)) = m ! (off + 3)"
    by (rule bit_word_eqI; auto simp: load32_def bit_simps dest: bit_imp_le_length)+
  ultimately show ?thesis by (simp add: le32_def)
qed

text \<open>An array of words laid out in memory, and read back.\<close>

definition words_bytes :: "u32 list \<Rightarrow> bytes" where
  "words_bytes ws = concat (map le32 ws)"

definition bytes_words :: "nat \<Rightarrow> bytes \<Rightarrow> u32 list" where
  "bytes_words n m = map (\<lambda>i. load32 m (4 * i)) [0..<n]"

lemma length_words_bytes [simp, mem_simps]: "length (words_bytes ws) = 4 * length ws"
  by (induction ws) (auto simp: words_bytes_def)

lemma length_bytes_words [simp, mem_simps]: "length (bytes_words n m) = n"
  by (simp add: bytes_words_def)

lemma words_bytes_simps [simp]:
  "words_bytes [] = []"
  "words_bytes (w # ws) = le32 w @ words_bytes ws"
  by (simp_all add: words_bytes_def)

lemma words_bytes_append: "words_bytes (xs @ ys) = words_bytes xs @ words_bytes ys"
  by (simp add: words_bytes_def)

lemma load32_words_bytes:
  assumes "i < length ws"
  shows "load32 (words_bytes ws @ r) (4 * i) = ws ! i"
  using assms
proof (induction ws arbitrary: i)
  case Nil
  then show ?case by simp
next
  case (Cons w ws)
  show ?case
  proof (cases i)
    case 0
    then show ?thesis by (simp add: load32_append load32_le32)
  next
    case (Suc j)
    then have "4 * i = length (le32 w) + 4 * j" by simp
    with Suc Cons show ?thesis
      by (simp only: words_bytes_simps append_assoc load32_shift) simp
  qed
qed

lemma bytes_words_words_bytes: "bytes_words (length ws) (words_bytes ws @ r) = ws"
  by (rule nth_equalityI) (simp_all add: bytes_words_def load32_words_bytes)

section \<open>Outcome of a call\<close>

text \<open>
  A library call returns (\<open>Ret\<close>), ends the process through \<^verbatim>\<open>abort()\<close> in
  \<^verbatim>\<open>ottery_fatal_error_\<close> (\<open>Abort\<close> with the error code), kills it through a failing
  \<^verbatim>\<open>assert\<close> or a null pointer (\<open>Crash\<close>), or never returns (\<open>Hang\<close>: an endless loop, or a
  thread that locks a mutex it already holds).
\<close>

datatype 'a outcome = Ret 'a | Abort u32 | Crash | Hang

fun obind :: "'a outcome \<Rightarrow> ('a \<Rightarrow> 'b outcome) \<Rightarrow> 'b outcome" where
  "obind (Ret x) f = f x"
| "obind (Abort e) f = Abort e"
| "obind Crash f = Crash"
| "obind Hang f = Hang"

fun of_loop :: "'a option \<Rightarrow> 'a outcome" where
  "of_loop None = Hang"
| "of_loop (Some x) = Ret x"

lemma obind_Ret_iff [outcome_simps]:
  "obind m f = Ret y \<longleftrightarrow> (\<exists>x. m = Ret x \<and> f x = Ret y)"
  by (cases m) auto

lemma of_loop_Ret_iff [outcome_simps]: "of_loop m = Ret x \<longleftrightarrow> m = Some x"
  by (cases m) auto

lemma obind_cong: "(\<And>x. m = Ret x \<Longrightarrow> f x = g x) \<Longrightarrow> obind m f = obind m g"
  by (cases m) simp_all

lemma obind_if: "obind (if b then m else m') f = (if b then obind m f else obind m' f)"
  by simp

lemma obind_Ret [simp]: "obind m Ret = m"
  by (cases m) simp_all

lemma obind_assoc: "obind (obind m f) g = obind m (\<lambda>x. obind (f x) g)"
  by (cases m) auto

section \<open>Invariants of transition systems\<close>

text \<open>What holds at the start and is kept by every step holds in all runs.\<close>

locale inductive_invariant =
  fixes start :: "'s \<Rightarrow> bool" and step :: "'s \<Rightarrow> 's \<Rightarrow> bool" and I :: "'s \<Rightarrow> bool"
  assumes at_start: "start s \<Longrightarrow> I s"
    and kept: "I s \<Longrightarrow> step s t \<Longrightarrow> I t"
begin

lemma always: "step\<^sup>*\<^sup>* s t \<Longrightarrow> start s \<Longrightarrow> I t"
  by (induction rule: rtranclp_induct) (auto intro: at_start kept)

end

end
