(* ===== verification/Chacha_Core.thy ===== *)
theory Chacha_Core
  imports Ottery_Prelude
begin

text \<open>
  The pseudorandom function that \<^verbatim>\<open>doc/specification.txt\<close> names "the core of ChaCha": a
  reference definition on a 4 by 4 matrix of words, independent of how the two C
  implementations store and schedule it. \<open>chacha_prf r key ctr\<close> is the document's
  \<^verbatim>\<open>PRF(key,ctr)\<close> for ChaCha with \<open>r\<close> rounds, and \<open>chacha_stream r n key ctr\<close> its
  \<^verbatim>\<open>PRF(key,ctr..ctr+n-1)\<close>. The key has 40 bytes, of which 32 are the ChaCha key and 8 the
  ChaCha nonce; the counter has 32 bits, and the upper half of ChaCha's own 64-bit counter
  is always zero.
\<close>

definition qr :: "u32 \<Rightarrow> u32 \<Rightarrow> u32 \<Rightarrow> u32 \<Rightarrow> u32 \<times> u32 \<times> u32 \<times> u32" where
  "qr a b c d =
     (let a = a + b; d = word_rotl 16 (d XOR a);
          c = c + d; b = word_rotl 12 (b XOR c);
          a = a + b; d = word_rotl 8 (d XOR a);
          c = c + d; b = word_rotl 7 (b XOR c)
      in (a, b, c, d))"

fun quarter_at :: "nat \<times> nat \<times> nat \<times> nat \<Rightarrow> u32 list \<Rightarrow> u32 list" where
  "quarter_at (a, b, c, d) x =
     (case qr (x ! a) (x ! b) (x ! c) (x ! d) of
        (p, q, r, s) \<Rightarrow> x[a := p, b := q, c := r, d := s])"

definition double_round_schedule :: "(nat \<times> nat \<times> nat \<times> nat) list" where
  "double_round_schedule =
     [(0, 4, 8, 12), (1, 5, 9, 13), (2, 6, 10, 14), (3, 7, 11, 15),
      (0, 5, 10, 15), (1, 6, 11, 12), (2, 7, 8, 13), (3, 4, 9, 14)]"

definition double_round :: "u32 list \<Rightarrow> u32 list" where
  "double_round x = fold quarter_at double_round_schedule x"

definition chacha_words :: "nat \<Rightarrow> u32 list \<Rightarrow> u32 list" where
  "chacha_words r x = map2 (+) ((double_round ^^ (r div 2)) x) x"

definition chacha_constants :: "u32 list" where
  "chacha_constants = [0x61707865, 0x3320646E, 0x79622D32, 0x6B206574]"

definition chacha_input :: "bytes \<Rightarrow> u32 \<Rightarrow> u32 list" where
  "chacha_input key ctr =
     chacha_constants @ bytes_words 8 key @ [ctr, 0] @ bytes_words 2 (drop 32 key)"

definition chacha_prf :: "nat \<Rightarrow> bytes \<Rightarrow> u32 \<Rightarrow> bytes" where
  "chacha_prf r key ctr = words_bytes (chacha_words r (chacha_input key ctr))"

definition chacha_stream :: "nat \<Rightarrow> nat \<Rightarrow> bytes \<Rightarrow> u32 \<Rightarrow> bytes" where
  "chacha_stream r n key ctr = concat (map (\<lambda>i. chacha_prf r key (ctr + of_nat i)) [0..<n])"

lemma length_quarter_at [simp]: "length (quarter_at q x) = length x"
  by (cases q) (simp split: prod.splits)

declare quarter_at.simps [simp del]

lemma length_fold_quarter_at [simp]: "length (fold quarter_at qs x) = length x"
  by (induction qs arbitrary: x) auto

lemma length_double_round [simp]: "length (double_round x) = length x"
  by (simp add: double_round_def)

lemma length_double_rounds [simp]: "length ((double_round ^^ n) x) = length x"
  by (induction n) auto

lemma length_chacha_words [simp]: "length (chacha_words r x) = length x"
  by (simp add: chacha_words_def)

lemma length_chacha_input [simp]: "length (chacha_input key ctr) = 16"
  by (simp add: chacha_input_def chacha_constants_def)

lemma length_chacha_prf [simp]: "length (chacha_prf r key ctr) = 64"
  by (simp add: chacha_prf_def)

lemma length_chacha_stream [simp]: "length (chacha_stream r n key ctr) = 64 * n"
  by (induction n) (auto simp: chacha_stream_def)

lemma chacha_stream_Suc:
  "chacha_stream r (Suc n) key ctr = chacha_stream r n key ctr @ chacha_prf r key (ctr + of_nat n)"
  by (simp add: chacha_stream_def)

lemma chacha_stream_0 [simp]: "chacha_stream r 0 key ctr = []"
  by (simp add: chacha_stream_def)

lemma chacha_stream_add:
  "chacha_stream r (m + n) key ctr
     = chacha_stream r m key ctr @ chacha_stream r n key (ctr + of_nat m)"
  by (induction n) (simp_all add: chacha_stream_Suc add.assoc)

lemma chacha_stream_Cons:
  "chacha_stream r (Suc n) key ctr = chacha_prf r key ctr @ chacha_stream r n key (ctr + 1)"
  using chacha_stream_add [of r 1 n key ctr] by (simp add: chacha_stream_Suc)

lemma chacha_input_ctr: "(chacha_input key c)[12 := c'] = chacha_input key c'"
  by (simp add: chacha_input_def chacha_constants_def list_update_append)

lemma chacha_input_nth_12 [simp]: "chacha_input key c ! 12 = c"
  by (simp add: chacha_input_def chacha_constants_def nth_append)

text \<open>
  A list of sixteen words written out, so that the scheduling proofs run on explicit lists.
\<close>

lemma list16_cases:
  assumes "length x = 16"
  obtains x0 x1 x2 x3 x4 x5 x6 x7 x8 x9 x10 x11 x12 x13 x14 x15
    where "x = [x0, x1, x2, x3, x4, x5, x6, x7, x8, x9, x10, x11, x12, x13, x14, x15]"
  using assms by (auto simp: length_Suc_conv numeral_eq_Suc)

section \<open>Rotations as shifts\<close>

lemma bit_rotl32:
  fixes v :: u32
  assumes "n < 32" "k < 32"
  shows "bit (word_rotl n v) k = (if n \<le> k then bit v (k - n) else bit v (32 - n + k))"
proof (cases "n \<le> k")
  case True
  then have "(k + (32 - n)) mod 32 = k - n" using assms by (simp add: mod_if)
  with True show ?thesis using assms by (simp add: bit_simps)
next
  case False
  then have "(k + (32 - n)) mod 32 = 32 - n + k" using assms by simp
  with False show ?thesis using assms by (simp add: bit_simps)
qed

lemma not_bit_shifted_out: "n \<le> k \<Longrightarrow> \<not> bit (v :: u32) (32 + k - n)"
  by (auto dest: bit_imp_le_length)

lemma rotl_or:
  fixes v :: u32
  assumes "n < 32"
  shows "push_bit n v OR drop_bit (32 - n) v = word_rotl n v"
  using assms by (intro bit_word_eqI) 
    (auto simp: bit_rotl32 bit_simps not_bit_shifted_out simp del: bit_word_rotl_iff)

lemma rotl_xor:
  fixes v :: u32
  assumes "n < 32"
  shows "push_bit n v XOR drop_bit (32 - n) v = word_rotl n v"
  using assms by (intro bit_word_eqI) 
    (auto simp: bit_rotl32 bit_simps not_bit_shifted_out simp del: bit_word_rotl_iff)

section \<open>In-place quarter rounds\<close>

text \<open>
  The eight assignments of a quarter-round macro, with the values named, hit the same four positions
  twice; the later ones stay.
\<close>

lemma eight_updates:
  assumes "distinct [a, b, c, d]" "a < length x" "b < length x" "c < length x" "d < length x"
  shows "x[a := a1, d := d1, c := c1, b := b1, a := a2, d := d2, c := c2, b := b2]
           = x[a := a2, b := b2, c := c2, d := d2]"
  using assms by (intro nth_equalityI) (simp_all add: nth_list_update)

text \<open>
  A quarter round as the C macros do it, one assignment after the other, is the reference
  quarter round.
\<close>

definition inplace_quarter :: "nat \<Rightarrow> nat \<Rightarrow> nat \<Rightarrow> nat \<Rightarrow> u32 list \<Rightarrow> u32 list" where
  "inplace_quarter a b c d x =
     (let x = x[a := x ! a + x ! b]; x = x[d := word_rotl 16 (x ! d XOR x ! a)];
          x = x[c := x ! c + x ! d]; x = x[b := word_rotl 12 (x ! b XOR x ! c)];
          x = x[a := x ! a + x ! b]; x = x[d := word_rotl 8 (x ! d XOR x ! a)];
          x = x[c := x ! c + x ! d]; x = x[b := word_rotl 7 (x ! b XOR x ! c)]
      in x)"

lemma inplace_quarter_at:
  assumes "distinct [a, b, c, d]" "a < length x" "b < length x" "c < length x" "d < length x"
  shows "inplace_quarter a b c d x = quarter_at (a, b, c, d) x"
proof -
  define a1 where "a1 = x ! a + x ! b"
  define d1 where "d1 = word_rotl 16 (x ! d XOR a1)"
  define c1 where "c1 = x ! c + d1"
  define b1 where "b1 = word_rotl 12 (x ! b XOR c1)"
  define a2 where "a2 = a1 + b1"
  define d2 where "d2 = word_rotl 8 (d1 XOR a2)"
  define c2 where "c2 = c1 + d2"
  define b2 where "b2 = word_rotl 7 (b1 XOR c2)"
  note defs = a1_def d1_def c1_def b1_def a2_def d2_def c2_def b2_def
  have ne: "a \<noteq> b" "a \<noteq> c" "a \<noteq> d" "b \<noteq> c" "b \<noteq> d" "c \<noteq> d"
    using assms(1) by auto
  have "inplace_quarter a b c d x
          = x[a := a1, d := d1, c := c1, b := b1, a := a2, d := d2, c := c2, b := b2]"
    using assms(2-) ne by (simp add: inplace_quarter_def defs [symmetric])
  also have "\<dots> = x[a := a2, b := b2, c := c2, d := d2]"
    using assms by (rule eight_updates)
  also have "\<dots> = quarter_at (a, b, c, d) x"
    by (simp add: quarter_at.simps qr_def defs [symmetric])
  finally show ?thesis .
qed

end
