(* ===== verification/Chacha_Krovetz.thy ===== *)
theory Chacha_Krovetz
  imports Chacha_Core
begin

text \<open>
  The vectorised ChaCha implementation, \<^verbatim>\<open>src/chacha_krovetz.c\<close>. A 16-byte \<^verbatim>\<open>vec\<close> is four
  32-bit lanes, with lanewise \<open>+\<close>. The file is compiled for NEON, SSE2 and SSSE3
  (\<open>simd_arch\<close>; its AltiVec branch is an \<^verbatim>\<open>#error\<close>) by gcc or clang, which decide how many
  blocks one loop iteration computes in vectors (\<open>VBPI\<close>), whether one more is computed in
  general-purpose registers (\<open>GPR_TOO\<close>), and how the rotations are done: shifts, a
  shift-and-insert instruction, a halfword reversal or a byte shuffle. The named variables
  \<^verbatim>\<open>v0..v15\<close> are a list of groups of four vectors.

  Main results: each way to rotate is the rotation, a double round on a group of vectors is
  a double round on the sixteen words in it, and the generated blocks are those of the
  reference stream on every build.
\<close>

section \<open>Vectors and compile-time choices\<close>

datatype vec = Vec (lane0: u32) (lane1: u32) (lane2: u32) (lane3: u32)

instantiation vec :: plus
begin

fun plus_vec :: "vec \<Rightarrow> vec \<Rightarrow> vec" where
  "plus_vec (Vec a b c d) (Vec a' b' c' d') = Vec (a + a') (b + b') (c + c') (d + d')"

instance ..

end

instance vec :: semigroup_add
proof
  fix a b c :: vec
  show "a + b + c = a + (b + c)" by (cases a; cases b; cases c) (simp add: add.assoc)
qed

instance vec :: ab_semigroup_add
proof
  fix a b :: vec
  show "a + b = b + a" by (cases a; cases b) (simp add: add.commute)
qed

fun vxor :: "vec \<Rightarrow> vec \<Rightarrow> vec" where
  "vxor (Vec a b c d) (Vec a' b' c' d') = Vec (a XOR a') (b XOR b') (c XOR c') (d XOR d')"

definition lanes :: "vec \<Rightarrow> u32 list" where
  "lanes v = [lane0 v, lane1 v, lane2 v, lane3 v]"

fun vec_of :: "u32 list \<Rightarrow> vec" where
  "vec_of ws = Vec (ws ! 0) (ws ! 1) (ws ! 2) (ws ! 3)"

definition map_lanes :: "(u32 \<Rightarrow> u32) \<Rightarrow> vec \<Rightarrow> vec" where
  "map_lanes f v = Vec (f (lane0 v)) (f (lane1 v)) (f (lane2 v)) (f (lane3 v))"

datatype simd_arch = Neon | Sse2 | Ssse3

record simd_target =
  arch :: simd_arch
  clang :: bool

definition GPR_TOO :: "simd_target \<Rightarrow> nat" where
  "GPR_TOO t = (if arch t = Neon then 1 else 0)"

definition VBPI :: "simd_target \<Rightarrow> nat" where
  "VBPI t = (if arch t = Neon then 2 else if clang t then 4 else 3)"

definition BPI :: "simd_target \<Rightarrow> nat" where
  "BPI t = VBPI t + GPR_TOO t"

section \<open>Rotations\<close>

text \<open>Shift left, shift right and combine with exclusive or.\<close>

definition shl_xor_shr :: "nat \<Rightarrow> u32 \<Rightarrow> u32" where
  "shl_xor_shr n x = push_bit n x XOR drop_bit (32 - n) x"

text \<open>
  NEON: \<^verbatim>\<open>vsriq_n_u32(a, b, n)\<close> shifts \<open>b\<close> right by \<open>n\<close> and inserts the result into \<open>a\<close>, whose
  upper \<open>n\<close> bits stay; \<^verbatim>\<open>vrev32q_u16\<close> reverses the halfwords in each 32-bit lane.
\<close>

definition vsri :: "u32 \<Rightarrow> u32 \<Rightarrow> nat \<Rightarrow> u32" where
  "vsri a b n = (a AND NOT (drop_bit n (- 1))) OR drop_bit n b"

definition vrev32_u16 :: "u32 \<Rightarrow> u32" where
  "vrev32_u16 x = push_bit 16 (x AND 0xFFFF) OR (drop_bit 16 x AND 0xFFFF)"

text \<open>SSSE3: byte \<open>i\<close> of the result is the byte of the argument that \<open>sel ! i\<close> names.\<close>

definition shuffle_epi8 :: "vec \<Rightarrow> nat list \<Rightarrow> vec" where
  "shuffle_epi8 v sel =
     (let bs = words_bytes (lanes v) in vec_of (bytes_words 4 (map (\<lambda>i. bs ! i) sel)))"

definition neon_rotw :: "bool \<Rightarrow> nat \<Rightarrow> u32 \<Rightarrow> u32" where
  "neon_rotw clng n x =
     (if clng then shl_xor_shr n x else vsri (push_bit n x) x (32 - n))"

definition ROTW16 :: "simd_target \<Rightarrow> vec \<Rightarrow> vec" where
  "ROTW16 t x =
     (case arch t of
        Neon \<Rightarrow> map_lanes vrev32_u16 x
      | Sse2 \<Rightarrow> map_lanes (shl_xor_shr 16) x
      | Ssse3 \<Rightarrow> shuffle_epi8 x (rev [13, 12, 15, 14, 9, 8, 11, 10, 5, 4, 7, 6, 1, 0, 3, 2]))"

definition ROTW12 :: "simd_target \<Rightarrow> vec \<Rightarrow> vec" where
  "ROTW12 t x =
     (case arch t of
        Neon \<Rightarrow> map_lanes (neon_rotw (clang t) 12) x
      | _ \<Rightarrow> map_lanes (shl_xor_shr 12) x)"

definition ROTW8 :: "simd_target \<Rightarrow> vec \<Rightarrow> vec" where
  "ROTW8 t x =
     (case arch t of
        Neon \<Rightarrow> map_lanes (neon_rotw (clang t) 8) x
      | Sse2 \<Rightarrow> map_lanes (shl_xor_shr 8) x
      | Ssse3 \<Rightarrow> shuffle_epi8 x (rev [14, 13, 12, 15, 10, 9, 8, 11, 6, 5, 4, 7, 2, 1, 0, 3]))"

definition ROTW7 :: "simd_target \<Rightarrow> vec \<Rightarrow> vec" where
  "ROTW7 t x =
     (case arch t of
        Neon \<Rightarrow> map_lanes (neon_rotw (clang t) 7) x
      | _ \<Rightarrow> map_lanes (shl_xor_shr 7) x)"

text \<open>
  Rotation of the lanes: \<^verbatim>\<open>vextq_u32(x,x,n)\<close> and \<^verbatim>\<open>_mm_shuffle_epi32\<close> both take lane \<open>n\<close>
  of the argument to lane 0.
\<close>

fun ROTV1 :: "vec \<Rightarrow> vec" where
  "ROTV1 (Vec a b c d) = Vec b c d a"

fun ROTV2 :: "vec \<Rightarrow> vec" where
  "ROTV2 (Vec a b c d) = Vec c d a b"

fun ROTV3 :: "vec \<Rightarrow> vec" where
  "ROTV3 (Vec a b c d) = Vec d a b c"

section \<open>Rounds\<close>

type_synonym vgroup = "vec \<times> vec \<times> vec \<times> vec"

text \<open>\<open>vec_qround\<close> is the first and the third group of four lines of \<^verbatim>\<open>DQROUND_VECTORS\<close>.\<close>

fun vec_qround :: "simd_target \<Rightarrow> vgroup \<Rightarrow> vgroup" where
  "vec_qround t (a, b, c, d) =
     (let a = a + b; d = vxor d a; d = ROTW16 t d;
          c = c + d; b = vxor b c; b = ROTW12 t b;
          a = a + b; d = vxor d a; d = ROTW8 t d;
          c = c + d; b = vxor b c; b = ROTW7 t b
      in (a, b, c, d))"

fun DQROUND_VECTORS :: "simd_target \<Rightarrow> vgroup \<Rightarrow> vgroup" where
  "DQROUND_VECTORS t (a, b, c, d) =
     (let (a, b, c, d) = vec_qround t (a, b, c, d);
          b = ROTV1 b; c = ROTV2 c; d = ROTV3 d;
          (a, b, c, d) = vec_qround t (a, b, c, d);
          b = ROTV3 b; c = ROTV2 c; d = ROTV1 d
      in (a, b, c, d))"

text \<open>\<open>xor_rotl d a n\<close> are the two statements \<^verbatim>\<open>d ^= a; d = d<<n | d>>(32-n)\<close> of \<^verbatim>\<open>QROUND_WORDS\<close>.\<close>

definition xor_rotl :: "nat \<Rightarrow> nat \<Rightarrow> nat \<Rightarrow> u32 list \<Rightarrow> u32 list" where
  "xor_rotl d a n x =
     (let x = x[d := x ! d XOR x ! a] in x[d := push_bit n (x ! d) OR drop_bit (32 - n) (x ! d)])"

definition QROUND_WORDS :: "nat \<Rightarrow> nat \<Rightarrow> nat \<Rightarrow> nat \<Rightarrow> u32 list \<Rightarrow> u32 list" where
  "QROUND_WORDS a b c d x =
     (let x = x[a := x ! a + x ! b]; x = xor_rotl d a 16 x;
          x = x[c := x ! c + x ! d]; x = xor_rotl b c 12 x;
          x = x[a := x ! a + x ! b]; x = xor_rotl d a 8 x;
          x = x[c := x ! c + x ! d]; x = xor_rotl b c 7 x
      in x)"

definition gpr_double_round :: "u32 list \<Rightarrow> u32 list" where
  "gpr_double_round x =
     (let x = QROUND_WORDS 0 4 8 12 x;
          x = QROUND_WORDS 1 5 9 13 x;
          x = QROUND_WORDS 2 6 10 14 x;
          x = QROUND_WORDS 3 7 11 15 x;
          x = QROUND_WORDS 0 5 10 15 x;
          x = QROUND_WORDS 1 6 11 12 x;
          x = QROUND_WORDS 2 7 8 13 x;
          x = QROUND_WORDS 3 4 9 14 x
      in x)"

text \<open>
  The loop \<^verbatim>\<open>for (i = chacha_rounds/2; i; i--)\<close>: a double round on every vector group and,
  where \<^verbatim>\<open>GPR_TOO\<close> is set, on the registers.
\<close>

primrec krovetz_rounds ::
    "simd_target \<Rightarrow> nat \<Rightarrow> vgroup list \<times> u32 list \<Rightarrow> vgroup list \<times> u32 list" where
  "krovetz_rounds t 0 s = s"
| "krovetz_rounds t (Suc i) s =
     (case s of (vs, x) \<Rightarrow>
        krovetz_rounds t i
          (map (DQROUND_VECTORS t) vs, if GPR_TOO t = 1 then gpr_double_round x else x))"

section \<open>Block generation\<close>

record chacha_state_krovetz =
  st_key :: bytes
  st_nonce :: bytes

definition LOOP_ITERATIONS :: nat where
  "LOOP_ITERATIONS = 4"

definition ONE :: vec where
  "ONE = Vec 1 0 0 0"

definition NONCE :: "u32 \<Rightarrow> u32 list \<Rightarrow> vec" where
  "NONCE ctr np = Vec ctr 0 (np ! 0) (np ! 1)"

definition chacha_const :: "u32 list" where
  "chacha_const = [0x61707865, 0x3320646E, 0x79622D32, 0x6B206574]"

text \<open>
  \<^verbatim>\<open>WRITE(op, d, v0, v1, v2, v3)\<close> stores four vectors from word \<open>op + d\<close> of the output on.
\<close>

definition WRITE :: "bytes \<Rightarrow> nat \<Rightarrow> vgroup \<Rightarrow> bytes" where
  "WRITE out w g =
     (case g of (v0, v1, v2, v3) \<Rightarrow>
        let out = mem_write out (4 * (w + 0)) (words_bytes (lanes v0));
            out = mem_write out (4 * (w + 4)) (words_bytes (lanes v1));
            out = mem_write out (4 * (w + 8)) (words_bytes (lanes v2));
            out = mem_write out (4 * (w + 12)) (words_bytes (lanes v3))
        in out)"

text \<open>
  The vector groups at the start of an iteration: the same three input vectors, and the
  counter vector of one group is that of the group before plus \<open>ONE\<close>.
\<close>

primrec vec_groups :: "nat \<Rightarrow> vec \<Rightarrow> vec \<Rightarrow> vec \<Rightarrow> vec \<Rightarrow> vgroup list" where
  "vec_groups 0 s0 s1 s2 v3 = []"
| "vec_groups (Suc n) s0 s1 s2 v3 = (s0, s1, s2, v3) # vec_groups n s0 s1 s2 (v3 + ONE)"

text \<open>
  The writes at the end of an iteration: each group plus the input vectors, with the counter
  vector \<open>s3\<close> advanced after each group.
\<close>

fun write_groups :: "vec \<Rightarrow> vec \<Rightarrow> vec \<Rightarrow> vgroup list \<Rightarrow> vec \<times> nat \<times> bytes \<Rightarrow> vec \<times> nat \<times> bytes" where
  "write_groups s0 s1 s2 [] s = s"
| "write_groups s0 s1 s2 ((v0, v1, v2, v3) # vs) (s3, w, out) =
     write_groups s0 s1 s2 vs
       (s3 + ONE, w + 16, WRITE out w (v0 + s0, v1 + s1, v2 + s2, v3 + s3))"

definition gpr_input :: "simd_target \<Rightarrow> u32 list \<Rightarrow> u32 list \<Rightarrow> u32 \<Rightarrow> nat \<Rightarrow> u32 list" where
  "gpr_input t kp np block_idx j =
     (let x_ctr = ucast (block_idx + of_nat (BPI t * j) + of_nat (BPI t - 1)) :: u64
      in chacha_const @ kp @
         [ucast (x_ctr AND 0xFFFFFFFF), ucast (drop_bit 32 x_ctr), np ! 0, np ! 1])"

definition krovetz_iteration ::
    "simd_target \<Rightarrow> nat \<Rightarrow> u32 list \<Rightarrow> u32 list \<Rightarrow> u32 \<Rightarrow> nat \<Rightarrow> vec \<times> nat \<times> bytes \<Rightarrow> vec \<times> nat \<times> bytes"
where
  "krovetz_iteration t chacha_rounds kp np block_idx j s =
     (case s of (s3, op, out) \<Rightarrow>
        let s0 = vec_of chacha_const;
            s1 = vec_of kp;
            s2 = vec_of (drop 4 kp);
            vs = vec_groups (VBPI t) s0 s1 s2 s3;
            x = gpr_input t kp np block_idx j;
            (vs', x') = krovetz_rounds t (chacha_rounds div 2) (vs, x);
            (s3, op, out) = write_groups s0 s1 s2 vs' (s3, op, out)
        in if GPR_TOO t = 1
           then (s3 + ONE, op + 16, mem_write out (4 * op) (words_bytes (map2 (+) x' x)))
           else (s3, op, out))"

definition ottery_blocks_chacha_krovetz ::
    "simd_target \<Rightarrow> nat \<Rightarrow> bytes \<Rightarrow> u32 \<Rightarrow> chacha_state_krovetz \<Rightarrow> bytes" where
  "ottery_blocks_chacha_krovetz t chacha_rounds out block_idx st =
     (let kp = bytes_words 8 (st_key st);
          np = bytes_words 2 (st_nonce st);
          s3 = NONCE block_idx np
      in snd (snd (fold (krovetz_iteration t chacha_rounds kp np block_idx)
                        [0..<LOOP_ITERATIONS] (s3, 0, out))))"

section \<open>The PRF entry points\<close>

definition KROVETZ_STATE_LEN :: nat where
  "KROVETZ_STATE_LEN = 48"

definition KROVETZ_STATE_BYTES :: nat where
  "KROVETZ_STATE_BYTES = 40"

definition KROVETZ_IDX_STEP :: "simd_target \<Rightarrow> nat" where
  "KROVETZ_IDX_STEP t = BPI t * LOOP_ITERATIONS"

definition KROVETZ_OUTPUT_LEN :: "simd_target \<Rightarrow> nat" where
  "KROVETZ_OUTPUT_LEN t = KROVETZ_IDX_STEP t * 64"

text \<open>
  The struct in the state memory: both members are 16-byte aligned, so the nonce starts at
  byte 32 and the struct has 48 bytes.
\<close>

definition kst_of_mem :: "bytes \<Rightarrow> chacha_state_krovetz" where
  "kst_of_mem m = \<lparr>st_key = mem_read m 0 32, st_nonce = mem_read m 32 8\<rparr>"

definition chacha_krovetz_state_setup :: "bytes \<Rightarrow> bytes \<Rightarrow> bytes" where
  "chacha_krovetz_state_setup stm bs =
     (let stm = mem_write stm 0 (mem_read bs 0 32);
          stm = mem_write stm 32 (mem_read bs 32 8)
      in stm)"

definition krovetz_generate ::
    "simd_target \<Rightarrow> nat \<Rightarrow> bytes \<Rightarrow> bytes \<Rightarrow> u32 \<Rightarrow> bytes \<times> bytes" where
  "krovetz_generate t chacha_rounds stm output idx =
     (stm, ottery_blocks_chacha_krovetz t chacha_rounds output
             (idx * of_nat (KROVETZ_IDX_STEP t)) (kst_of_mem stm))"

definition chacha8_krovetz_generate :: "simd_target \<Rightarrow> bytes \<Rightarrow> bytes \<Rightarrow> u32 \<Rightarrow> bytes \<times> bytes" where
  "chacha8_krovetz_generate t stm output idx = krovetz_generate t 8 stm output idx"

definition chacha12_krovetz_generate :: "simd_target \<Rightarrow> bytes \<Rightarrow> bytes \<Rightarrow> u32 \<Rightarrow> bytes \<times> bytes" where
  "chacha12_krovetz_generate t stm output idx = krovetz_generate t 12 stm output idx"

definition chacha20_krovetz_generate :: "simd_target \<Rightarrow> bytes \<Rightarrow> bytes \<Rightarrow> u32 \<Rightarrow> bytes \<times> bytes" where
  "chacha20_krovetz_generate t stm output idx = krovetz_generate t 20 stm output idx"

section \<open>Every rotation is the rotation\<close>

lemma shl_xor_shr_rotl: "n < 32 \<Longrightarrow> shl_xor_shr n x = word_rotl n x"
  by (simp add: shl_xor_shr_def rotl_xor)

lemma neon_rotw_rotl:
  assumes "n < 32"
  shows "neon_rotw c n x = word_rotl n x"
  using assms by (intro bit_word_eqI)
    (auto simp: neon_rotw_def shl_xor_shr_rotl vsri_def bit_rotl32 bit_simps
      not_bit_shifted_out simp del: bit_word_rotl_iff)

lemma vrev32_u16_rotl: "vrev32_u16 x = word_rotl 16 x"
proof -
  have m: "y AND 0xFFFF = take_bit 16 y" for y :: u32
    by (simp add: take_bit_eq_mask mask_eq_exp_minus_1)
  have "vrev32_u16 x = push_bit 16 x OR drop_bit 16 x"
    unfolding vrev32_u16_def m
    by (rule bit_word_eqI) (auto simp: bit_simps dest: bit_imp_le_length)
  then show ?thesis using rotl_or [of 16 x] by simp
qed

lemma le32_rotl8:
  "le32 (word_rotl 8 x) = [ucast (drop_bit 24 x), ucast x, ucast (drop_bit 8 x), ucast (drop_bit 16 x)]"
  unfolding le32_def by (auto intro!: bit_word_eqI simp: bit_rotl32 bit_simps
      simp del: bit_word_rotl_iff)

lemma le32_rotl16:
  "le32 (word_rotl 16 x) = [ucast (drop_bit 16 x), ucast (drop_bit 24 x), ucast x, ucast (drop_bit 8 x)]"
  unfolding le32_def by (auto intro!: bit_word_eqI simp: bit_rotl32 bit_simps
      simp del: bit_word_rotl_iff)

lemma vec_of_bytes:
  "vec_of (bytes_words 4 (le32 a @ le32 b @ le32 c @ le32 d)) = Vec a b c d"
  using bytes_words_words_bytes [of "[a, b, c, d]" "[]"] by (simp add: numeral_eq_Suc)

lemma shuffle_epi8_rotl8:
  "shuffle_epi8 v (rev [14, 13, 12, 15, 10, 9, 8, 11, 6, 5, 4, 7, 2, 1, 0, 3])
     = map_lanes (word_rotl 8) v"
proof -
  have "map (\<lambda>i. words_bytes (lanes v) ! i) (rev [14, 13, 12, 15, 10, 9, 8, 11, 6, 5, 4, 7, 2, 1, 0, 3])
          = words_bytes (map (word_rotl 8) (lanes v))"
    by (simp add: lanes_def le32_rotl8) (simp add: le32_def)
  then show ?thesis
    by (simp add: shuffle_epi8_def Let_def lanes_def vec_of_bytes map_lanes_def del: vec_of.simps)
qed

lemma shuffle_epi8_rotl16:
  "shuffle_epi8 v (rev [13, 12, 15, 14, 9, 8, 11, 10, 5, 4, 7, 6, 1, 0, 3, 2])
     = map_lanes (word_rotl 16) v"
proof -
  have "map (\<lambda>i. words_bytes (lanes v) ! i) (rev [13, 12, 15, 14, 9, 8, 11, 10, 5, 4, 7, 6, 1, 0, 3, 2])
          = words_bytes (map (word_rotl 16) (lanes v))"
    by (simp add: lanes_def le32_rotl16) (simp add: le32_def)
  then show ?thesis
    by (simp add: shuffle_epi8_def Let_def lanes_def vec_of_bytes map_lanes_def del: vec_of.simps)
qed

lemma ROTW_rotl:
  "ROTW16 t v = map_lanes (word_rotl 16) v"
  "ROTW12 t v = map_lanes (word_rotl 12) v"
  "ROTW8 t v = map_lanes (word_rotl 8) v"
  "ROTW7 t v = map_lanes (word_rotl 7) v"
  unfolding ROTW16_def ROTW12_def ROTW8_def ROTW7_def
  by (simp_all only: shuffle_epi8_rotl8 shuffle_epi8_rotl16 split: simd_arch.split)
     (simp_all add: map_lanes_def shl_xor_shr_rotl neon_rotw_rotl vrev32_u16_rotl)

section \<open>Rounds on vectors are rounds on words\<close>

definition vwords :: "vgroup \<Rightarrow> u32 list" where
  "vwords g = (case g of (a, b, c, d) \<Rightarrow> lanes a @ lanes b @ lanes c @ lanes d)"

lemma length_vwords [simp]: "length (vwords g) = 16"
  by (simp add: vwords_def lanes_def split: prod.split)

lemma vec_qround_qr:
  assumes "qr a0 b0 c0 d0 = (p0, q0, r0, s0)" "qr a1 b1 c1 d1 = (p1, q1, r1, s1)"
    "qr a2 b2 c2 d2 = (p2, q2, r2, s2)" "qr a3 b3 c3 d3 = (p3, q3, r3, s3)"
  shows "vec_qround t (Vec a0 a1 a2 a3, Vec b0 b1 b2 b3, Vec c0 c1 c2 c3, Vec d0 d1 d2 d3)
           = (Vec p0 p1 p2 p3, Vec q0 q1 q2 q3, Vec r0 r1 r2 r3, Vec s0 s1 s2 s3)"
  using assms by (auto simp: qr_def Let_def ROTW_rotl map_lanes_def)

declare vec_qround.simps [simp del]

lemma DQROUND_double_round: "vwords (DQROUND_VECTORS t g) = double_round (vwords g)"
proof -
  obtain x0 x1 x2 x3 x4 x5 x6 x7 x8 x9 x10 x11 x12 x13 x14 x15 where
    g: "g = (Vec x0 x1 x2 x3, Vec x4 x5 x6 x7, Vec x8 x9 x10 x11, Vec x12 x13 x14 x15)"
    by (metis prod_cases4 vec.exhaust)
  obtain p0 q0 r0 s0 where 0: "qr x0 x4 x8 x12 = (p0, q0, r0, s0)" by (metis prod_cases4)
  obtain p1 q1 r1 s1 where 1: "qr x1 x5 x9 x13 = (p1, q1, r1, s1)" by (metis prod_cases4)
  obtain p2 q2 r2 s2 where 2: "qr x2 x6 x10 x14 = (p2, q2, r2, s2)" by (metis prod_cases4)
  obtain p3 q3 r3 s3 where 3: "qr x3 x7 x11 x15 = (p3, q3, r3, s3)" by (metis prod_cases4)
  obtain a0 b0 c0 d0 where 4: "qr p0 q1 r2 s3 = (a0, b0, c0, d0)" by (metis prod_cases4)
  obtain a1 b1 c1 d1 where 5: "qr p1 q2 r3 s0 = (a1, b1, c1, d1)" by (metis prod_cases4)
  obtain a2 b2 c2 d2 where 6: "qr p2 q3 r0 s1 = (a2, b2, c2, d2)" by (metis prod_cases4)
  obtain a3 b3 c3 d3 where 7: "qr p3 q0 r1 s2 = (a3, b3, c3, d3)" by (metis prod_cases4)
  show ?thesis
    by (simp add: g vec_qround_qr [OF 0 1 2 3] vec_qround_qr [OF 4 5 6 7] vwords_def lanes_def
        double_round_def double_round_schedule_def quarter_at.simps 0 1 2 3 4 5 6 7)
qed

lemma xor_rotl_word_rotl:
  "n < 32 \<Longrightarrow> xor_rotl d a n x = x[d := word_rotl n (x ! d XOR x ! a)]"
  by (cases "d < length x") (simp_all add: xor_rotl_def rotl_or list_update_beyond)

lemma QROUND_WORDS_inplace: "QROUND_WORDS a b c d x = inplace_quarter a b c d x"
  by (simp only: QROUND_WORDS_def inplace_quarter_def xor_rotl_word_rotl less_numeral_simps
      rel_simps)

lemmas QROUND_WORDS_quarter_at = inplace_quarter_at [folded QROUND_WORDS_inplace]

lemma gpr_double_round_eq: "length x = 16 \<Longrightarrow> gpr_double_round x = double_round x"
  by (simp add: gpr_double_round_def double_round_def double_round_schedule_def
      QROUND_WORDS_quarter_at Let_def)

lemma krovetz_rounds_eq:
  assumes "krovetz_rounds t n (vs, x) = (vs', x')" "length x = 16"
  shows "map vwords vs' = map (\<lambda>g. (double_round ^^ n) (vwords g)) vs"
    and "GPR_TOO t = 1 \<Longrightarrow> x' = (double_round ^^ n) x"
  using assms
proof (induction n arbitrary: vs x)
  case 0
  {
    case 1
    then show ?case by simp
  next
    case 2
    then show ?case by simp
  }
next
  case (Suc n)
  {
    case 1
    then show ?case
      by (simp add: Suc.IH(1) gpr_double_round_eq DQROUND_double_round funpow_swap1 comp_def
          split: if_splits)
  next
    case 2
    then show ?case
      using Suc.IH(2) by (simp add: gpr_double_round_eq funpow_swap1)
  }
qed

section \<open>Generation refines the reference stream\<close>

lemma NONCE_ONE: "NONCE ctr np + ONE = NONCE (ctr + 1) np"
  by (simp add: NONCE_def ONE_def)

lemma vwords_input:
  assumes "length k = 32"
  shows "vwords (vec_of chacha_const, vec_of (bytes_words 8 k), vec_of (drop 4 (bytes_words 8 k)),
            NONCE ctr (bytes_words 2 n)) = chacha_input (k @ n) ctr"
proof -
  have upt: "[0..<8] = [0, 1, 2, 3, 4, 5, 6, 7 :: nat]" "[0..<2] = [0, 1 :: nat]"
    by (simp_all add: upt_rec)
  show ?thesis
    using assms by (simp add: vwords_def lanes_def NONCE_def chacha_input_def chacha_const_def
        chacha_constants_def bytes_words_def upt load32_append)
qed

lemma vwords_add:
  "vwords (v0 + s0, v1 + s1, v2 + s2, v3 + s3) = map2 (+) (vwords (v0, v1, v2, v3)) (vwords (s0, s1, s2, s3))"
  by (cases v0; cases v1; cases v2; cases v3; cases s0; cases s1; cases s2; cases s3)
     (simp add: vwords_def lanes_def)

lemma length_lanes [simp]: "length (lanes v) = 4"
  by (simp add: lanes_def)

lemma WRITE_mem_write:
  assumes "4 * w + 64 \<le> length out"
  shows "WRITE out w g = mem_write out (4 * w) (words_bytes (vwords g))"
proof -
  obtain v0 v1 v2 v3 where g: "g = (v0, v1, v2, v3)" by (metis prod_cases4)
  have step: "mem_write (mem_write out (4 * w) xs) (4 * w + m) ys = mem_write out (4 * w) (xs @ ys)"
    if "length xs = m" "4 * w + length xs + length ys \<le> length out" for xs ys m
    using mem_write_append [of "4 * w" xs ys out] that by simp
  show ?thesis
    using assms by (simp add: g WRITE_def vwords_def words_bytes_append step Let_def)
qed

lemma vec_groups_nth:
  "i < n \<Longrightarrow> vec_groups n s0 s1 s2 (NONCE ctr np) ! i = (s0, s1, s2, NONCE (ctr + of_nat i) np)"
proof (induction n arbitrary: ctr i)
  case (Suc n)
  show ?case
  proof (cases i)
    case (Suc j)
    then have "vec_groups n s0 s1 s2 (NONCE (ctr + 1) np) ! j
                 = (s0, s1, s2, NONCE (ctr + 1 + of_nat j) np)"
      using Suc.prems by (intro Suc.IH) simp
    then show ?thesis by (simp add: Suc NONCE_ONE add.assoc)
  qed simp
qed simp

lemma length_vec_groups [simp]: "length (vec_groups n s0 s1 s2 v3) = n"
  by (induction n arbitrary: v3) auto

lemma write_groups_stream:
  assumes "\<And>i. i < length vs \<Longrightarrow>
      vwords (vs ! i) = (double_round ^^ (r div 2)) (chacha_input K (ctr + of_nat i))"
    and "\<And>c. vwords (s0, s1, s2, NONCE c np) = chacha_input K c"
    and "4 * w + 64 * length vs \<le> length out"
  shows "write_groups s0 s1 s2 vs (NONCE ctr np, w, out)
           = (NONCE (ctr + of_nat (length vs)) np, w + 16 * length vs,
              mem_write out (4 * w) (chacha_stream r (length vs) K ctr))"
  using assms
proof (induction vs arbitrary: ctr w out)
  case Nil
  then show ?case by simp
next
  case (Cons g vs)
  obtain v0 v1 v2 v3 where g: "g = (v0, v1, v2, v3)" by (metis prod_cases4)
  let ?p = "chacha_prf r K ctr"
  have "vwords (v0, v1, v2, v3) = (double_round ^^ (r div 2)) (chacha_input K ctr)"
    using Cons.prems(1) [of 0] by (simp add: g)
  then have "vwords (v0 + s0, v1 + s1, v2 + s2, v3 + NONCE ctr np)
               = chacha_words r (chacha_input K ctr)"
    by (simp add: vwords_add Cons.prems(2) chacha_words_def)
  then have W: "WRITE out w (v0 + s0, v1 + s1, v2 + s2, v3 + NONCE ctr np) = mem_write out (4 * w) ?p"
    using Cons.prems(3) by (simp add: WRITE_mem_write chacha_prf_def)
  have IH: "write_groups s0 s1 s2 vs (NONCE (ctr + 1) np, w + 16, mem_write out (4 * w) ?p)
      = (NONCE (ctr + 1 + of_nat (length vs)) np, w + 16 + 16 * length vs,
         mem_write (mem_write out (4 * w) ?p) (4 * (w + 16)) (chacha_stream r (length vs) K (ctr + 1)))"
    using Cons.prems(3)
    by (intro Cons.IH) (auto simp: Cons.prems(2) Cons.prems(1) [of "Suc _", simplified] add_ac)
  have "mem_write (mem_write out (4 * w) ?p) (4 * (w + 16)) (chacha_stream r (length vs) K (ctr + 1))
          = mem_write out (4 * w) (?p @ chacha_stream r (length vs) K (ctr + 1))"
    using mem_write_append [of "4 * w" ?p "chacha_stream r (length vs) K (ctr + 1)" out] Cons.prems(3)
    by (simp add: distrib_left)
  then show ?case
    by (simp add: g W NONCE_ONE IH chacha_stream_Cons add.assoc)
qed

lemma gpr_input_eq:
  assumes "length k = 32"
  shows "gpr_input t (bytes_words 8 k) (bytes_words 2 n) idx j
           = chacha_input (k @ n) (idx + of_nat (BPI t * j) + of_nat (BPI t - 1))"
proof -
  have m: "ucast (ucast c AND (0xFFFFFFFF :: u64)) = c" "ucast (drop_bit 32 (ucast c :: u64)) = (0 :: u32)"
    for c :: u32
  proof -
    have "x AND (0xFFFFFFFF :: u64) = take_bit 32 x" for x
      by (simp add: take_bit_eq_mask mask_eq_exp_minus_1)
    then show "ucast (ucast c AND (0xFFFFFFFF :: u64)) = c"
      by (auto intro!: bit_word_eqI simp: bit_simps)
    show "ucast (drop_bit 32 (ucast c :: u64)) = (0 :: u32)"
      by (rule bit_word_eqI) (auto simp: bit_simps dest: bit_imp_le_length)
  qed
  have upt: "[0..<2] = [0, 1 :: nat]" by (simp add: upt_rec)
  have "bytes_words 8 k = bytes_words 8 (k @ n)"
    using assms by (auto simp: bytes_words_def load32_append)
  then show ?thesis
    using assms by (simp add: gpr_input_def Let_def m chacha_input_def chacha_const_def
        chacha_constants_def bytes_words_def upt)
qed

lemma ONE_NONCE: "ONE + NONCE ctr np = NONCE (ctr + 1) np"
  by (simp add: NONCE_def ONE_def)

lemma krovetz_rounds_groups:
  assumes "krovetz_rounds t h (vec_groups V s0 s1 s2 (NONCE ctr np), x) = (vs', x')"
    and "length x = 16" and "\<And>c. vwords (s0, s1, s2, NONCE c np) = chacha_input K c"
  shows "length vs' = V"
    and "i < V \<Longrightarrow> vwords (vs' ! i) = (double_round ^^ h) (chacha_input K (ctr + of_nat i))"
proof -
  have m: "map vwords vs'
             = map (\<lambda>g. (double_round ^^ h) (vwords g)) (vec_groups V s0 s1 s2 (NONCE ctr np))"
    using assms by (intro krovetz_rounds_eq(1))
  then show l: "length vs' = V"
    by (metis length_map length_vec_groups)
  show "i < V \<Longrightarrow> vwords (vs' ! i) = (double_round ^^ h) (chacha_input K (ctr + of_nat i))"
    using arg_cong [OF m, of "\<lambda>l. l ! i"] l by (simp add: vec_groups_nth assms(3))
qed

lemma krovetz_iteration_stream:
  assumes "even r" "length k = 32" "4 * w + 64 * BPI t \<le> length out"
    and ctr: "ctr = idx + of_nat (BPI t * j)"
  shows "krovetz_iteration t r (bytes_words 8 k) (bytes_words 2 n) idx j
           (NONCE ctr (bytes_words 2 n), w, out)
         = (NONCE (ctr + of_nat (BPI t)) (bytes_words 2 n), w + 16 * BPI t,
            mem_write out (4 * w) (chacha_stream r (BPI t) (k @ n) ctr))"
proof -
  define np where "np = bytes_words 2 n"
  define s0 s1 s2 where "s0 = vec_of chacha_const" and "s1 = vec_of (bytes_words 8 k)"
    and "s2 = vec_of (drop 4 (bytes_words 8 k))"
  define vs where "vs = vec_groups (VBPI t) s0 s1 s2 (NONCE ctr np)"
  define x where "x = gpr_input t (bytes_words 8 k) np idx j"
  have inp: "vwords (s0, s1, s2, NONCE c np) = chacha_input (k @ n) c" for c
    using assms(2) by (simp add: s0_def s1_def s2_def np_def vwords_input del: vec_of.simps)
  have x: "x = chacha_input (k @ n) (ctr + of_nat (BPI t - 1))"
    using assms(2) by (simp add: x_def np_def gpr_input_eq ctr)
  obtain vs' x' where kr: "krovetz_rounds t (r div 2) (vs, x) = (vs', x')"
    by (metis prod.exhaust)
  have len: "length vs' = VBPI t"
    and vs': "i < VBPI t \<Longrightarrow>
      vwords (vs' ! i) = (double_round ^^ (r div 2)) (chacha_input (k @ n) (ctr + of_nat i))" for i
    using krovetz_rounds_groups [OF kr [unfolded vs_def] _ inp] by (simp_all add: x)
  have wg: "write_groups s0 s1 s2 vs' (NONCE ctr np, w, out)
      = (NONCE (ctr + of_nat (VBPI t)) np, w + 16 * VBPI t,
         mem_write out (4 * w) (chacha_stream r (VBPI t) (k @ n) ctr))"
    using write_groups_stream [of vs' r "k @ n" ctr s0 s1 s2 np w out] vs' inp assms(3)
    by (simp add: len BPI_def)
  show ?thesis
  proof (cases "GPR_TOO t = 1")
    case True
    then have b: "BPI t = Suc (VBPI t)" by (simp add: BPI_def)
    have "x' = (double_round ^^ (r div 2)) x"
      using krovetz_rounds_eq(2) [OF kr] True by (simp add: x)
    then have "words_bytes (map2 (+) x' x) = chacha_prf r (k @ n) (ctr + of_nat (VBPI t))"
      by (simp add: x b chacha_prf_def chacha_words_def)
    moreover have "4 * (w + 16 * VBPI t) = 4 * w + 64 * VBPI t" by simp
    ultimately show ?thesis
      using True kr wg mem_write_append [of "4 * w" "chacha_stream r (VBPI t) (k @ n) ctr"
          "chacha_prf r (k @ n) (ctr + of_nat (VBPI t))" out] assms(3)
      by (simp add: krovetz_iteration_def np_def [symmetric] s0_def [symmetric] s1_def [symmetric]
          s2_def [symmetric] vs_def [symmetric] x_def [symmetric] Let_def b chacha_stream_Suc
          NONCE_ONE ONE_NONCE add_ac del: vec_of.simps)
  next
    case False
    then have "BPI t = VBPI t" by (simp add: BPI_def GPR_TOO_def split: if_splits)
    with False kr wg show ?thesis
      by (simp add: krovetz_iteration_def np_def [symmetric] s0_def [symmetric] s1_def [symmetric]
          s2_def [symmetric] vs_def [symmetric] x_def [symmetric] Let_def del: vec_of.simps)
  qed
qed

lemma krovetz_loop_stream:
  assumes "even r" "length k = 32" "64 * (BPI t * m) \<le> length out"
  shows "fold (krovetz_iteration t r (bytes_words 8 k) (bytes_words 2 n) idx) [0..<m]
           (NONCE idx (bytes_words 2 n), 0, out)
         = (NONCE (idx + of_nat (BPI t * m)) (bytes_words 2 n), 16 * (BPI t * m),
            mem_write out 0 (chacha_stream r (BPI t * m) (k @ n) idx))"
  using assms(3)
proof (induction m)
  case 0
  then show ?case by simp
next
  case (Suc m)
  let ?K = "k @ n" and ?o = "mem_write out 0 (chacha_stream r (BPI t * m) (k @ n) idx)"
  have len: "4 * (16 * (BPI t * m)) + 64 * BPI t \<le> length ?o"
    using Suc.prems by (simp add: algebra_simps)
  have eq: "BPI t * Suc m = BPI t * m + BPI t" by simp
  have app: "mem_write ?o (64 * (BPI t * m)) (chacha_stream r (BPI t) ?K (idx + of_nat (BPI t * m)))
      = mem_write out 0 (chacha_stream r (BPI t * Suc m) ?K idx)"
    using mem_write_append [of 0 "chacha_stream r (BPI t * m) ?K idx"
        "chacha_stream r (BPI t) ?K (idx + of_nat (BPI t * m))" out] Suc.prems
    unfolding eq chacha_stream_add by (simp add: algebra_simps)
  have IH: "fold (krovetz_iteration t r (bytes_words 8 k) (bytes_words 2 n) idx) [0..<m]
           (NONCE idx (bytes_words 2 n), 0, out)
         = (NONCE (idx + of_nat (BPI t * m)) (bytes_words 2 n), 16 * (BPI t * m), ?o)"
    using Suc by simp
  show ?case
    using krovetz_iteration_stream [OF assms(1,2) len refl, of n idx] app
    by (simp add: IH add.assoc) (simp add: algebra_simps)
qed

lemma ottery_blocks_chacha_krovetz_stream:
  assumes "even r" "length (st_key st) = 32" "KROVETZ_OUTPUT_LEN t \<le> length out"
  shows "ottery_blocks_chacha_krovetz t r out idx st
           = mem_write out 0 (chacha_stream r (KROVETZ_IDX_STEP t) (st_key st @ st_nonce st) idx)"
  using krovetz_loop_stream [of r "st_key st" t LOOP_ITERATIONS out "st_nonce st" idx] assms
  by (simp add: ottery_blocks_chacha_krovetz_def KROVETZ_OUTPUT_LEN_def KROVETZ_IDX_STEP_def Let_def)

text \<open>The state memory holds a 40-byte key: the key and nonce members side by side.\<close>

definition krovetz_keyed :: "bytes \<Rightarrow> bytes \<Rightarrow> bool" where
  "krovetz_keyed m key \<longleftrightarrow>
     KROVETZ_STATE_LEN \<le> length m \<and> take KROVETZ_STATE_BYTES m = key"

lemma krovetz_setup_eq:
  assumes "KROVETZ_STATE_LEN \<le> length m" "KROVETZ_STATE_BYTES \<le> length bs"
  shows "chacha_krovetz_state_setup m bs = take KROVETZ_STATE_BYTES bs @ drop KROVETZ_STATE_BYTES m"
proof -
  have "chacha_krovetz_state_setup m bs = mem_write m 0 (mem_read bs 0 32 @ mem_read bs 32 8)"
    using mem_write_append [of 0 "mem_read bs 0 32" "mem_read bs 32 8" m] assms
    by (simp add: chacha_krovetz_state_setup_def KROVETZ_STATE_LEN_def KROVETZ_STATE_BYTES_def
        mem_simps)
  also have "mem_read bs 0 32 @ mem_read bs 32 8 = take KROVETZ_STATE_BYTES bs"
    using take_add [of 32 8 bs] by (simp add: mem_read_def KROVETZ_STATE_BYTES_def)
  finally show ?thesis
    using assms by (simp add: mem_write_start KROVETZ_STATE_LEN_def KROVETZ_STATE_BYTES_def)
qed

lemma krovetz_setup_keyed:
  assumes "KROVETZ_STATE_LEN \<le> length m" "KROVETZ_STATE_BYTES \<le> length bs"
  shows "krovetz_keyed (chacha_krovetz_state_setup m bs) (take KROVETZ_STATE_BYTES bs)"
  using assms by (simp add: krovetz_setup_eq krovetz_keyed_def KROVETZ_STATE_LEN_def KROVETZ_STATE_BYTES_def)

lemma krovetz_generate_stream:
  assumes "even r" "krovetz_keyed m key" "KROVETZ_OUTPUT_LEN t \<le> length out"
  shows "snd (krovetz_generate t r m out idx)
           = mem_write out 0 (chacha_stream r (KROVETZ_IDX_STEP t) key
               (idx * of_nat (KROVETZ_IDX_STEP t)))"
    and "krovetz_keyed (fst (krovetz_generate t r m out idx)) key"
proof -
  have "length (st_key (kst_of_mem m)) = 32"
    using assms(2) by (simp add: krovetz_keyed_def kst_of_mem_def KROVETZ_STATE_LEN_def mem_simps)
  moreover have "st_key (kst_of_mem m) @ st_nonce (kst_of_mem m) = key"
    using assms(2) take_add [of 32 8 m]
    by (simp add: krovetz_keyed_def kst_of_mem_def KROVETZ_STATE_BYTES_def mem_read_def)
  ultimately show "snd (krovetz_generate t r m out idx)
           = mem_write out 0 (chacha_stream r (KROVETZ_IDX_STEP t) key
               (idx * of_nat (KROVETZ_IDX_STEP t)))"
    using assms ottery_blocks_chacha_krovetz_stream [of r "kst_of_mem m" t out]
    by (simp add: krovetz_generate_def)
  show "krovetz_keyed (fst (krovetz_generate t r m out idx)) key"
    using assms(2) by (simp add: krovetz_generate_def)
qed

lemma length_krovetz [simp]:
  "length (chacha_krovetz_state_setup m bs) = length m"
  "length (fst (krovetz_generate t r m out idx)) = length m"
  by (simp_all add: chacha_krovetz_state_setup_def krovetz_generate_def Let_def)

section \<open>Properties\<close>

text \<open>
  C5: The vectorised PRF is ChaCha, on every instruction set and compiler the file is written for:
  after \<^verbatim>\<open>setup\<close> with at least 40 bytes, \<^verbatim>\<open>generate\<close> fills the output with consecutive ChaCha
  blocks for that key. The number of blocks per call (12 or 16) depends on how many vectors the
  target processes at once and whether one more block is computed in general registers.
\<close>

theorem krovetz_prf_is_chacha:
  assumes "KROVETZ_STATE_LEN \<le> length m" "KROVETZ_STATE_BYTES \<le> length bs"
    and "KROVETZ_OUTPUT_LEN t \<le> length out"
  shows "snd (chacha8_krovetz_generate t (chacha_krovetz_state_setup m bs) out idx) =
      mem_write out 0 (chacha_stream 8 (KROVETZ_IDX_STEP t) (take 40 bs)
        (idx * of_nat (KROVETZ_IDX_STEP t))) \<and>
    snd (chacha12_krovetz_generate t (chacha_krovetz_state_setup m bs) out idx) =
      mem_write out 0 (chacha_stream 12 (KROVETZ_IDX_STEP t) (take 40 bs)
        (idx * of_nat (KROVETZ_IDX_STEP t))) \<and>
    snd (chacha20_krovetz_generate t (chacha_krovetz_state_setup m bs) out idx) =
      mem_write out 0 (chacha_stream 20 (KROVETZ_IDX_STEP t) (take 40 bs)
        (idx * of_nat (KROVETZ_IDX_STEP t)))"
  using krovetz_generate_stream [OF _ krovetz_setup_keyed [OF assms(1,2)] assms(3)]
  by (simp add: chacha8_krovetz_generate_def chacha12_krovetz_generate_def
      chacha20_krovetz_generate_def KROVETZ_STATE_BYTES_def)

theorem krovetz_prf_is_chacha_witness:
  "snd (chacha8_krovetz_generate \<lparr>arch = Neon, clang = False\<rparr>
      (chacha_krovetz_state_setup (replicate 256 0) (replicate 40 9)) (replicate 1024 0) 2) =
    mem_write (replicate 1024 0) 0 (chacha_stream 8 12 (replicate 40 9) 24)"
  using krovetz_prf_is_chacha [of "replicate 256 0" "replicate 40 9"
      "\<lparr>arch = Neon, clang = False\<rparr>" "replicate 1024 0" 2]
  by (simp add: KROVETZ_STATE_LEN_def KROVETZ_STATE_BYTES_def KROVETZ_OUTPUT_LEN_def
      KROVETZ_IDX_STEP_def BPI_def VBPI_def GPR_TOO_def LOOP_ITERATIONS_def)

text \<open>
  The lane rotations of every instruction set, written with shifts, with NEON's shift-and-insert
  or half-word reversal, or with SSSE3 byte shuffles, are rotations of the four 32-bit lanes.
\<close>

lemma lane_rotations:
  "ROTW16 t v = map_lanes (word_rotl 16) v \<and> ROTW12 t v = map_lanes (word_rotl 12) v \<and>
   ROTW8 t v = map_lanes (word_rotl 8) v \<and> ROTW7 t v = map_lanes (word_rotl 7) v"
  by (simp only: ROTW_rotl simp_thms)

end
