(* ===== verification/Ottery_Platform.thy ===== *)
theory Ottery_Platform
  imports Chacha_Krovetz
begin

text \<open>
  What the library is compiled with and what it runs on.

  \<open>build\<close> records the preprocessor symbols that the sources test: the configure options
  (\<^verbatim>\<open>OTTERY_NO_...\<close>), the target platform, which vectorised ChaCha objects are linked in
  (\<^verbatim>\<open>HAVE_SIMD_CHACHA\<close>, \<^verbatim>\<open>HAVE_SIMD_CHACHA_2\<close>) and the structure sizes that the compiler
  chose; \<open>predefined\<close> are the names that the compiler predefines. \<open>os\<close> records the system calls,
  library functions and CPU instructions that the sources use and that are not part of the
  repository; they act on a world of type \<open>'w\<close>, which is left open. The error codes, flags and limits of \<^verbatim>\<open>src/ottery_common.h\<close> and
  \<^verbatim>\<open>src/ottery-internal.h\<close> follow, then the lock macros of \<^verbatim>\<open>src/ottery-threading.h\<close> and the
  CPU feature detection of \<^verbatim>\<open>src/ottery_cpuinfo.c\<close>.
\<close>

section \<open>Compile-time configuration\<close>

record build =
  opt_no_pid_check :: bool
  opt_no_init_check :: bool
  opt_no_locks :: bool
  opt_no_spinlocks :: bool
  opt_no_clear_after_yield :: bool
  opt_no_wipe_stack :: bool
  opt_no_simd :: bool
  ndebug :: bool
  win32 :: bool
  apple :: bool
  have_pthread :: bool
  predefined :: "string list"
  simd1 :: "simd_target option"
  simd2 :: "simd_target option"
  sizeof_config :: nat
  sizeof_state :: nat
  version :: u32
  version_string :: string

definition no_pid_check :: "build \<Rightarrow> bool" where
  "no_pid_check b = (opt_no_pid_check b \<or> win32 b)"

section \<open>Error codes, flags and limits\<close>

definition OTTERY_ERR_NONE :: u32 where "OTTERY_ERR_NONE = 0x0000"
definition OTTERY_ERR_LOCK_INIT :: u32 where "OTTERY_ERR_LOCK_INIT = 0x0001"
definition OTTERY_ERR_INTERNAL :: u32 where "OTTERY_ERR_INTERNAL = 0x0002"
definition OTTERY_ERR_INIT_STRONG_RNG :: u32 where "OTTERY_ERR_INIT_STRONG_RNG = 0x0003"
definition OTTERY_ERR_ACCESS_STRONG_RNG :: u32 where "OTTERY_ERR_ACCESS_STRONG_RNG = 0x0004"
definition OTTERY_ERR_INVALID_ARGUMENT :: u32 where "OTTERY_ERR_INVALID_ARGUMENT = 0x0005"
definition OTTERY_ERR_STATE_ALIGNMENT :: u32 where "OTTERY_ERR_STATE_ALIGNMENT = 0x0006"
definition OTTERY_ERR_STATE_INIT :: u32 where "OTTERY_ERR_STATE_INIT = 0x1000"
definition OTTERY_ERR_FLAG_GLOBAL_PRNG_INIT :: u32 where
  "OTTERY_ERR_FLAG_GLOBAL_PRNG_INIT = 0x2000"
definition OTTERY_ERR_FLAG_POSTFORK_RESEED :: u32 where
  "OTTERY_ERR_FLAG_POSTFORK_RESEED = 0x4000"

definition OTTERY_ERR_IS_FATAL :: "u32 \<Rightarrow> bool" where
  "OTTERY_ERR_IS_FATAL err = (err AND NOT 0xFFF \<noteq> 0)"

lemmas err_defs = OTTERY_ERR_NONE_def OTTERY_ERR_LOCK_INIT_def OTTERY_ERR_INTERNAL_def
  OTTERY_ERR_INIT_STRONG_RNG_def OTTERY_ERR_ACCESS_STRONG_RNG_def OTTERY_ERR_INVALID_ARGUMENT_def
  OTTERY_ERR_STATE_ALIGNMENT_def OTTERY_ERR_STATE_INIT_def OTTERY_ERR_FLAG_GLOBAL_PRNG_INIT_def
  OTTERY_ERR_FLAG_POSTFORK_RESEED_def

definition MAX_STATE_BYTES :: nat where "MAX_STATE_BYTES = 64"
definition MAX_STATE_LEN :: nat where "MAX_STATE_LEN = 256"
definition MAX_OUTPUT_LEN :: nat where "MAX_OUTPUT_LEN = 1024"
definition OTTERY_STATE_DUMMY_SIZE :: nat where "OTTERY_STATE_DUMMY_SIZE = 1536"
definition OTTERY_CONFIG_DUMMY_SIZE :: nat where "OTTERY_CONFIG_DUMMY_SIZE = 1024"

lemmas max_defs = MAX_STATE_BYTES_def MAX_STATE_LEN_def MAX_OUTPUT_LEN_def

definition OTTERY_BLDFLG_NO_PID_CHECK :: u32 where "OTTERY_BLDFLG_NO_PID_CHECK = 0x00000001"
definition OTTERY_BLDFLG_NO_INIT_CHECK :: u32 where "OTTERY_BLDFLG_NO_INIT_CHECK = 0x00000002"
definition OTTERY_BLDFLG_NO_LOCKING :: u32 where "OTTERY_BLDFLG_NO_LOCKING = 0x00000004"
definition OTTERY_BLDFLG_NO_CLEAR_AFTER_YIELD :: u32 where
  "OTTERY_BLDFLG_NO_CLEAR_AFTER_YIELD = 0x00000008"
definition OTTERY_BLDFLG_NO_WIPE_STACK :: u32 where "OTTERY_BLDFLG_NO_WIPE_STACK = 0x00000010"
definition OTTERY_BLDFLG_NO_SIMD :: u32 where "OTTERY_BLDFLG_NO_SIMD = 0x00010000"
definition OTTERY_BLDFLG_MASK_SAFETY :: u32 where "OTTERY_BLDFLG_MASK_SAFETY = 0x0000FFFF"

lemmas bldflg_defs = OTTERY_BLDFLG_NO_PID_CHECK_def OTTERY_BLDFLG_NO_INIT_CHECK_def
  OTTERY_BLDFLG_NO_LOCKING_def OTTERY_BLDFLG_NO_CLEAR_AFTER_YIELD_def
  OTTERY_BLDFLG_NO_WIPE_STACK_def OTTERY_BLDFLG_NO_SIMD_def OTTERY_BLDFLG_MASK_SAFETY_def

section \<open>The outside world\<close>

text \<open>
  A socket address is its family and the rest of its bytes; of \<^verbatim>\<open>struct stat\<close> the sources
  read the mode and the inode number. \<open>os_read fd n\<close> returns the result of \<^verbatim>\<open>read\<close> and the
  bytes it stored; \<open>os_fstat\<close> returns \<open>None\<close> where \<^verbatim>\<open>fstat\<close> fails. \<open>os_rdrand\<close> returns the
  value and the carry flag of the RDRAND instruction, \<open>os_cpuid i\<close> the registers
  \<^verbatim>\<open>eax, ebx, ecx, edx\<close> after CPUID. \<open>os_mutex_init\<close> is the result of initialising a mutex:
  \<open>True\<close> for failure. \<open>os_alloca_ok\<close> tells whether \<^verbatim>\<open>alloca\<close> of that size is non-null.
\<close>

record sockaddr =
  sa_family :: int
  sa_data :: bytes

record stat =
  st_mode :: u32
  st_ino :: u64

record 'w os =
  os_open :: "string \<Rightarrow> 'w \<Rightarrow> int \<times> 'w"
  os_fstat :: "int \<Rightarrow> 'w \<Rightarrow> stat option \<times> 'w"
  os_read :: "int \<Rightarrow> nat \<Rightarrow> 'w \<Rightarrow> (int \<times> bytes) \<times> 'w"
  os_close :: "int \<Rightarrow> 'w \<Rightarrow> 'w"
  os_socket :: "int \<Rightarrow> 'w \<Rightarrow> int \<times> 'w"
  os_connect :: "int \<Rightarrow> sockaddr \<Rightarrow> int \<Rightarrow> 'w \<Rightarrow> int \<times> 'w"
  os_write :: "int \<Rightarrow> bytes \<Rightarrow> 'w \<Rightarrow> int \<times> 'w"
  os_rdrand :: "'w \<Rightarrow> (u32 \<times> u8) \<times> 'w"
  os_cpuid :: "u32 \<Rightarrow> u32 \<times> u32 \<times> u32 \<times> u32"
  os_crypt_acquire :: "'w \<Rightarrow> int option \<times> 'w"
  os_crypt_gen_random :: "int \<Rightarrow> nat \<Rightarrow> 'w \<Rightarrow> (bool \<times> bytes) \<times> 'w"
  os_crypt_release :: "int \<Rightarrow> 'w \<Rightarrow> 'w"
  os_getpid :: "'w \<Rightarrow> int"
  os_mutex_init :: "'w \<Rightarrow> bool \<times> 'w"
  os_alloca_ok :: "nat \<Rightarrow> 'w \<Rightarrow> bool"

section \<open>Locks\<close>

datatype lock_kind = No_locks | OSAtomic_locks | Critical_section | Pthreads

definition lock_kind_of :: "build \<Rightarrow> lock_kind" where
  "lock_kind_of b =
     (if opt_no_locks b then No_locks
      else if apple b \<and> \<not> opt_no_spinlocks b then OSAtomic_locks
      else if win32 b then Critical_section
      else if have_pthread b then Pthreads
      else No_locks)"

definition no_locks :: "build \<Rightarrow> bool" where
  "no_locks b = (lock_kind_of b = No_locks)"

text \<open>
  \<^verbatim>\<open>INIT_LOCK\<close> is nonzero on failure; only the pthread and the Windows versions can fail.
  A mutex is the flag that it is held. The model runs one thread: acquiring a mutex that is
  held, by another thread that does not run on, waits for ever; releasing clears the flag.
\<close>

definition INIT_LOCK :: "build \<Rightarrow> 'w os \<Rightarrow> 'w \<Rightarrow> bool \<times> 'w" where
  "INIT_LOCK b os w =
     (case lock_kind_of b of
        Pthreads \<Rightarrow> os_mutex_init os w
      | Critical_section \<Rightarrow> os_mutex_init os w
      | OSAtomic_locks \<Rightarrow> (False, w)
      | No_locks \<Rightarrow> (False, w))"

definition ACQUIRE_LOCK :: "build \<Rightarrow> bool \<Rightarrow> bool outcome" where
  "ACQUIRE_LOCK b held = (if no_locks b then Ret held else if held then Hang else Ret True)"

definition RELEASE_LOCK :: "build \<Rightarrow> bool \<Rightarrow> bool" where
  "RELEASE_LOCK b held = (if no_locks b then held else False)"

text \<open>Destroying a mutex leaves one that nobody holds; the other versions do nothing.\<close>

definition DESTROY_LOCK :: "build \<Rightarrow> bool \<Rightarrow> bool" where
  "DESTROY_LOCK b held =
     (case lock_kind_of b of
        Pthreads \<Rightarrow> False
      | Critical_section \<Rightarrow> False
      | OSAtomic_locks \<Rightarrow> held
      | No_locks \<Rightarrow> held)"

section \<open>CPU capabilities\<close>

definition OTTERY_CPUCAP_SIMD :: u32 where "OTTERY_CPUCAP_SIMD = push_bit 0 1"
definition OTTERY_CPUCAP_SSSE3 :: u32 where "OTTERY_CPUCAP_SSSE3 = push_bit 1 1"
definition OTTERY_CPUCAP_AES :: u32 where "OTTERY_CPUCAP_AES = push_bit 2 1"
definition OTTERY_CPUCAP_RAND :: u32 where "OTTERY_CPUCAP_RAND = push_bit 3 1"

lemmas cpucap_defs = OTTERY_CPUCAP_SIMD_def OTTERY_CPUCAP_SSSE3_def OTTERY_CPUCAP_AES_def
  OTTERY_CPUCAP_RAND_def

text \<open>The architecture, from the macros that the compiler predefines.\<close>

definition X86 :: "build \<Rightarrow> bool" where
  "X86 b =
     (if \<exists>m \<in> set [''i386'', ''__i386'', ''__M_IX86'', ''_M_IX86'']. m \<in> set (predefined b) then True
      else if \<exists>m \<in> set [''__x86_64'', ''_M_AMD64'']. m \<in> set (predefined b) then True
      else False)"

definition ottery_disable_cpu_capabilities :: "u32 \<Rightarrow> u32 \<Rightarrow> u32" where
  "ottery_disable_cpu_capabilities disabled disable = disabled OR disable"

text \<open>\<^verbatim>\<open>cpuid\<close> stores the registers in the order \<^verbatim>\<open>eax, ebx, ecx, edx\<close>.\<close>

definition cpuid :: "'w os \<Rightarrow> u32 \<Rightarrow> u32 list" where
  "cpuid os index = (case os_cpuid os index of (eax, ebx, ecx, edx) \<Rightarrow> [eax, ebx, ecx, edx])"

definition ottery_get_cpu_capabilities :: "build \<Rightarrow> 'w os \<Rightarrow> u32 \<Rightarrow> u32" where
  "ottery_get_cpu_capabilities b os disabled =
     (let cap =
        (if X86 b
         then
          (let cap = 0;
               res = cpuid os 1;
               cap = (if res ! 3 AND push_bit 26 1 \<noteq> 0 then cap OR OTTERY_CPUCAP_SIMD else cap);
               cap = (if res ! 2 AND push_bit 9 1 \<noteq> 0 then cap OR OTTERY_CPUCAP_SSSE3 else cap);
               cap = (if res ! 2 AND push_bit 25 1 \<noteq> 0 then cap OR OTTERY_CPUCAP_AES else cap);
               cap = (if res ! 2 AND push_bit 30 1 \<noteq> 0 then cap OR OTTERY_CPUCAP_RAND else cap)
           in cap)
         else OTTERY_CPUCAP_SIMD)
      in cap AND NOT disabled)"

lemma and_push_bit_1: "a AND push_bit n 1 = 0 \<longleftrightarrow> \<not> bit (a :: 'a::len word) n"
  by (simp add: push_bit_eq_mult and_exp_eq_0_iff_not_bit)

lemma capability_disabled:
  "ottery_get_cpu_capabilities b os (ottery_disable_cpu_capabilities d m) AND m = 0"
  by (rule bit_word_eqI)
     (auto simp: ottery_get_cpu_capabilities_def ottery_disable_cpu_capabilities_def Let_def
       bit_simps split: prod.split)

end
