(* ===== verification/Chacha_Merged.thy ===== *)
theory Chacha_Merged
  imports Chacha_Core
begin

text \<open>
  The portable ChaCha implementation: \<^verbatim>\<open>src/chacha_merged.c\<close> and the macros of
  \<^verbatim>\<open>src/chacha_merged_ecrypt.h\<close>. The sixteen local variables \<^verbatim>\<open>x0..x15\<close> (and
  \<^verbatim>\<open>j0..j15\<close>) of the C code are a list of sixteen words, a macro argument is the index
  of its variable, and an assignment is a list update, in the order of the C statements.
  \<^verbatim>\<open>ECRYPT_ctx\<close> is a record; the casts between the untyped state memory of a
  \<^verbatim>\<open>struct ottery_state\<close> and an \<^verbatim>\<open>ECRYPT_ctx *\<close> are \<open>ctx_of_mem\<close> and \<open>ctx_to_mem\<close>, for a
  little-endian machine. The endianness tests at the end of the header come after their
  use, so the byte-wise versions of the load and store macros are the ones compiled.

  Main result: one \<^verbatim>\<open>generate\<close> call writes the 16 ChaCha blocks that start at counter
  \<open>16 * idx\<close> for the key set up last, and keeps that key.
\<close>

section \<open>Macros of chacha\_merged\_ecrypt.h and chacha\_merged.c\<close>

record ECRYPT_ctx =
  input :: "u32 list"

definition U32V :: "u32 \<Rightarrow> u32" where
  "U32V v = v AND 0xFFFFFFFF"

definition U8V :: "u32 \<Rightarrow> u8" where
  "U8V v = ucast v AND 0xFF"

definition ROTL32 :: "u32 \<Rightarrow> nat \<Rightarrow> u32" where
  "ROTL32 v n = U32V (push_bit n v) OR drop_bit (32 - n) v"

definition U8TO32_LITTLE :: "bytes \<Rightarrow> nat \<Rightarrow> u32" where
  "U8TO32_LITTLE p i =
     ucast (p ! i) OR push_bit 8 (ucast (p ! (i + 1)))
     OR push_bit 16 (ucast (p ! (i + 2))) OR push_bit 24 (ucast (p ! (i + 3)))"

definition U32TO8_LITTLE :: "bytes \<Rightarrow> nat \<Rightarrow> u32 \<Rightarrow> bytes" where
  "U32TO8_LITTLE p i v =
     p[i := U8V v, i + 1 := U8V (drop_bit 8 v), i + 2 := U8V (drop_bit 16 v),
       i + 3 := U8V (drop_bit 24 v)]"

definition PLUS :: "u32 \<Rightarrow> u32 \<Rightarrow> u32" where
  "PLUS v w = U32V (v + w)"

definition PLUSONE :: "u32 \<Rightarrow> u32" where
  "PLUSONE v = PLUS v 1"

definition QUARTERROUND :: "nat \<Rightarrow> nat \<Rightarrow> nat \<Rightarrow> nat \<Rightarrow> u32 list \<Rightarrow> u32 list" where
  "QUARTERROUND a b c d x =
     (let x = x[a := PLUS (x ! a) (x ! b)]; x = x[d := ROTL32 (x ! d XOR x ! a) 16];
          x = x[c := PLUS (x ! c) (x ! d)]; x = x[b := ROTL32 (x ! b XOR x ! c) 12];
          x = x[a := PLUS (x ! a) (x ! b)]; x = x[d := ROTL32 (x ! d XOR x ! a) 8];
          x = x[c := PLUS (x ! c) (x ! d)]; x = x[b := ROTL32 (x ! b XOR x ! c) 7]
      in x)"

section \<open>Key and nonce setup\<close>

definition sigma :: bytes where
  "sigma = map of_char ''expand 32-byte k''"

definition ECRYPT_keysetup :: "ECRYPT_ctx \<Rightarrow> bytes \<Rightarrow> u32 \<Rightarrow> ECRYPT_ctx" where
  "ECRYPT_keysetup x k ivbits =
     (let x = x\<lparr>input := (input x)[4 := U8TO32_LITTLE k 0, 5 := U8TO32_LITTLE k 4,
                6 := U8TO32_LITTLE k 8, 7 := U8TO32_LITTLE k 12]\<rparr>;
          k = drop 16 k;
          constants = sigma
      in x\<lparr>input := (input x)[8 := U8TO32_LITTLE k 0, 9 := U8TO32_LITTLE k 4,
             10 := U8TO32_LITTLE k 8, 11 := U8TO32_LITTLE k 12,
             0 := U8TO32_LITTLE constants 0, 1 := U8TO32_LITTLE constants 4,
             2 := U8TO32_LITTLE constants 8, 3 := U8TO32_LITTLE constants 12]\<rparr>)"

definition ECRYPT_ivsetup :: "ECRYPT_ctx \<Rightarrow> bytes \<Rightarrow> ECRYPT_ctx" where
  "ECRYPT_ivsetup x iv =
     x\<lparr>input := (input x)[12 := 0, 13 := 0,
        14 := U8TO32_LITTLE iv 0, 15 := U8TO32_LITTLE iv 4]\<rparr>"

section \<open>Block generation\<close>

definition IDX_STEP :: nat where
  "IDX_STEP = 16"

definition OUTPUT_LEN :: nat where
  "OUTPUT_LEN = IDX_STEP * 64"

text \<open>
  The loop over rounds: \<^verbatim>\<open>for (i = chacha_rounds; i > 0; i -= 2)\<close>. The callers pass 8, 12
  and 20, for which the unsigned subtraction does not wrap.
\<close>

definition merged_double_round :: "u32 list \<Rightarrow> u32 list" where
  "merged_double_round x =
     (let x = QUARTERROUND 0 4 8 12 x;
          x = QUARTERROUND 1 5 9 13 x;
          x = QUARTERROUND 2 6 10 14 x;
          x = QUARTERROUND 3 7 11 15 x;
          x = QUARTERROUND 0 5 10 15 x;
          x = QUARTERROUND 1 6 11 12 x;
          x = QUARTERROUND 2 7 8 13 x;
          x = QUARTERROUND 3 4 9 14 x
      in x)"

fun merged_rounds :: "nat \<Rightarrow> u32 list \<Rightarrow> u32 list" where
  "merged_rounds i x = (if i > 0 then merged_rounds (i - 2) (merged_double_round x) else x)"

declare merged_rounds.simps [simp del]

definition store_block :: "bytes \<Rightarrow> nat \<Rightarrow> u32 list \<Rightarrow> bytes" where
  "store_block c off x = fold (\<lambda>i c. U32TO8_LITTLE c (off + 4 * i) (x ! i)) [0..<16] c"

function getblocks_loop :: "nat \<Rightarrow> nat \<Rightarrow> u32 list \<Rightarrow> bytes \<Rightarrow> bytes" where
  "getblocks_loop chacha_rounds block j c =
     (if block < IDX_STEP
      then (let x = merged_rounds chacha_rounds j;
                x = map2 PLUS x j;
                j = j[12 := PLUSONE (j ! 12)]
            in getblocks_loop chacha_rounds (block + 1) j (store_block c (64 * block) x))
      else c)"
  by pat_completeness auto
termination
  by (relation "measure (\<lambda>(r, block, j, c). IDX_STEP - block)") auto

declare getblocks_loop.simps [simp del]

definition chacha_merged_getblocks :: "nat \<Rightarrow> ECRYPT_ctx \<Rightarrow> bytes \<Rightarrow> bytes" where
  "chacha_merged_getblocks chacha_rounds x c =
     getblocks_loop chacha_rounds 0 (map (\<lambda>i. input x ! i) [0..<16]) c"

section \<open>The PRF entry points\<close>

definition STATE_LEN :: nat where
  "STATE_LEN = 64"

definition STATE_BYTES :: nat where
  "STATE_BYTES = 40"

definition ctx_of_mem :: "bytes \<Rightarrow> ECRYPT_ctx" where
  "ctx_of_mem m = \<lparr>input = bytes_words 16 m\<rparr>"

definition ctx_to_mem :: "ECRYPT_ctx \<Rightarrow> bytes \<Rightarrow> bytes" where
  "ctx_to_mem x m = mem_write m 0 (words_bytes (input x))"

definition chacha_merged_state_setup :: "bytes \<Rightarrow> bytes \<Rightarrow> bytes" where
  "chacha_merged_state_setup stm bs =
     (let x = ctx_of_mem stm;
          x = ECRYPT_keysetup x bs 0;
          x = ECRYPT_ivsetup x (drop 32 bs)
      in ctx_to_mem x stm)"

definition merged_generate :: "nat \<Rightarrow> bytes \<Rightarrow> bytes \<Rightarrow> u32 \<Rightarrow> bytes \<times> bytes" where
  "merged_generate chacha_rounds stm output idx =
     (let x = ctx_of_mem stm;
          x = x\<lparr>input := (input x)[12 := idx * of_nat IDX_STEP]\<rparr>
      in (ctx_to_mem x stm, chacha_merged_getblocks chacha_rounds x output))"

definition chacha8_merged_generate :: "bytes \<Rightarrow> bytes \<Rightarrow> u32 \<Rightarrow> bytes \<times> bytes" where
  "chacha8_merged_generate stm output idx = merged_generate 8 stm output idx"

definition chacha12_merged_generate :: "bytes \<Rightarrow> bytes \<Rightarrow> u32 \<Rightarrow> bytes \<times> bytes" where
  "chacha12_merged_generate stm output idx = merged_generate 12 stm output idx"

definition chacha20_merged_generate :: "bytes \<Rightarrow> bytes \<Rightarrow> u32 \<Rightarrow> bytes \<times> bytes" where
  "chacha20_merged_generate stm output idx = merged_generate 20 stm output idx"

section \<open>The macros compute the reference operations\<close>

lemma U32V_id [simp]: "U32V v = v"
proof -
  have "(0xFFFFFFFF :: u32) = - 1" by simp
  then show ?thesis unfolding U32V_def by (simp only: and.right_neutral)
qed

lemma U8V_ucast [simp]: "U8V v = ucast v"
proof -
  have "(0xFF :: u8) = - 1" by simp
  then show ?thesis unfolding U8V_def by (simp only: and.right_neutral)
qed

lemma PLUS_add [simp]: "PLUS v w = v + w"
  by (simp add: PLUS_def)

lemma ROTL32_word_rotl: "n < 32 \<Longrightarrow> ROTL32 v n = word_rotl n v"
  by (simp add: ROTL32_def rotl_or)

lemma U8TO32_LITTLE_load32: "U8TO32_LITTLE p i = load32 p i"
  by (simp add: U8TO32_LITTLE_def load32_def)

lemma U32TO8_LITTLE_mem_write:
  assumes "i + 4 \<le> length p"
  shows "U32TO8_LITTLE p i v = mem_write p i (le32 v)"
  using assms
  by (intro nth_equalityI)
     (auto simp: U32TO8_LITTLE_def le32_def mem_write_nth nth_list_update nth_Cons')

lemma QUARTERROUND_inplace: "QUARTERROUND a b c d x = inplace_quarter a b c d x"
  by (simp only: QUARTERROUND_def inplace_quarter_def ROTL32_word_rotl PLUS_add rel_simps)

lemmas QUARTERROUND_quarter_at = inplace_quarter_at [folded QUARTERROUND_inplace]

lemma merged_double_round_eq:
  assumes "length x = 16"
  shows "merged_double_round x = double_round x"
  using assms
  by (simp add: merged_double_round_def double_round_def double_round_schedule_def
      QUARTERROUND_quarter_at Let_def)

lemma merged_rounds_eq:
  assumes "even r" "length x = 16"
  shows "merged_rounds r x = (double_round ^^ (r div 2)) x"
  using assms
proof (induction r x rule: merged_rounds.induct)
  case (1 i x)
  show ?case
  proof (cases "i > 0")
    case True
    with \<open>even i\<close> obtain k where k: "i = Suc (Suc k)" "even k"
      by (metis dvd_imp_le even_Suc gr0_implies_Suc not0_implies_Suc odd_one One_nat_def)
    then have "merged_rounds i x = (double_round ^^ (k div 2)) (double_round x)"
      using 1 by (subst merged_rounds.simps) (simp add: merged_double_round_eq)
    with k show ?thesis by (simp add: funpow_swap1)
  qed (simp add: merged_rounds.simps)
qed

lemma store_words:
  assumes "off + 4 * n \<le> length c" "n \<le> length x"
  shows "fold (\<lambda>i c. U32TO8_LITTLE c (off + 4 * i) (x ! i)) [0..<n] c
           = mem_write c off (words_bytes (take n x))"
  using assms
proof (induction n)
  case 0
  then show ?case by simp
next
  case (Suc n)
  let ?w = "words_bytes (take n x)"
  have len: "length ?w = 4 * n" using Suc.prems by simp
  have "fold (\<lambda>i c. U32TO8_LITTLE c (off + 4 * i) (x ! i)) [0..<Suc n] c
          = U32TO8_LITTLE (mem_write c off ?w) (off + 4 * n) (x ! n)"
    using Suc by simp
  also have "\<dots> = mem_write (mem_write c off ?w) (off + length ?w) (le32 (x ! n))"
    using Suc.prems by (simp add: U32TO8_LITTLE_mem_write len)
  also have "\<dots> = mem_write c off (?w @ le32 (x ! n))"
    using Suc.prems len by (subst mem_write_append) simp_all
  also have "?w @ le32 (x ! n) = words_bytes (take (Suc n) x)"
    using Suc.prems by (simp add: take_Suc_conv_app_nth words_bytes_append)
  finally show ?case .
qed

lemma store_block_eq:
  assumes "off + 64 \<le> length c" "length x = 16"
  shows "store_block c off x = mem_write c off (words_bytes x)"
  using assms store_words [of off 16 c x] by (simp add: store_block_def)

section \<open>Generation refines the reference stream\<close>

lemma map2_PLUS: "map2 PLUS x y = map2 (+) x y"
  by (rule map_cong) auto

lemma getblocks_loop_stream:
  assumes "block + n = IDX_STEP" "even r" "OUTPUT_LEN \<le> length c"
  shows "getblocks_loop r block (chacha_input key ctr) c
           = mem_write c (64 * block) (chacha_stream r n key ctr)"
  using assms
proof (induction n arbitrary: block ctr c)
  case 0
  then show ?case by (simp add: getblocks_loop.simps)
next
  case (Suc n)
  let ?p = "chacha_prf r key ctr" and ?c = "mem_write c (64 * block)"
  have b: "block < IDX_STEP" "64 * block + 64 \<le> length c" "block + 1 + n = IDX_STEP"
    using Suc.prems by (simp_all add: OUTPUT_LEN_def IDX_STEP_def)
  have x: "map2 PLUS (merged_rounds r (chacha_input key ctr)) (chacha_input key ctr)
             = chacha_words r (chacha_input key ctr)"
    using Suc.prems by (simp add: map2_PLUS merged_rounds_eq chacha_words_def)
  have "getblocks_loop r block (chacha_input key ctr) c
          = getblocks_loop r (block + 1) (chacha_input key (ctr + 1)) (?c ?p)"
    using b by (simp add: getblocks_loop.simps [of r block] x PLUSONE_def chacha_input_ctr
        store_block_eq chacha_prf_def)
  also have "\<dots> = mem_write (?c ?p) (64 * (block + 1)) (chacha_stream r n key (ctr + 1))"
    using Suc.prems b by (intro Suc.IH) simp_all
  also have "\<dots> = ?c (?p @ chacha_stream r n key (ctr + 1))"
    using mem_write_append [of "64 * block" ?p "chacha_stream r n key (ctr + 1)" c] Suc.prems
    by (simp add: OUTPUT_LEN_def IDX_STEP_def add.commute)
  finally show ?case by (simp add: chacha_stream_Cons)
qed

lemma map_nth_16: "length x = 16 \<Longrightarrow> map (\<lambda>i. x ! i) [0..<16] = x"
  using map_nth [of x] by simp

lemma chacha_merged_getblocks_stream:
  assumes "even r" "OUTPUT_LEN \<le> length c" "input x = chacha_input key ctr"
  shows "chacha_merged_getblocks r x c = mem_write c 0 (chacha_stream r IDX_STEP key ctr)"
  using assms getblocks_loop_stream [of 0 IDX_STEP r c key ctr]
  by (simp add: chacha_merged_getblocks_def map_nth_16)

text \<open>
  The relation between the state memory and the 40-byte key it holds: the first 64 bytes
  are the ChaCha input for that key, with whatever counter the last \<^verbatim>\<open>generate\<close> stored.
\<close>

definition merged_keyed :: "bytes \<Rightarrow> bytes \<Rightarrow> bool" where
  "merged_keyed m key \<longleftrightarrow>
     STATE_LEN \<le> length m \<and> length key = STATE_BYTES \<and>
     (\<exists>ctr. take STATE_LEN m = words_bytes (chacha_input key ctr))"

lemma ctx_of_mem_words:
  assumes "length ws = 16" "take STATE_LEN m = words_bytes ws"
  shows "ctx_of_mem m = \<lparr>input = ws\<rparr>"
proof -
  have "m = words_bytes ws @ drop STATE_LEN m"
    using assms(2) append_take_drop_id [of STATE_LEN m] by simp
  then have "bytes_words (length ws) m = ws"
    using bytes_words_words_bytes by metis
  then show ?thesis
    using assms(1) by (simp add: ctx_of_mem_def)
qed

lemma merged_keyed_ctx_to_mem:
  assumes "STATE_LEN \<le> length m" "length key = STATE_BYTES"
  shows "merged_keyed (ctx_to_mem \<lparr>input = chacha_input key ctr\<rparr> m) key"
  using assms by (auto simp: merged_keyed_def ctx_to_mem_def mem_write_def STATE_LEN_def)

lemma merged_setup_input:
  assumes "length (input x) = 16" "STATE_BYTES \<le> length bs"
  shows "input (ECRYPT_ivsetup (ECRYPT_keysetup x bs 0) (drop 32 bs))
           = chacha_input (take STATE_BYTES bs) 0"
proof -
  have sigma: "load32 sigma 0 = 0x61707865" "load32 sigma 4 = 0x3320646E"
    "load32 sigma 8 = 0x79622D32" "load32 sigma 12 = 0x6B206574"
    by code_simp+
  have upt: "[0..<8] = [0, 1, 2, 3, 4, 5, 6, 7 :: nat]" "[0..<2] = [0, 1 :: nat]"
    by (simp_all add: upt_rec)
  show ?thesis
    using assms
    by (auto elim!: list16_cases simp: ECRYPT_ivsetup_def ECRYPT_keysetup_def Let_def
        U8TO32_LITTLE_load32 sigma chacha_input_def chacha_constants_def bytes_words_def upt
        load32_take load32_drop drop_take STATE_BYTES_def)
qed

lemma merged_setup_eq:
  assumes "STATE_LEN \<le> length m" "STATE_BYTES \<le> length bs"
  shows "chacha_merged_state_setup m bs = ctx_to_mem \<lparr>input = chacha_input (take STATE_BYTES bs) 0\<rparr> m"
proof -
  let ?x = "ECRYPT_ivsetup (ECRYPT_keysetup (ctx_of_mem m) bs 0) (drop 32 bs)"
  have "input ?x = chacha_input (take STATE_BYTES bs) 0"
    using assms by (intro merged_setup_input) (simp_all add: ctx_of_mem_def)
  then have "?x = \<lparr>input = chacha_input (take STATE_BYTES bs) 0\<rparr>"
    by (cases ?x) simp
  then show ?thesis by (simp add: chacha_merged_state_setup_def)
qed

lemma merged_setup_keyed:
  assumes "STATE_LEN \<le> length m" "STATE_BYTES \<le> length bs"
  shows "merged_keyed (chacha_merged_state_setup m bs) (take STATE_BYTES bs)"
  using assms merged_keyed_ctx_to_mem by (simp add: merged_setup_eq)

lemma merged_generate_stream:
  assumes "even r" "merged_keyed m key" "OUTPUT_LEN \<le> length out"
  shows "snd (merged_generate r m out idx)
           = mem_write out 0 (chacha_stream r IDX_STEP key (idx * of_nat IDX_STEP))"
    and "merged_keyed (fst (merged_generate r m out idx)) key"
proof -
  obtain ctr where ctr: "take STATE_LEN m = words_bytes (chacha_input key ctr)"
    using assms(2) by (auto simp: merged_keyed_def)
  then have x: "ctx_of_mem m = \<lparr>input = chacha_input key ctr\<rparr>"
    by (intro ctx_of_mem_words) simp_all
  show "snd (merged_generate r m out idx)
          = mem_write out 0 (chacha_stream r IDX_STEP key (idx * of_nat IDX_STEP))"
    using assms by (simp add: merged_generate_def x chacha_input_ctr
        chacha_merged_getblocks_stream)
  show "merged_keyed (fst (merged_generate r m out idx)) key"
    using assms(2) by (simp add: merged_generate_def x chacha_input_ctr Let_def
        merged_keyed_ctx_to_mem merged_keyed_def [of m])
qed

lemma length_merged [simp]:
  "length (chacha_merged_state_setup m bs) = length m"
  "length (fst (merged_generate r m out idx)) = length m"
  by (simp_all add: chacha_merged_state_setup_def merged_generate_def ctx_to_mem_def Let_def)

section \<open>Properties\<close>

text \<open>
  C4: The portable PRF is ChaCha. After \<^verbatim>\<open>setup\<close> with at least 40 bytes of key material, each
  \<^verbatim>\<open>generate\<close> fills the 1024 bytes of output with the sixteen ChaCha blocks (of 8, 12 or 20
  rounds) for the first 40 bytes as key and the counters \<open>16 * idx\<close>, \<open>16 * idx + 1\<close>, and so on,
  and it leaves the rest of the output buffer alone.
\<close>

theorem merged_prf_is_chacha:
  assumes "STATE_LEN \<le> length m" "STATE_BYTES \<le> length bs" "OUTPUT_LEN \<le> length out"
  shows "snd (chacha8_merged_generate (chacha_merged_state_setup m bs) out idx) =
      mem_write out 0 (chacha_stream 8 16 (take 40 bs) (idx * 16)) \<and>
    snd (chacha12_merged_generate (chacha_merged_state_setup m bs) out idx) =
      mem_write out 0 (chacha_stream 12 16 (take 40 bs) (idx * 16)) \<and>
    snd (chacha20_merged_generate (chacha_merged_state_setup m bs) out idx) =
      mem_write out 0 (chacha_stream 20 16 (take 40 bs) (idx * 16))"
  using merged_generate_stream [OF _ merged_setup_keyed [OF assms(1,2)] assms(3)]
  by (simp add: chacha8_merged_generate_def chacha12_merged_generate_def
      chacha20_merged_generate_def IDX_STEP_def STATE_BYTES_def)

theorem merged_prf_is_chacha_witness:
  "snd (chacha20_merged_generate (chacha_merged_state_setup (replicate 256 0) (replicate 64 7))
      (replicate 1024 0) 3) =
    mem_write (replicate 1024 0) 0 (chacha_stream 20 16 (replicate 40 7) 48)"
  using merged_prf_is_chacha [of "replicate 256 0" "replicate 64 7" "replicate 1024 0" 3]
  by (simp add: STATE_LEN_def STATE_BYTES_def OUTPUT_LEN_def IDX_STEP_def)

end
