(* ===== verification/Ottery_Prf.thy ===== *)
theory Ottery_Prf
  imports Ottery_Platform Chacha_Merged
begin

text \<open>
  \<^verbatim>\<open>struct ottery_prf\<close> of \<^verbatim>\<open>src/ottery-internal.h\<close>, the PRF tables of the two ChaCha
  files, and the choice of an implementation by name and CPU capability
  (\<^verbatim>\<open>ottery_get_impl\<close> of \<^verbatim>\<open>src/ottery.c\<close>).

  The contract between a PRF and the generator that uses it is the locale \<open>prf_contract\<close>: a
  PRF keeps a key in its state memory and computes a function of key and block index. It is
  interpreted on the portable and on the vectorised ChaCha, for every round count and build.
\<close>

section \<open>The PRF structure\<close>

record ottery_prf =
  prf_name :: string
  prf_impl :: string
  prf_flav :: string
  state_len :: nat
  state_bytes :: nat
  output_len :: nat
  required_cpucap :: u32
  setup_fn :: "bytes \<Rightarrow> bytes \<Rightarrow> bytes"
  generate_fn :: "bytes \<Rightarrow> bytes \<Rightarrow> u32 \<Rightarrow> bytes \<times> bytes"

section \<open>The PRF tables\<close>

definition PRF_CHACHA_merged ::
    "string \<Rightarrow> (bytes \<Rightarrow> bytes \<Rightarrow> u32 \<Rightarrow> bytes \<times> bytes) \<Rightarrow> ottery_prf" where
  "PRF_CHACHA_merged r gen =
     \<lparr>prf_name = ''CHACHA'' @ r,
      prf_impl = ''CHACHA'' @ r @ ''-NOSIMD'',
      prf_flav = ''CHACHA'' @ r @ ''-NOSIMD-DEFAULT'',
      state_len = STATE_LEN,
      state_bytes = STATE_BYTES,
      output_len = OUTPUT_LEN,
      required_cpucap = 0,
      setup_fn = chacha_merged_state_setup,
      generate_fn = gen\<rparr>"

definition ottery_prf_chacha8_merged :: ottery_prf where
  "ottery_prf_chacha8_merged = PRF_CHACHA_merged ''8'' chacha8_merged_generate"

definition ottery_prf_chacha12_merged :: ottery_prf where
  "ottery_prf_chacha12_merged = PRF_CHACHA_merged ''12'' chacha12_merged_generate"

definition ottery_prf_chacha20_merged :: ottery_prf where
  "ottery_prf_chacha20_merged = PRF_CHACHA_merged ''20'' chacha20_merged_generate"

definition NEED_CPUCAP :: "simd_target \<Rightarrow> u32" where
  "NEED_CPUCAP t =
     (if arch t = Ssse3 then OTTERY_CPUCAP_SSSE3 OR OTTERY_CPUCAP_SIMD else OTTERY_CPUCAP_SIMD)"

definition FLAV :: "simd_target \<Rightarrow> string" where
  "FLAV t = (if arch t = Ssse3 then ''-SSSE3'' else ''-DEFAULT'')"

definition PRF_CHACHA_krovetz ::
    "simd_target \<Rightarrow> string \<Rightarrow> (bytes \<Rightarrow> bytes \<Rightarrow> u32 \<Rightarrow> bytes \<times> bytes) \<Rightarrow> ottery_prf" where
  "PRF_CHACHA_krovetz t r gen =
     \<lparr>prf_name = ''CHACHA'' @ r,
      prf_impl = ''CHACHA'' @ r @ ''-SIMD'',
      prf_flav = ''CHACHA'' @ r @ ''-SIMD'' @ FLAV t,
      state_len = KROVETZ_STATE_LEN,
      state_bytes = KROVETZ_STATE_BYTES,
      output_len = KROVETZ_OUTPUT_LEN t,
      required_cpucap = NEED_CPUCAP t,
      setup_fn = chacha_krovetz_state_setup,
      generate_fn = gen\<rparr>"

definition ottery_prf_chacha8_krovetz :: "simd_target \<Rightarrow> ottery_prf" where
  "ottery_prf_chacha8_krovetz t = PRF_CHACHA_krovetz t ''8'' (chacha8_krovetz_generate t)"

definition ottery_prf_chacha12_krovetz :: "simd_target \<Rightarrow> ottery_prf" where
  "ottery_prf_chacha12_krovetz t = PRF_CHACHA_krovetz t ''12'' (chacha12_krovetz_generate t)"

definition ottery_prf_chacha20_krovetz :: "simd_target \<Rightarrow> ottery_prf" where
  "ottery_prf_chacha20_krovetz t = PRF_CHACHA_krovetz t ''20'' (chacha20_krovetz_generate t)"

section \<open>Choosing an implementation\<close>

definition ALL_PRFS :: "build \<Rightarrow> ottery_prf list" where
  "ALL_PRFS b =
     (case simd2 b of None \<Rightarrow> []
      | Some t \<Rightarrow> [ottery_prf_chacha20_krovetz t, ottery_prf_chacha12_krovetz t,
                   ottery_prf_chacha8_krovetz t])
     @ (case simd1 b of None \<Rightarrow> []
        | Some t \<Rightarrow> [ottery_prf_chacha20_krovetz t, ottery_prf_chacha12_krovetz t,
                     ottery_prf_chacha8_krovetz t])
     @ [ottery_prf_chacha20_merged, ottery_prf_chacha12_merged, ottery_prf_chacha8_merged]"

fun find_impl :: "u32 \<Rightarrow> string option \<Rightarrow> ottery_prf list \<Rightarrow> ottery_prf option" where
  "find_impl cap impl [] = None"
| "find_impl cap impl (p # ps) =
     (if required_cpucap p AND cap \<noteq> required_cpucap p then find_impl cap impl ps
      else case impl of
        None \<Rightarrow> Some p
      | Some s \<Rightarrow>
          if s = prf_name p then Some p
          else if s = prf_impl p then Some p
          else if s = prf_flav p then Some p
          else find_impl cap impl ps)"

definition ottery_get_impl ::
    "build \<Rightarrow> 'w os \<Rightarrow> u32 \<Rightarrow> string option \<Rightarrow> ottery_prf option" where
  "ottery_get_impl b os disabled impl =
     find_impl (ottery_get_cpu_capabilities b os disabled) impl (ALL_PRFS b)"

lemma find_impl_SomeD:
  assumes "find_impl cap impl ps = Some p"
  shows "p \<in> set ps" "required_cpucap p AND cap = required_cpucap p"
    "impl = Some s \<Longrightarrow> s \<in> {prf_name p, prf_impl p, prf_flav p}"
  using assms by (induction ps) (auto split: if_splits option.splits)

lemma find_impl_None_iff:
  "find_impl cap impl ps = None \<longleftrightarrow>
     (\<forall>p \<in> set ps. required_cpucap p AND cap = required_cpucap p \<longrightarrow>
        (\<exists>s. impl = Some s \<and> s \<notin> {prf_name p, prf_impl p, prf_flav p}))"
  by (induction ps) (auto split: option.splits)

lemma merged_needs_no_cap [simp]: "required_cpucap (PRF_CHACHA_merged r g) = 0"
  by (simp add: PRF_CHACHA_merged_def)

lemmas prf_table_defs = ottery_prf_chacha8_merged_def ottery_prf_chacha12_merged_def
  ottery_prf_chacha20_merged_def ottery_prf_chacha8_krovetz_def ottery_prf_chacha12_krovetz_def
  ottery_prf_chacha20_krovetz_def

section \<open>The contract of a PRF\<close>

text \<open>
  \<open>F key idx\<close> is the output block for a key and a block index, and \<open>keyed m key\<close> says that the
  state memory \<open>m\<close> holds that key. The generator relies on: the limits that
  \<^verbatim>\<open>ottery_st_initialize\<close> checks; setup stores the first \<^verbatim>\<open>state_bytes\<close> bytes as the key;
  generate writes \<open>F key idx\<close> to the front of the output and keeps the key. The last three size
  assumptions are what the request loops need beyond the checked limits.
\<close>

locale prf_contract =
  fixes p :: ottery_prf
    and F :: "bytes \<Rightarrow> u32 \<Rightarrow> bytes"
    and keyed :: "bytes \<Rightarrow> bytes \<Rightarrow> bool"
  assumes state_len_max: "state_len p \<le> MAX_STATE_LEN"
    and state_bytes_max: "state_bytes p \<le> MAX_STATE_BYTES"
    and output_len_max: "output_len p \<le> MAX_OUTPUT_LEN"
    and state_bytes_min: "2 \<le> state_bytes p"
    and output_len_min: "2 * state_bytes p \<le> output_len p"
    and int_fits: "state_bytes p + 8 < output_len p"
    and length_F: "length (F k i) = output_len p"
    and setup_keyed: "\<lbrakk>length m = MAX_STATE_LEN; state_bytes p \<le> length bs\<rbrakk>
      \<Longrightarrow> keyed (setup_fn p m bs) (take (state_bytes p) bs)"
    and length_setup: "length (setup_fn p m bs) = length m"
    and generate_out: "\<lbrakk>length m = MAX_STATE_LEN; keyed m k; output_len p \<le> length out\<rbrakk>
      \<Longrightarrow> snd (generate_fn p m out i) = mem_write out 0 (F k i)"
    and generate_keyed: "\<lbrakk>length m = MAX_STATE_LEN; keyed m k; output_len p \<le> length out\<rbrakk>
      \<Longrightarrow> keyed (fst (generate_fn p m out i)) k"
    and length_generate: "length (fst (generate_fn p m out i)) = length m"

definition merged_F :: "nat \<Rightarrow> bytes \<Rightarrow> u32 \<Rightarrow> bytes" where
  "merged_F r key idx = chacha_stream r IDX_STEP key (idx * of_nat IDX_STEP)"

definition krovetz_F :: "simd_target \<Rightarrow> nat \<Rightarrow> bytes \<Rightarrow> u32 \<Rightarrow> bytes" where
  "krovetz_F t r key idx =
     chacha_stream r (KROVETZ_IDX_STEP t) key (idx * of_nat (KROVETZ_IDX_STEP t))"

lemma prf_contract_merged:
  assumes "even r"
  shows "prf_contract (PRF_CHACHA_merged s (merged_generate r)) (merged_F r) merged_keyed"
  using assms
  by unfold_locales
     (simp_all add: PRF_CHACHA_merged_def merged_F_def merged_generate_stream merged_setup_keyed
       max_defs STATE_LEN_def STATE_BYTES_def OUTPUT_LEN_def IDX_STEP_def
       merged_setup_keyed [unfolded STATE_LEN_def STATE_BYTES_def]
       merged_generate_stream [unfolded IDX_STEP_def OUTPUT_LEN_def])

lemma krovetz_sizes:
  "KROVETZ_IDX_STEP t = 12 \<or> KROVETZ_IDX_STEP t = 16"
  by (auto simp: KROVETZ_IDX_STEP_def BPI_def VBPI_def GPR_TOO_def LOOP_ITERATIONS_def)

lemma prf_contract_krovetz:
  assumes "even r"
  shows "prf_contract (PRF_CHACHA_krovetz t s (krovetz_generate t r)) (krovetz_F t r) krovetz_keyed"
proof -
  note defs = PRF_CHACHA_krovetz_def krovetz_F_def max_defs KROVETZ_STATE_LEN_def
    KROVETZ_STATE_BYTES_def KROVETZ_OUTPUT_LEN_def
  show ?thesis
    using assms krovetz_sizes [of t]
    by unfold_locales
       (auto simp: defs
         krovetz_setup_keyed [unfolded KROVETZ_STATE_LEN_def KROVETZ_STATE_BYTES_def]
         krovetz_generate_stream [unfolded KROVETZ_OUTPUT_LEN_def])
qed

interpretation merged8: prf_contract ottery_prf_chacha8_merged "merged_F 8" merged_keyed
  using prf_contract_merged [of 8] by (simp add: prf_table_defs chacha8_merged_generate_def [abs_def])

interpretation merged12: prf_contract ottery_prf_chacha12_merged "merged_F 12" merged_keyed
  using prf_contract_merged [of 12] by (simp add: prf_table_defs chacha12_merged_generate_def [abs_def])

interpretation merged20: prf_contract ottery_prf_chacha20_merged "merged_F 20" merged_keyed
  using prf_contract_merged [of 20] by (simp add: prf_table_defs chacha20_merged_generate_def [abs_def])

interpretation krovetz8: prf_contract "ottery_prf_chacha8_krovetz t" "krovetz_F t 8" krovetz_keyed
  for t
  using prf_contract_krovetz [of 8] by (simp add: prf_table_defs chacha8_krovetz_generate_def [abs_def])

interpretation krovetz12: prf_contract "ottery_prf_chacha12_krovetz t" "krovetz_F t 12" krovetz_keyed
  for t
  using prf_contract_krovetz [of 12] by (simp add: prf_table_defs chacha12_krovetz_generate_def [abs_def])

interpretation krovetz20: prf_contract "ottery_prf_chacha20_krovetz t" "krovetz_F t 20" krovetz_keyed
  for t
  using prf_contract_krovetz [of 20] by (simp add: prf_table_defs chacha20_krovetz_generate_def [abs_def])

end
