(* ===== verification/Ottery_Entropy.thy ===== *)
theory Ottery_Entropy
  imports Ottery_Platform "HOL-Library.Sublist"
begin

text \<open>
  The entropy layer: \<^verbatim>\<open>src/ottery_entropy.c\<close> and the four source files it includes,
  \<^verbatim>\<open>ottery_entropy_urandom.c\<close>, \<^verbatim>\<open>ottery_entropy_egd.c\<close>, \<^verbatim>\<open>ottery_entropy_rdrand.c\<close> and
  \<^verbatim>\<open>ottery_entropy_cryptgenrandom.c\<close>. A source function gets the configuration and the cached
  entropy state (each possibly null, \<open>None\<close>), the number of bytes to deliver and the world; it
  returns an error code (zero for success), the entropy state, the bytes that it stored at
  its output pointer, and the world.

  The results at the end say what a successful \<^verbatim>\<open>ottery_get_entropy_\<close> has gathered: blocks of
  the requested length from a list of enabled sources of pairwise different domains, one
  of them strong and not marked weak, and nothing else.
\<close>

section \<open>Configuration, flags\<close>

record ottery_entropy_config =
  urandom_fname :: "string option"
  urandom_fd :: int
  urandom_fd_is_set :: bool
  egd_sockaddr :: "sockaddr option"
  egd_socklen :: int
  disabled_sources :: u32
  weak_sources :: u32
  allow_nondev_urandom :: bool

record ottery_entropy_state =
  urandom_fd_inode :: u64

definition OTTERY_ENTROPY_FL_STRONG :: u32 where "OTTERY_ENTROPY_FL_STRONG = 0x000001"
definition OTTERY_ENTROPY_FL_FAST :: u32 where "OTTERY_ENTROPY_FL_FAST = 0x000002"
definition OTTERY_ENTROPY_DOM_OS :: u32 where "OTTERY_ENTROPY_DOM_OS = 0x000100"
definition OTTERY_ENTROPY_DOM_CPU :: u32 where "OTTERY_ENTROPY_DOM_CPU = 0x000200"
definition OTTERY_ENTROPY_DOM_EGD :: u32 where "OTTERY_ENTROPY_DOM_EGD = 0x000400"
definition OTTERY_ENTROPY_DOM_MASK :: u32 where "OTTERY_ENTROPY_DOM_MASK = 0x0000FF00"
definition OTTERY_ENTROPY_ALL_SOURCES :: u32 where "OTTERY_ENTROPY_ALL_SOURCES = 0x0FFF0000"
definition OTTERY_ENTROPY_SRC_RANDOMDEV :: u32 where "OTTERY_ENTROPY_SRC_RANDOMDEV = 0x0010000"
definition OTTERY_ENTROPY_SRC_CRYPTGENRANDOM :: u32 where
  "OTTERY_ENTROPY_SRC_CRYPTGENRANDOM = 0x0020000"
definition OTTERY_ENTROPY_SRC_RDRAND :: u32 where "OTTERY_ENTROPY_SRC_RDRAND = 0x0040000"
definition OTTERY_ENTROPY_SRC_EGD :: u32 where "OTTERY_ENTROPY_SRC_EGD = 0x0080000"

lemmas entropy_flag_defs = OTTERY_ENTROPY_FL_STRONG_def OTTERY_ENTROPY_FL_FAST_def
  OTTERY_ENTROPY_DOM_OS_def OTTERY_ENTROPY_DOM_CPU_def OTTERY_ENTROPY_DOM_EGD_def
  OTTERY_ENTROPY_DOM_MASK_def OTTERY_ENTROPY_ALL_SOURCES_def OTTERY_ENTROPY_SRC_RANDOMDEV_def
  OTTERY_ENTROPY_SRC_CRYPTGENRANDOM_def OTTERY_ENTROPY_SRC_RDRAND_def OTTERY_ENTROPY_SRC_EGD_def

type_synonym 'w source_fn =
  "ottery_entropy_config option \<Rightarrow> ottery_entropy_state option \<Rightarrow> nat \<Rightarrow> 'w
    \<Rightarrow> u32 \<times> ottery_entropy_state option \<times> bytes \<times> 'w"

section \<open>Reading from a file\<close>

text \<open>
  The loop of \<^verbatim>\<open>ottery_read_n_bytes_from_file_\<close>: \<open>n\<close> bytes are still to read, \<open>cnt\<close> is
  \<^verbatim>\<open>outp - out\<close> and \<open>acc\<close> are the bytes stored so far. Each round reads at least one byte. The count is a natural
  number; it is at most the \<open>n\<close> at the start, and fits the \<^verbatim>\<open>int\<close> that the C function returns for the sizes asked for.
\<close>

function read_n_loop ::
    "'w os \<Rightarrow> int \<Rightarrow> nat \<Rightarrow> nat \<Rightarrow> bytes \<Rightarrow> 'w \<Rightarrow> nat \<times> bytes \<times> 'w" where
  "read_n_loop os fd n cnt acc w =
     (if n = 0 then (cnt, acc, w)
      else case os_read os fd n w of ((r, data), w') \<Rightarrow>
        if r \<le> 0 \<or> nat r > n then (cnt, acc, w')
        else read_n_loop os fd (n - nat r) (cnt + nat r) (acc @ take (nat r) data) w')"
  by pat_completeness auto
termination
  by (relation "measure (\<lambda>(os, fd, n, cnt, acc, w). n)") auto

declare read_n_loop.simps [simp del]

definition ottery_read_n_bytes_from_file ::
    "'w os \<Rightarrow> int \<Rightarrow> nat \<Rightarrow> 'w \<Rightarrow> nat \<times> bytes \<times> 'w" where
  "ottery_read_n_bytes_from_file os fd n w = read_n_loop os fd n 0 [] w"

section \<open>The sources\<close>

definition S_IFCHR :: u32 where
  "S_IFCHR = 0x2000"

definition ottery_get_entropy_urandom :: "'w os \<Rightarrow> 'w source_fn" where
  "ottery_get_entropy_urandom os cfg state outlen w =
     (let check_device = (case cfg of None \<Rightarrow> True | Some c \<Rightarrow> \<not> allow_nondev_urandom c);
          (fd, own_fd, w) =
            (case cfg of
               Some c \<Rightarrow>
                 if urandom_fd_is_set c \<and> urandom_fd c \<ge> 0 then (urandom_fd c, False, w)
                 else (let fname = (case urandom_fname c of Some f \<Rightarrow> f | None \<Rightarrow> ''/dev/urandom'');
                           (fd, w) = os_open os fname w
                       in (fd, True, w))
             | None \<Rightarrow> (let (fd, w) = os_open os ''/dev/urandom'' w in (fd, True, w)));
          close_own = (\<lambda>w. if own_fd then os_close os fd w else w)
      in if own_fd \<and> fd < 0 then (OTTERY_ERR_INIT_STRONG_RNG, state, [], w)
         else case os_fstat os fd w of
           (None, w) \<Rightarrow> (OTTERY_ERR_INIT_STRONG_RNG, state, [], close_own w)
         | (Some st, w) \<Rightarrow>
             if check_device \<and> 0 = st_mode st AND S_IFCHR
             then (OTTERY_ERR_INIT_STRONG_RNG, state, [], close_own w)
             else if check_device \<and>
               (case state of None \<Rightarrow> False
                | Some s \<Rightarrow> urandom_fd_inode s \<noteq> 0 \<and> st_ino st \<noteq> urandom_fd_inode s)
             then (OTTERY_ERR_ACCESS_STRONG_RNG, state, [], os_close os fd w)
             else
               (let state =
                      (if check_device
                       then map_option (\<lambda>s. if urandom_fd_inode s = 0
                                            then s\<lparr>urandom_fd_inode := st_ino st\<rparr> else s) state
                       else state);
                    (n, data, w) = ottery_read_n_bytes_from_file os fd outlen w
                in (if n \<noteq> outlen then OTTERY_ERR_ACCESS_STRONG_RNG else 0,
                    state, data, close_own w)))"

definition SOCK_STREAM :: int where
  "SOCK_STREAM = 1"

definition ottery_get_entropy_egd :: "'w os \<Rightarrow> 'w source_fn" where
  "ottery_get_entropy_egd os cfg state outlen w =
     (case cfg of None \<Rightarrow> (OTTERY_ERR_INIT_STRONG_RNG, state, [], w) | Some c \<Rightarrow>
      case egd_sockaddr c of None \<Rightarrow> (OTTERY_ERR_INIT_STRONG_RNG, state, [], w) | Some addr \<Rightarrow>
      if egd_socklen c = 0 then (OTTERY_ERR_INIT_STRONG_RNG, state, [], w)
      else if outlen > 255 then (OTTERY_ERR_ACCESS_STRONG_RNG, state, [], w)
      else case os_socket os (sa_family addr) w of (sock, w) \<Rightarrow>
      if sock < 0 then (OTTERY_ERR_INIT_STRONG_RNG, state, [], w)
      else case os_connect os sock addr (egd_socklen c) w of (conn, w) \<Rightarrow>
      if conn < 0 then (OTTERY_ERR_INIT_STRONG_RNG, state, [], os_close os sock w)
      else case os_write os sock [1, of_nat outlen] w of (wr, w) \<Rightarrow>
      if wr \<noteq> 2 then (OTTERY_ERR_ACCESS_STRONG_RNG, state, [], os_close os sock w)
      else case os_read os sock 1 w of ((rd, data), w) \<Rightarrow>
      if rd \<noteq> 1 then (OTTERY_ERR_ACCESS_STRONG_RNG, state, [], os_close os sock w)
      else if unat (if data = [] then 1 else hd data) \<noteq> outlen
      then (OTTERY_ERR_ACCESS_STRONG_RNG, state, [], os_close os sock w)
      else case ottery_read_n_bytes_from_file os sock outlen w of (n, data, w) \<Rightarrow>
      (if n \<noteq> outlen then OTTERY_ERR_ACCESS_STRONG_RNG else 0, state, data, os_close os sock w))"

text \<open>
  \<^verbatim>\<open>rdrand\<close> stores its value whether or not the instruction succeeded, and fails unless the
  carry flag is set.
\<close>

definition rdrand :: "'w os \<Rightarrow> 'w \<Rightarrow> u32 \<times> u32 \<times> 'w" where
  "rdrand os w =
     (case os_rdrand os w of ((therand, status), w) \<Rightarrow>
        (if status = 1 then 0 else OTTERY_ERR_INIT_STRONG_RNG, therand, w))"

fun rdrand_loop :: "'w os \<Rightarrow> nat \<Rightarrow> bytes \<Rightarrow> 'w \<Rightarrow> u32 \<times> bytes \<times> 'w" where
  "rdrand_loop os outlen up w =
     (if outlen \<ge> 4
      then (case rdrand os w of (err, v, w) \<Rightarrow>
              if err \<noteq> 0 then (err, up @ le32 v, w)
              else rdrand_loop os (outlen - 4) (up @ le32 v) w)
      else if outlen \<noteq> 0
      then (case rdrand os w of (err, tmp, w) \<Rightarrow>
              if err \<noteq> 0 then (err, up, w) else (0, up @ take outlen (le32 tmp), w))
      else (0, up, w))"

declare rdrand_loop.simps [simp del]

definition ottery_get_entropy_rdrand :: "build \<Rightarrow> 'w os \<Rightarrow> u32 \<Rightarrow> 'w source_fn" where
  "ottery_get_entropy_rdrand b os disabled cfg state outlen w =
     (if ottery_get_cpu_capabilities b os disabled AND OTTERY_CPUCAP_RAND = 0
      then (OTTERY_ERR_INIT_STRONG_RNG, state, [], w)
      else case rdrand_loop os outlen [] w of (err, data, w) \<Rightarrow> (err, state, data, w))"

definition ottery_get_entropy_cryptgenrandom :: "'w os \<Rightarrow> 'w source_fn" where
  "ottery_get_entropy_cryptgenrandom os cfg state outlen w =
     (case os_crypt_acquire os w of
        (None, w) \<Rightarrow> (OTTERY_ERR_INIT_STRONG_RNG, state, [], w)
      | (Some provider, w) \<Rightarrow>
          (case os_crypt_gen_random os provider outlen w of ((ok, data), w) \<Rightarrow>
             (if ok then 0 else OTTERY_ERR_ACCESS_STRONG_RNG, state, data,
              os_crypt_release os provider w)))"

section \<open>Combining the sources\<close>

record 'w randbytes_source =
  src_fn :: "'w source_fn"
  src_flags :: u32

definition ENTROPY_SOURCE_CRYPTGENRANDOM :: "'w os \<Rightarrow> 'w randbytes_source" where
  "ENTROPY_SOURCE_CRYPTGENRANDOM os =
     \<lparr>src_fn = ottery_get_entropy_cryptgenrandom os,
      src_flags = OTTERY_ENTROPY_SRC_CRYPTGENRANDOM OR OTTERY_ENTROPY_DOM_OS
                  OR OTTERY_ENTROPY_FL_STRONG\<rparr>"

definition ENTROPY_SOURCE_URANDOM :: "'w os \<Rightarrow> 'w randbytes_source" where
  "ENTROPY_SOURCE_URANDOM os =
     \<lparr>src_fn = ottery_get_entropy_urandom os,
      src_flags = OTTERY_ENTROPY_SRC_RANDOMDEV OR OTTERY_ENTROPY_DOM_OS
                  OR OTTERY_ENTROPY_FL_STRONG\<rparr>"

definition ENTROPY_SOURCE_EGD :: "'w os \<Rightarrow> 'w randbytes_source" where
  "ENTROPY_SOURCE_EGD os =
     \<lparr>src_fn = ottery_get_entropy_egd os,
      src_flags = OTTERY_ENTROPY_SRC_EGD OR OTTERY_ENTROPY_DOM_EGD OR OTTERY_ENTROPY_FL_STRONG\<rparr>"

definition ENTROPY_SOURCE_RDRAND :: "build \<Rightarrow> 'w os \<Rightarrow> u32 \<Rightarrow> 'w randbytes_source" where
  "ENTROPY_SOURCE_RDRAND b os disabled =
     \<lparr>src_fn = ottery_get_entropy_rdrand b os disabled,
      src_flags = OTTERY_ENTROPY_SRC_RDRAND OR OTTERY_ENTROPY_DOM_CPU
                  OR OTTERY_ENTROPY_FL_FAST OR OTTERY_ENTROPY_FL_STRONG\<rparr>"

text \<open>The test around the RDRAND source; it is not quite the one of \<^verbatim>\<open>ottery_cpuinfo.c\<close>.\<close>

definition rdrand_built :: "build \<Rightarrow> bool" where
  "rdrand_built b \<longleftrightarrow> (\<exists>m \<in> set [''i386'', ''__i386'', ''__x86_64'', ''__M_IX86'', ''_M_IX86'', ''__INTEL_COMPILER''].
     m \<in> set (predefined b))"

definition RAND_SOURCES :: "build \<Rightarrow> 'w os \<Rightarrow> u32 \<Rightarrow> 'w randbytes_source list" where
  "RAND_SOURCES b os disabled =
     (if win32 b then [ENTROPY_SOURCE_CRYPTGENRANDOM os] else [])
     @ (if \<not> win32 b then [ENTROPY_SOURCE_URANDOM os] else [])
     @ (if \<not> win32 b then [ENTROPY_SOURCE_EGD os] else [])
     @ (if rdrand_built b then [ENTROPY_SOURCE_RDRAND b os disabled] else [])"

definition ottery_get_entropy_bufsize :: "build \<Rightarrow> 'w os \<Rightarrow> u32 \<Rightarrow> nat \<Rightarrow> nat" where
  "ottery_get_entropy_bufsize b os disabled n = mul64 n (length (RAND_SOURCES b os disabled))"

record 'w entropy_acc =
  ea_state :: "ottery_entropy_state option"
  ea_got :: u32
  ea_next :: nat
  ea_buf :: bytes
  ea_last_err :: u32
  ea_world :: 'w

fun entropy_loop ::
    "ottery_entropy_config option \<Rightarrow> u32 \<Rightarrow> nat \<Rightarrow> nat \<Rightarrow> 'w randbytes_source list
      \<Rightarrow> 'w entropy_acc \<Rightarrow> 'w entropy_acc" where
  "entropy_loop config select_sources n buflen [] a = a"
| "entropy_loop config select_sources n buflen (s # ss) a =
     (let flags = src_flags s;
          disabled = (case config of Some c \<Rightarrow> disabled_sources c | None \<Rightarrow> 0)
      in if 0 \<noteq> flags AND disabled then entropy_loop config select_sources n buflen ss a
         else if flags AND select_sources \<noteq> select_sources
         then entropy_loop config select_sources n buflen ss a
         else if flags AND (ea_got a AND OTTERY_ENTROPY_DOM_MASK) \<noteq> 0
         then entropy_loop config select_sources n buflen ss a
         else if ea_next a + n > buflen then a
         else case src_fn s config (ea_state a) n (ea_world a) of (err, state, data, w) \<Rightarrow>
           let a = a\<lparr>ea_state := state, ea_world := w, ea_buf := mem_write (ea_buf a) (ea_next a) data\<rparr>
           in if err = 0
              then (let flags =
                      (case config of
                         Some c \<Rightarrow> if flags AND weak_sources c \<noteq> 0
                                   then flags AND NOT OTTERY_ENTROPY_FL_STRONG else flags
                       | None \<Rightarrow> flags)
                    in entropy_loop config select_sources n buflen ss
                         (a\<lparr>ea_got := ea_got a OR flags, ea_next := ea_next a + n\<rparr>))
              else entropy_loop config select_sources n buflen ss (a\<lparr>ea_last_err := err\<rparr>))"

declare entropy_loop.simps [simp del]

record 'w entropy_result =
  er_err :: u32
  er_state :: "ottery_entropy_state option"
  er_bytes :: bytes
  er_buflen :: nat
  er_flags :: u32
  er_world :: 'w

definition ottery_get_entropy ::
    "build \<Rightarrow> 'w os \<Rightarrow> u32 \<Rightarrow> ottery_entropy_config option \<Rightarrow> ottery_entropy_state option
      \<Rightarrow> u32 \<Rightarrow> nat \<Rightarrow> nat \<Rightarrow> 'w \<Rightarrow> 'w entropy_result" where
  "ottery_get_entropy b os dis config state select_sources n buflen w =
     (let a = entropy_loop config select_sources n buflen (RAND_SOURCES b os dis)
                \<lparr>ea_state = state, ea_got = 0, ea_next = 0, ea_buf = replicate buflen 0,
                 ea_last_err = 0, ea_world = w\<rparr>
      in if 0 = ea_got a AND OTTERY_ENTROPY_FL_STRONG
         then \<lparr>er_err = (if ea_last_err a \<noteq> 0 then ea_last_err a else OTTERY_ERR_INIT_STRONG_RNG),
               er_state = ea_state a, er_bytes = ea_buf a, er_buflen = buflen, er_flags = 0,
               er_world = ea_world a\<rparr>
         else \<lparr>er_err = 0, er_state = ea_state a, er_bytes = ea_buf a, er_buflen = ea_next a,
               er_flags = ea_got a, er_world = ea_world a\<rparr>)"

section \<open>What the sources deliver\<close>

text \<open>
  Documented behaviour of the outside world that the sources rely on: \<^verbatim>\<open>read\<close> stores as many
  bytes as it returns and never more than asked for; \<^verbatim>\<open>CryptGenRandom\<close> fills the buffer.
\<close>

definition os_contract :: "'w os \<Rightarrow> bool" where
  "os_contract os \<longleftrightarrow>
     (\<forall>fd n w r data w'. os_read os fd n w = ((r, data), w') \<longrightarrow>
        length data = nat r \<and> nat r \<le> n) \<and>
     (\<forall>prov n w ok data w'. os_crypt_gen_random os prov n w = ((ok, data), w') \<longrightarrow>
        length data \<le> n \<and> (ok \<longrightarrow> length data = n))"

lemma os_contract_read:
  "os_contract os \<Longrightarrow> os_read os fd n w = ((r, data), w') \<Longrightarrow> length data = nat r \<and> nat r \<le> n"
  unfolding os_contract_def by blast

lemma os_contract_crypt:
  "os_contract os \<Longrightarrow> os_crypt_gen_random os prov n w = ((ok, data), w') \<Longrightarrow>
     length data \<le> n \<and> (ok \<longrightarrow> length data = n)"
  unfolding os_contract_def by blast

lemma read_n_loop_length:
  assumes "os_contract os" "length acc = cnt"
    and "read_n_loop os fd n cnt acc w = (k, data, w')"
  shows "length data = k \<and> k \<le> cnt + n"
  using assms
proof (induction os fd n cnt acc w rule: read_n_loop.induct)
  case (1 os fd n cnt acc w)
  obtain r d w1 where rd: "os_read os fd n w = ((r, d), w1)" by (metis prod.exhaust)
  show ?case
  proof (cases "n = 0 \<or> r \<le> 0 \<or> nat r > n")
    case True
    then show ?thesis
      using 1 rd by (auto simp: read_n_loop.simps [of os fd n] split: if_splits)
  next
    case False
    then have "read_n_loop os fd (n - nat r) (cnt + nat r) (acc @ take (nat r) d) w1 = (k, data, w')"
      using 1 rd by (simp add: read_n_loop.simps [of os fd n])
    moreover have "length (acc @ take (nat r) d) = cnt + nat r"
      using "1.prems" rd by (simp add: os_contract_read)
    ultimately have "length data = k \<and> k \<le> cnt + nat r + (n - nat r)"
      using 1(1) "1.prems" False rd by auto
    with False show ?thesis by simp
  qed
qed

lemma read_n_bytes_length:
  assumes "os_contract os" "ottery_read_n_bytes_from_file os fd n w = (k, data, w')"
  shows "length data = k \<and> k \<le> n"
  using read_n_loop_length [of os "[]" 0 fd n w k data w'] assms
  by (simp add: ottery_read_n_bytes_from_file_def)

text \<open>A file that is never at its end is read to the last byte.\<close>

definition always_readable :: "'w os \<Rightarrow> int \<Rightarrow> bool" where
  "always_readable os fd \<longleftrightarrow> (\<forall>n w. 0 < n \<longrightarrow> 1 \<le> fst (fst (os_read os fd n w)))"

lemma read_n_loop_progress:
  assumes "os_contract os" "always_readable os fd"
  shows "fst (read_n_loop os fd n cnt acc w) = cnt + n"
  using assms
proof (induction os fd n cnt acc w rule: read_n_loop.induct)
  case (1 os fd n cnt acc w)
  obtain r d w1 where rd: "os_read os fd n w = ((r, d), w1)" by (metis prod.exhaust)
  show ?case
  proof (cases "n = 0")
    case False
    then have "1 \<le> fst (fst (os_read os fd n w))"
      using "1.prems"(2) by (simp add: always_readable_def)
    then have "1 \<le> r" "nat r \<le> n"
      using "1.prems"(1) rd os_contract_read [of os fd n w] by auto
    with False 1 rd show ?thesis
      by (simp add: read_n_loop.simps [of os fd n])
  qed (simp add: read_n_loop.simps)
qed

text \<open>
  The bargain between the sources and \<^verbatim>\<open>ottery_get_entropy_\<close>: a source function never stores more
  than it was asked for, and exactly that when it reports success. RDRAND keeps it by itself, the
  others on a system that keeps \<open>os_contract\<close>.
\<close>

locale source_fills =
  fixes f :: "'w source_fn"
  assumes fills: "f cfg st n w = (err, st', data, w') \<Longrightarrow> length data \<le> n \<and> (err = 0 \<longrightarrow> length data = n)"
begin

lemma success_length: "f cfg st n w = (0, st', data, w') \<Longrightarrow> length data = n"
  using fills by simp

end

lemmas source_fillsI = source_fills.intro
lemmas source_fillsD = source_fills.fills

lemma err_nonzero [simp]:
  "OTTERY_ERR_INIT_STRONG_RNG \<noteq> 0" "OTTERY_ERR_ACCESS_STRONG_RNG \<noteq> 0"
  by (simp_all add: err_defs)

lemma urandom_fills: "os_contract os \<Longrightarrow> source_fills (ottery_get_entropy_urandom os)"
  by (rule source_fillsI)
     (auto simp: ottery_get_entropy_urandom_def Let_def dest: read_n_bytes_length
       split: prod.splits option.splits if_splits)

lemma egd_fills: "os_contract os \<Longrightarrow> source_fills (ottery_get_entropy_egd os)"
  by (rule source_fillsI)
     (auto simp: ottery_get_entropy_egd_def dest: read_n_bytes_length
       split: prod.splits option.splits if_splits)

lemma cryptgenrandom_fills: "os_contract os \<Longrightarrow> source_fills (ottery_get_entropy_cryptgenrandom os)"
  by (rule source_fillsI)
     (auto simp: ottery_get_entropy_cryptgenrandom_def dest: os_contract_crypt
       split: prod.splits option.splits if_splits)

lemma rdrand_loop_length:
  "rdrand_loop os n up w = (err, data, w') \<Longrightarrow>
     length data \<le> length up + n \<and> (err = 0 \<longrightarrow> length data = length up + n)"
proof (induction os n up w rule: rdrand_loop.induct)
  case (1 os n up w)
  obtain e v w1 where "rdrand os w = (e, v, w1)" by (metis prod.exhaust)
  with 1 show ?case
    by (auto simp: rdrand_loop.simps [of os n] split: if_splits)
qed

interpretation rdrand: source_fills "ottery_get_entropy_rdrand b os dis" for b os dis
  by unfold_locales
     (auto simp: ottery_get_entropy_rdrand_def dest: rdrand_loop_length
       split: prod.splits if_splits)

lemma RAND_SOURCES_fill:
  "os_contract os \<Longrightarrow> s \<in> set (RAND_SOURCES b os dis) \<Longrightarrow> source_fills (src_fn s)"
  by (auto simp: RAND_SOURCES_def ENTROPY_SOURCE_CRYPTGENRANDOM_def ENTROPY_SOURCE_URANDOM_def
      ENTROPY_SOURCE_EGD_def ENTROPY_SOURCE_RDRAND_def urandom_fills egd_fills
      cryptgenrandom_fills rdrand.source_fills_axioms split: if_splits)

section \<open>What the combination delivers\<close>

definition config_disabled :: "ottery_entropy_config option \<Rightarrow> u32" where
  "config_disabled config = (case config of Some c \<Rightarrow> disabled_sources c | None \<Rightarrow> 0)"

text \<open>The flags a source counts with: a source marked weak loses the strong flag.\<close>

definition effective_flags :: "ottery_entropy_config option \<Rightarrow> 'w randbytes_source \<Rightarrow> u32" where
  "effective_flags config s =
     (case config of
        Some c \<Rightarrow> if src_flags s AND weak_sources c \<noteq> 0
                  then src_flags s AND NOT OTTERY_ENTROPY_FL_STRONG else src_flags s
      | None \<Rightarrow> src_flags s)"

text \<open>\<open>delivers config n s d\<close>: on some call for \<open>n\<close> bytes, source \<open>s\<close> succeeded and stored \<open>d\<close>.\<close>

definition delivers ::
    "ottery_entropy_config option \<Rightarrow> nat \<Rightarrow> 'w randbytes_source \<Rightarrow> bytes \<Rightarrow> bool" where
  "delivers config n s d \<longleftrightarrow> (\<exists>st w st' w'. src_fn s config st n w = (0, st', d, w'))"

definition or_flags :: "u32 \<Rightarrow> u32 list \<Rightarrow> u32" where
  "or_flags g fs = fold (OR) fs g"

lemma or_flags_simps [simp]:
  "or_flags g [] = g"
  "or_flags g (f # fs) = or_flags (g OR f) fs"
  by (simp_all add: or_flags_def or.commute)

lemma or_flags_bit:
  "bit (or_flags g fs) i \<longleftrightarrow> bit g i \<or> (\<exists>f \<in> set fs. bit f i)"
  by (induction fs arbitrary: g) (auto simp: bit_or_iff)

lemma flag_and_zero_iff:
  "(f :: u32) AND (g AND m) = 0 \<longleftrightarrow> (\<forall>i. \<not> (bit f i \<and> bit g i \<and> bit m i))"
proof -
  have "(f AND (g AND m) = 0) = (\<forall>i. \<not> bit (f AND (g AND m)) i)"
    by (metis bit_0_eq bit_eq_iff bot_apply bot_bool_def)
  then show ?thesis by (simp add: bit_and_iff)
qed

text \<open>The list \<open>us\<close> of sources that contribute while the loop runs over \<open>ss\<close>, and their data.\<close>

definition contributed ::
    "ottery_entropy_config option \<Rightarrow> u32 \<Rightarrow> nat \<Rightarrow> 'w randbytes_source list \<Rightarrow> 'w entropy_acc
      \<Rightarrow> 'w entropy_acc \<Rightarrow> 'w randbytes_source list \<Rightarrow> bytes list \<Rightarrow> bool" where
  "contributed config select n ss a a' us ds \<longleftrightarrow>
     subseq us ss \<and> list_all2 (delivers config n) us ds \<and>
     (\<forall>s \<in> set us. src_flags s AND config_disabled config = 0 \<and> src_flags s AND select = select) \<and>
     (\<forall>s \<in> set us. src_flags s AND (ea_got a AND OTTERY_ENTROPY_DOM_MASK) = 0) \<and>
     sorted_wrt (\<lambda>s t. src_flags t AND (effective_flags config s AND OTTERY_ENTROPY_DOM_MASK) = 0) us \<and>
     ea_got a' = or_flags (ea_got a) (map (effective_flags config) us) \<and>
     ea_next a' = ea_next a + n * length us \<and>
     length (ea_buf a') = length (ea_buf a) \<and>
     take (ea_next a') (ea_buf a') = take (ea_next a) (ea_buf a) @ concat ds"

lemma contributed_skip:
  "contributed config sel n ss a a' us ds \<Longrightarrow> contributed config sel n (s # ss) a a' us ds"
  by (auto simp: contributed_def)

lemma contributed_fail:
  assumes "contributed config sel n ss (a\<lparr>ea_state := st, ea_world := w,
      ea_buf := mem_write (ea_buf a) (ea_next a) d, ea_last_err := e\<rparr>) a' us ds"
    and "ea_next a \<le> length (ea_buf a)"
  shows "contributed config sel n (s # ss) a a' us ds"
  using assms by (auto simp: contributed_def take_mem_write)

lemma or_split_mask:
  "(f :: u32) AND ((g OR h) AND m) = 0 \<longleftrightarrow> f AND (g AND m) = 0 \<and> f AND (h AND m) = 0"
  by (auto simp: flag_and_zero_iff bit_or_iff)

lemma contributed_take:
  assumes "contributed config sel n ss (a\<lparr>ea_state := st, ea_world := w,
      ea_buf := mem_write (ea_buf a) (ea_next a) d,
      ea_got := ea_got a OR effective_flags config s, ea_next := ea_next a + n\<rparr>) a' us ds"
    and "src_flags s AND config_disabled config = 0" "src_flags s AND sel = sel"
    and "src_flags s AND (ea_got a AND OTTERY_ENTROPY_DOM_MASK) = 0"
    and "delivers config n s d" "length d = n" "ea_next a + n \<le> length (ea_buf a)"
  shows "contributed config sel n (s # ss) a a' (s # us) (d # ds)"
proof -
  have "take (ea_next a + n) (mem_write (ea_buf a) (ea_next a) d) = take (ea_next a) (ea_buf a) @ d"
    using assms(6,7) by (simp add: mem_write_def)
  then show ?thesis
    using assms by (auto simp: contributed_def or_split_mask)
qed

text \<open>One turn of the loop: which sources are passed over, and what a call adds.\<close>

definition passed_over ::
    "ottery_entropy_config option \<Rightarrow> u32 \<Rightarrow> 'w entropy_acc \<Rightarrow> 'w randbytes_source \<Rightarrow> bool" where
  "passed_over config sel a s \<longleftrightarrow> src_flags s AND config_disabled config \<noteq> 0 \<or>
     src_flags s AND sel \<noteq> sel \<or> src_flags s AND (ea_got a AND OTTERY_ENTROPY_DOM_MASK) \<noteq> 0"

definition after_success where
  "after_success config n a s st d w = a\<lparr>ea_state := st, ea_world := w,
     ea_buf := mem_write (ea_buf a) (ea_next a) d,
     ea_got := ea_got a OR effective_flags config s, ea_next := ea_next a + n\<rparr>"

definition after_failure where
  "after_failure a err st d w = a\<lparr>ea_state := st, ea_world := w,
     ea_buf := mem_write (ea_buf a) (ea_next a) d, ea_last_err := err\<rparr>"

lemma entropy_loop_Cons:
  assumes "src_fn s config (ea_state a) n (ea_world a) = (err, st, d, w)"
  shows "entropy_loop config sel n buflen (s # ss) a =
     (if passed_over config sel a s then entropy_loop config sel n buflen ss a
      else if ea_next a + n > buflen then a
      else entropy_loop config sel n buflen ss
             (if err = 0 then after_success config n a s st d w else after_failure a err st d w))"
  by (auto simp: entropy_loop.simps assms passed_over_def after_success_def after_failure_def
      config_disabled_def effective_flags_def Let_def split: option.split)

lemma entropy_loop_contributed:
  assumes "\<And>s. s \<in> set ss \<Longrightarrow> source_fills (src_fn s)"
    and "length (ea_buf a) = buflen" "ea_next a \<le> buflen"
  shows "\<exists>us ds. contributed config sel n ss a (entropy_loop config sel n buflen ss a) us ds"
  using assms
proof (induction ss arbitrary: a)
  case Nil
  show ?case by (rule exI [of _ "[]"], rule exI [of _ "[]"]) (simp add: contributed_def entropy_loop.simps)
next
  case (Cons s ss)
  have fills: "source_fills (src_fn s)" using Cons.prems by simp
  have IH: "\<exists>us ds. contributed config sel n ss a (entropy_loop config sel n buflen ss a) us ds"
    if "length (ea_buf a) = buflen" "ea_next a \<le> buflen" for a
    using Cons that by simp
  obtain err st d w where call: "src_fn s config (ea_state a) n (ea_world a) = (err, st, d, w)"
    by (metis prod_cases4)
  note eq = entropy_loop_Cons [OF call, of sel buflen ss]
  consider "passed_over config sel a s" | "\<not> passed_over config sel a s" "ea_next a + n > buflen"
    | "\<not> passed_over config sel a s" "ea_next a + n \<le> buflen" by linarith
  then show ?case
  proof cases
    case 1
    then show ?thesis using IH [OF Cons.prems(2,3)] contributed_skip by (metis eq)
  next
    case 2
    then show ?thesis by (intro exI [of _ "[]"]) (simp add: eq contributed_def)
  next
    case 3
    define a1 where "a1 = (if err = 0 then after_success config n a s st d w else after_failure a err st d w)"
    have "length (ea_buf a1) = buflen" "ea_next a1 \<le> buflen"
      using 3 Cons.prems by (simp_all add: a1_def after_success_def after_failure_def)
    from IH [OF this] obtain us ds where
      a1: "contributed config sel n ss a1 (entropy_loop config sel n buflen ss a1) us ds" by blast
    show ?thesis
    proof (cases "err = 0")
      case True
      then have "length d = n" "delivers config n s d"
        using source_fillsD [OF fills call] call by (auto simp: delivers_def)
      with True 3 a1 Cons.prems show ?thesis
        by (subst eq) (auto simp: a1_def after_success_def passed_over_def
            intro!: exI contributed_take [where st = st and w = w])
    next
      case False
      with 3 a1 Cons.prems show ?thesis
        by (subst eq) (auto simp: a1_def after_failure_def
            intro!: exI contributed_fail [where st = st and w = w and d = d and e = err])
    qed
  qed
qed

text \<open>The result of a successful \<^verbatim>\<open>ottery_get_entropy_\<close> in terms of its sources.\<close>

definition gathered ::
    "ottery_entropy_config option \<Rightarrow> nat \<Rightarrow> 'w randbytes_source list \<Rightarrow> u32 \<Rightarrow> bytes
      \<Rightarrow> 'w randbytes_source list \<Rightarrow> bytes list \<Rightarrow> bool" where
  "gathered config n ss flags seed us ds \<longleftrightarrow>
     subseq us ss \<and> list_all2 (delivers config n) us ds \<and> seed = concat ds \<and>
     (\<forall>s \<in> set us. src_flags s AND config_disabled config = 0) \<and>
     sorted_wrt (\<lambda>s t. src_flags s AND (src_flags t AND OTTERY_ENTROPY_DOM_MASK) = 0) us \<and>
     flags = or_flags 0 (map (effective_flags config) us) \<and>
     (\<exists>s \<in> set us. effective_flags config s AND OTTERY_ENTROPY_FL_STRONG \<noteq> 0)"

lemma strong_bit: "(f :: u32) AND OTTERY_ENTROPY_FL_STRONG \<noteq> 0 \<longleftrightarrow> bit f 0"
  using flag_and_zero_iff [of f OTTERY_ENTROPY_FL_STRONG "NOT 0"]
  by (auto simp: OTTERY_ENTROPY_FL_STRONG_def bit_simps)

lemma effective_domain:
  "effective_flags config s AND OTTERY_ENTROPY_DOM_MASK = src_flags s AND OTTERY_ENTROPY_DOM_MASK"
proof -
  have "(x AND NOT OTTERY_ENTROPY_FL_STRONG) AND OTTERY_ENTROPY_DOM_MASK = x AND OTTERY_ENTROPY_DOM_MASK"
    for x :: u32
    by (simp add: entropy_flag_defs and.assoc)
  then show ?thesis by (simp add: effective_flags_def split: option.split)
qed

lemma length_delivered:
  assumes "list_all2 (delivers config n) us ds" "\<And>s. s \<in> set us \<Longrightarrow> source_fills (src_fn s)"
  shows "length (concat ds) = n * length us"
  using assms
proof (induction rule: list_all2_induct)
  case (Cons s us d ds)
  then show ?case by (auto simp: delivers_def dest: source_fills.success_length)
qed simp

lemma get_entropy_gathered:
  assumes os: "os_contract os" and r: "r = ottery_get_entropy b os dis config state sel n buflen w"
    and ok: "er_err r = 0"
  obtains us ds where "gathered config n (RAND_SOURCES b os dis) (er_flags r)
      (take (er_buflen r) (er_bytes r)) us ds"
    "er_buflen r = n * length us" "length (er_bytes r) = buflen" "er_buflen r \<le> buflen"
    "\<forall>s \<in> set us. src_flags s AND sel = sel"
proof -
  define a where "a = \<lparr>ea_state = state, ea_got = 0, ea_next = 0, ea_buf = replicate buflen 0,
    ea_last_err = 0, ea_world = w\<rparr>"
  define a' where "a' = entropy_loop config sel n buflen (RAND_SOURCES b os dis) a"
  obtain us ds where c: "contributed config sel n (RAND_SOURCES b os dis) a a' us ds"
    using entropy_loop_contributed [of "RAND_SOURCES b os dis" a buflen config sel n]
      RAND_SOURCES_fill [OF os] by (auto simp: a_def a'_def)
  have r': "er_flags r = ea_got a'" "er_buflen r = ea_next a'" "er_bytes r = ea_buf a'"
    and strong: "ea_got a' AND OTTERY_ENTROPY_FL_STRONG \<noteq> 0"
    using ok by (auto simp: r ottery_get_entropy_def a_def [symmetric] a'_def [symmetric] Let_def
        split: if_splits)
  have got: "ea_got a' = or_flags 0 (map (effective_flags config) us)"
    using c by (simp add: contributed_def a_def)
  have sub: "set us \<subseteq> set (RAND_SOURCES b os dis)" using c by (auto simp: contributed_def dest: list_emb_set)
  have seed: "take (ea_next a') (ea_buf a') = concat ds" and del: "list_all2 (delivers config n) us ds"
    and next': "ea_next a' = n * length us" and len: "length (ea_buf a') = buflen"
    using c by (auto simp: contributed_def a_def)
  have "length (concat ds) = n * length us"
    using length_delivered [OF del] RAND_SOURCES_fill [OF os] sub by blast
  then have fits: "ea_next a' \<le> buflen"
    using seed next' len by (metis length_take min.cobounded1)
  have "sorted_wrt (\<lambda>s t. src_flags s AND (src_flags t AND OTTERY_ENTROPY_DOM_MASK) = 0) us"
    using c by (auto simp: contributed_def effective_domain elim!: sorted_wrt_mono_rel [rotated])
       (metis and.left_commute)
  moreover have "\<exists>s \<in> set us. effective_flags config s AND OTTERY_ENTROPY_FL_STRONG \<noteq> 0"
    using strong by (auto simp: strong_bit got or_flags_bit)
  ultimately have "gathered config n (RAND_SOURCES b os dis) (er_flags r)
      (take (er_buflen r) (er_bytes r)) us ds"
    using c seed del got by (simp add: gathered_def r' contributed_def)
  moreover have "\<forall>s \<in> set us. src_flags s AND sel = sel" using c by (simp add: contributed_def)
  ultimately show thesis using that next' len fits by (simp add: r')
qed

text \<open>RDRAND is executed only where CPUID was asked and reported it, and it was not disabled.\<close>

lemma rdrand_detected:
  assumes "\<not> (X86 b \<and> cpuid os 1 ! 2 AND push_bit 30 1 \<noteq> 0 \<and> disabled AND OTTERY_CPUCAP_RAND = 0)"
  shows "ottery_get_entropy_rdrand b os disabled cfg state n w = (OTTERY_ERR_INIT_STRONG_RNG, state, [], w)"
proof -
  have "ottery_get_cpu_capabilities b os disabled AND OTTERY_CPUCAP_RAND = 0"
    using assms
    by (auto simp: ottery_get_cpu_capabilities_def Let_def cpucap_defs and_push_bit_1 bit_simps
        simp del: push_bit_of_1)
  then show ?thesis by (simp add: ottery_get_entropy_rdrand_def)
qed

lemma source_selectable:
  "s \<in> set (RAND_SOURCES b os dis) \<Longrightarrow> src_flags s AND OTTERY_ENTROPY_ALL_SOURCES \<noteq> 0"
  unfolding RAND_SOURCES_def ENTROPY_SOURCE_CRYPTGENRANDOM_def ENTROPY_SOURCE_URANDOM_def
    ENTROPY_SOURCE_EGD_def ENTROPY_SOURCE_RDRAND_def entropy_flag_defs
  by (auto split: if_splits)

lemma entropy_loop_disabled:
  "(\<And>s. s \<in> set ss \<Longrightarrow> src_flags s AND disabled_sources c \<noteq> 0) \<Longrightarrow>
     entropy_loop (Some c) sel n buflen ss a = a"
  by (induction ss) (auto simp: entropy_loop.simps)

lemma gathered_nonempty: "gathered config n ss flags seed us ds \<Longrightarrow> us \<noteq> []"
  by (auto simp: gathered_def)

end
