(* ===== verification/Ottery_Config.thy ===== *)
theory Ottery_Config
  imports Ottery_Prf Ottery_Entropy
begin

text \<open>
  \<^verbatim>\<open>struct ottery_config\<close> and the functions of \<^verbatim>\<open>src/ottery.c\<close> that fill it in, and the functions
  that report how the library was built. A function that takes a pointer to a configuration
  and writes through it returns the new configuration.
\<close>

section \<open>Names of PRFs\<close>

definition OTTERY_PRF_CHACHA :: string where "OTTERY_PRF_CHACHA = ''CHACHA''"
definition OTTERY_PRF_CHACHA8 :: string where "OTTERY_PRF_CHACHA8 = ''CHACHA8''"
definition OTTERY_PRF_CHACHA12 :: string where "OTTERY_PRF_CHACHA12 = ''CHACHA12''"
definition OTTERY_PRF_CHACHA20 :: string where "OTTERY_PRF_CHACHA20 = ''CHACHA20''"
definition OTTERY_PRF_CHACHA_SIMD :: string where "OTTERY_PRF_CHACHA_SIMD = ''CHACHA-SIMD''"
definition OTTERY_PRF_CHACHA8_SIMD :: string where "OTTERY_PRF_CHACHA8_SIMD = ''CHACHA8-SIMD''"
definition OTTERY_PRF_CHACHA12_SIMD :: string where "OTTERY_PRF_CHACHA12_SIMD = ''CHACHA12-SIMD''"
definition OTTERY_PRF_CHACHA20_SIMD :: string where "OTTERY_PRF_CHACHA20_SIMD = ''CHACHA20-SIMD''"
definition OTTERY_PRF_CHACHA_NO_SIMD :: string where "OTTERY_PRF_CHACHA_NO_SIMD = ''CHACHA-NOSIMD''"
definition OTTERY_PRF_CHACHA8_NO_SIMD :: string where "OTTERY_PRF_CHACHA8_NO_SIMD = ''CHACHA8-NOSIMD''"
definition OTTERY_PRF_CHACHA12_NO_SIMD :: string where "OTTERY_PRF_CHACHA12_NO_SIMD = ''CHACHA12-NOSIMD''"
definition OTTERY_PRF_CHACHA20_NO_SIMD :: string where "OTTERY_PRF_CHACHA20_NO_SIMD = ''CHACHA20-NOSIMD''"

lemmas prf_name_defs = OTTERY_PRF_CHACHA_def OTTERY_PRF_CHACHA8_def OTTERY_PRF_CHACHA12_def
  OTTERY_PRF_CHACHA20_def OTTERY_PRF_CHACHA_SIMD_def OTTERY_PRF_CHACHA8_SIMD_def
  OTTERY_PRF_CHACHA12_SIMD_def OTTERY_PRF_CHACHA20_SIMD_def OTTERY_PRF_CHACHA_NO_SIMD_def
  OTTERY_PRF_CHACHA8_NO_SIMD_def OTTERY_PRF_CHACHA12_NO_SIMD_def OTTERY_PRF_CHACHA20_NO_SIMD_def

section \<open>Build information\<close>

definition ottery_get_sizeof_config :: "build \<Rightarrow> nat" where
  "ottery_get_sizeof_config b = sizeof_config b"

definition ottery_get_sizeof_state :: "build \<Rightarrow> nat" where
  "ottery_get_sizeof_state b = sizeof_state b"

text \<open>\<^verbatim>\<open>struct ottery_state_nolock\<close> is a macro for \<^verbatim>\<open>struct ottery_state\<close>.\<close>

definition ottery_get_sizeof_state_nolock :: "build \<Rightarrow> nat" where
  "ottery_get_sizeof_state_nolock b = sizeof_state b"

definition ottery_get_version_string :: "build \<Rightarrow> string" where
  "ottery_get_version_string b = version_string b"

definition ottery_get_version :: "build \<Rightarrow> u32" where
  "ottery_get_version b = version b"

definition ottery_get_build_flags :: "build \<Rightarrow> u32" where
  "ottery_get_build_flags b =
     (let result = 0;
          result = (if no_pid_check b then result OR OTTERY_BLDFLG_NO_PID_CHECK else result);
          result = (if opt_no_init_check b then result OR OTTERY_BLDFLG_NO_INIT_CHECK else result);
          result = (if no_locks b then result OR OTTERY_BLDFLG_NO_LOCKING else result);
          result = (if opt_no_clear_after_yield b
                    then result OR OTTERY_BLDFLG_NO_CLEAR_AFTER_YIELD else result);
          result = (if opt_no_wipe_stack b then result OR OTTERY_BLDFLG_NO_WIPE_STACK else result);
          result = (if opt_no_simd b then result OR OTTERY_BLDFLG_NO_SIMD else result)
      in result)"

section \<open>Configuration\<close>

record ottery_config =
  cfg_impl :: "ottery_prf option"
  cfg_entropy :: ottery_entropy_config

definition ottery_config_init :: "ottery_config \<Rightarrow> u32 \<times> ottery_config" where
  "ottery_config_init cfg =
     (0, cfg\<lparr>cfg_impl := None,
             cfg_entropy := (cfg_entropy cfg)
               \<lparr>urandom_fname := None, urandom_fd := -1, urandom_fd_is_set := False,
                disabled_sources := 0, weak_sources := 0, egd_sockaddr := None,
                egd_socklen := 0, allow_nondev_urandom := False\<rparr>\<rparr>)"

definition ottery_config_force_implementation ::
    "build \<Rightarrow> 'w os \<Rightarrow> u32 \<Rightarrow> ottery_config \<Rightarrow> string option \<Rightarrow> u32 \<times> ottery_config" where
  "ottery_config_force_implementation b os disabled cfg impl =
     (case ottery_get_impl b os disabled impl of
        Some p \<Rightarrow> (0, cfg\<lparr>cfg_impl := Some p\<rparr>)
      | None \<Rightarrow> (OTTERY_ERR_INVALID_ARGUMENT, cfg))"

definition ottery_config_set_manual_prf :: "ottery_config \<Rightarrow> ottery_prf option \<Rightarrow> ottery_config" where
  "ottery_config_set_manual_prf cfg p = cfg\<lparr>cfg_impl := p\<rparr>"

definition ottery_config_set_urandom_device :: "ottery_config \<Rightarrow> string option \<Rightarrow> ottery_config" where
  "ottery_config_set_urandom_device cfg fname =
     cfg\<lparr>cfg_entropy := (cfg_entropy cfg)\<lparr>urandom_fname := fname\<rparr>\<rparr>"

definition ottery_config_set_urandom_fd :: "ottery_config \<Rightarrow> int \<Rightarrow> ottery_config" where
  "ottery_config_set_urandom_fd cfg fd =
     cfg\<lparr>cfg_entropy := (cfg_entropy cfg)\<lparr>urandom_fd := fd, urandom_fd_is_set := (fd \<ge> 0)\<rparr>\<rparr>"

definition ottery_config_set_egd_socket ::
    "ottery_config \<Rightarrow> sockaddr option \<Rightarrow> int \<Rightarrow> ottery_config" where
  "ottery_config_set_egd_socket cfg addr len =
     cfg\<lparr>cfg_entropy := (cfg_entropy cfg)\<lparr>egd_sockaddr := addr, egd_socklen := len\<rparr>\<rparr>"

definition ottery_config_disable_entropy_sources :: "ottery_config \<Rightarrow> u32 \<Rightarrow> ottery_config" where
  "ottery_config_disable_entropy_sources cfg disabled =
     cfg\<lparr>cfg_entropy := (cfg_entropy cfg)
       \<lparr>disabled_sources := disabled AND OTTERY_ENTROPY_ALL_SOURCES\<rparr>\<rparr>"

definition ottery_config_mark_entropy_sources_weak :: "ottery_config \<Rightarrow> u32 \<Rightarrow> ottery_config" where
  "ottery_config_mark_entropy_sources_weak cfg weak =
     cfg\<lparr>cfg_entropy := (cfg_entropy cfg)
       \<lparr>weak_sources := weak AND OTTERY_ENTROPY_ALL_SOURCES\<rparr>\<rparr>"

section \<open>Facts about the implementation table\<close>

text \<open>A PRF of the table that the CPU supports and that carries a name.\<close>

definition answers_to :: "'w os \<Rightarrow> build \<Rightarrow> u32 \<Rightarrow> string \<Rightarrow> ottery_prf \<Rightarrow> bool" where
  "answers_to os b dis s p \<longleftrightarrow> p \<in> set (ALL_PRFS b) \<and>
     required_cpucap p AND ottery_get_cpu_capabilities b os dis = required_cpucap p \<and>
     s \<in> {prf_name p, prf_impl p, prf_flav p}"

lemma ottery_get_impl_default: "\<exists>p. ottery_get_impl b os dis None = Some p"
proof (rule ccontr)
  assume "\<not> ?thesis"
  then have "find_impl (ottery_get_cpu_capabilities b os dis) None (ALL_PRFS b) = None"
    by (auto simp: ottery_get_impl_def)
  moreover have "ottery_prf_chacha20_merged \<in> set (ALL_PRFS b)"
    by (simp add: ALL_PRFS_def)
  ultimately show False
    unfolding find_impl_None_iff by (auto simp: ottery_prf_chacha20_merged_def)
qed

lemma ALL_PRFS_contract:
  assumes "p \<in> set (ALL_PRFS b)"
  shows "\<exists>F keyed. prf_contract p F keyed"
proof -
  have "p \<in> {ottery_prf_chacha8_merged, ottery_prf_chacha12_merged, ottery_prf_chacha20_merged} \<or>
    (\<exists>t. p \<in> {ottery_prf_chacha8_krovetz t, ottery_prf_chacha12_krovetz t,
              ottery_prf_chacha20_krovetz t})"
    using assms by (auto simp: ALL_PRFS_def split: option.splits)
  then show ?thesis
    using merged8.prf_contract_axioms merged12.prf_contract_axioms merged20.prf_contract_axioms
      krovetz8.prf_contract_axioms krovetz12.prf_contract_axioms krovetz20.prf_contract_axioms
    by blast
qed

lemma ottery_get_impl_contract:
  "ottery_get_impl b os dis impl = Some p \<Longrightarrow> \<exists>F keyed. prf_contract p F keyed"
  unfolding ottery_get_impl_def by (blast dest: find_impl_SomeD(1) ALL_PRFS_contract)

end
