(* ===== verification/Ottery_State.thy ===== *)
theory Ottery_State
  imports Ottery_Config
begin

text \<open>
  \<^verbatim>\<open>struct ottery_state\<close> and the generator core of \<^verbatim>\<open>src/ottery.c\<close>: block generation and
  rekeying, seeding, initialisation, wiping, and the checks before every request. A function
  that works on a state through a pointer takes the pointer's value \<open>self\<close> (the magic number
  depends on it) and the structure, and returns the new structure.

  The byte arrays of the structure are lists; \<open>pos\<close> is a 16-bit unsigned, \<open>block_counter\<close> a 32-bit
  word. \<open>'w env\<close> collects what every function can see: the build, the system, and the two
  static variables of the library, the mask of disabled CPU capabilities and the fatal
  error handler (\<open>None\<close> for the null pointer, which means \<^verbatim>\<open>abort()\<close>).
\<close>

section \<open>The state structure\<close>

record ottery_state =
  buffer :: bytes
  state_mem :: bytes
  st_prf :: ottery_prf
  block_counter :: u32
  magic :: u32
  pos :: nat
  pid :: int
  entropy_src_flags :: u32
  last_entropy_flags :: u32
  entropy_config :: ottery_entropy_config
  entropy_state :: ottery_entropy_state
  mutex :: bool

record 'w env =
  e_build :: build
  e_os :: "'w os"
  e_disabled :: u32
  e_handler :: "(u32 \<Rightarrow> 'w \<Rightarrow> 'w) option"

definition ottery_set_fatal_handler :: "'w env \<Rightarrow> (u32 \<Rightarrow> 'w \<Rightarrow> 'w) option \<Rightarrow> 'w env" where
  "ottery_set_fatal_handler e fn = e\<lparr>e_handler := fn\<rparr>"

definition ottery_fatal_error :: "'w env \<Rightarrow> u32 \<Rightarrow> 'w \<Rightarrow> 'w outcome" where
  "ottery_fatal_error e err w =
     (case e_handler e of Some handler \<Rightarrow> Ret (handler err w) | None \<Rightarrow> Abort err)"

text \<open>
  The structure after \<^verbatim>\<open>memset(st, 0, sizeof(*st))\<close>. Its PRF has null pointers for names and
  functions. No function of the library calls through them, since the magic number of a cleared
  structure is wrong; in builds without the initialisation check, where a call on a cleared
  structure jumps through a null pointer, the functions of \<open>null_prf\<close> do not stand for what happens.
\<close>

definition null_prf :: ottery_prf where
  "null_prf = \<lparr>prf_name = [], prf_impl = [], prf_flav = [], state_len = 0, state_bytes = 0,
     output_len = 0, required_cpucap = 0, setup_fn = (\<lambda>m _. m), generate_fn = (\<lambda>m out _. (m, out))\<rparr>"

definition zero_entropy_config :: ottery_entropy_config where
  "zero_entropy_config = \<lparr>urandom_fname = None, urandom_fd = 0, urandom_fd_is_set = False,
     egd_sockaddr = None, egd_socklen = 0, disabled_sources = 0, weak_sources = 0,
     allow_nondev_urandom = False\<rparr>"

definition zero_state :: ottery_state where
  "zero_state =
     \<lparr>buffer = replicate MAX_OUTPUT_LEN 0, state_mem = replicate MAX_STATE_LEN 0,
      st_prf = null_prf, block_counter = 0, magic = 0, pos = 0, pid = 0,
      entropy_src_flags = 0, last_entropy_flags = 0, entropy_config = zero_entropy_config,
      entropy_state = \<lparr>urandom_fd_inode = 0\<rparr>, mutex = False\<rparr>"

definition MAGIC_BASIS :: u32 where
  "MAGIC_BASIS = 0x11b07734"

definition MAGIC :: "u64 \<Rightarrow> u32" where
  "MAGIC ptr = ucast ptr XOR MAGIC_BASIS"

definition LOCK :: "build \<Rightarrow> ottery_state \<Rightarrow> ottery_state outcome" where
  "LOCK b st = obind (ACQUIRE_LOCK b (mutex st)) (\<lambda>m. Ret (st\<lparr>mutex := m\<rparr>))"

definition UNLOCK :: "build \<Rightarrow> ottery_state \<Rightarrow> ottery_state" where
  "UNLOCK b st = st\<lparr>mutex := RELEASE_LOCK b (mutex st)\<rparr>"

definition CLEARBUF :: "build \<Rightarrow> bytes \<Rightarrow> nat \<Rightarrow> nat \<Rightarrow> bytes" where
  "CLEARBUF b m off n = (if opt_no_clear_after_yield b then m else mem_clear m off n)"

section \<open>Generating blocks\<close>

definition ottery_st_nextblock_nolock_norekey :: "ottery_state \<Rightarrow> ottery_state" where
  "ottery_st_nextblock_nolock_norekey st =
     (let (mem, buf) = generate_fn (st_prf st) (state_mem st) (buffer st) (block_counter st)
      in st\<lparr>state_mem := mem, buffer := buf, block_counter := block_counter st + 1\<rparr>)"

definition ottery_st_nextblock_nolock :: "build \<Rightarrow> ottery_state \<Rightarrow> ottery_state" where
  "ottery_st_nextblock_nolock b st =
     (let st = ottery_st_nextblock_nolock_norekey st;
          st = st\<lparr>state_mem := setup_fn (st_prf st) (state_mem st) (buffer st)\<rparr>;
          st = st\<lparr>buffer := CLEARBUF b (buffer st) 0 (state_bytes (st_prf st))\<rparr>
      in st\<lparr>block_counter := 0, pos := state_bytes (st_prf st)\<rparr>)"

section \<open>Adding seed\<close>

text \<open>\<^verbatim>\<open>for (i = 0; i < m; ++i) st->buffer[i] ^= seed[i];\<close>\<close>

definition xor_front :: "bytes \<Rightarrow> bytes \<Rightarrow> nat \<Rightarrow> bytes" where
  "xor_front buf seed m = map2 (XOR) (take m buf) (take m seed) @ drop m buf"

text \<open>One turn of the loop over the seed, with \<open>m\<close> bytes of it.\<close>

definition add_seed_block :: "ottery_state \<Rightarrow> bytes \<Rightarrow> nat \<Rightarrow> ottery_state" where
  "add_seed_block st seed m =
     (let st = ottery_st_nextblock_nolock_norekey st;
          st = st\<lparr>buffer := xor_front (buffer st) seed m\<rparr>
      in st\<lparr>state_mem := setup_fn (st_prf st) (state_mem st) (buffer st), block_counter := 0\<rparr>)"

text \<open>
  The loop never ends when \<^verbatim>\<open>state_bytes/2\<close> is zero, which the PRF checks of
  \<^verbatim>\<open>ottery_st_initialize\<close> do not exclude.
\<close>

partial_function (option) add_seed_loop ::
    "ottery_state \<Rightarrow> bytes \<Rightarrow> nat \<Rightarrow> ottery_state option" where
  "add_seed_loop st seed n =
     (if n = 0 then Some st
      else
        (let half = state_bytes (st_prf st) div 2;
             m = (if n > half then half else n)
         in add_seed_loop (add_seed_block st seed m) (drop m seed) (n - m)))"

definition add_seed_locked ::
    "build \<Rightarrow> ottery_state \<Rightarrow> bytes \<Rightarrow> nat \<Rightarrow> u32 \<Rightarrow> bool \<Rightarrow> 'w
      \<Rightarrow> (u32 \<times> ottery_state \<times> 'w) outcome" where
  "add_seed_locked b st seed n flags locking w =
     obind (if locking then LOCK b st else Ret st) (\<lambda>st.
     obind (of_loop (add_seed_loop st seed n)) (\<lambda>st.
       (let st = ottery_st_nextblock_nolock b st;
            st = st\<lparr>entropy_src_flags := entropy_src_flags st OR flags, last_entropy_flags := flags\<rparr>;
            st = (if locking then UNLOCK b st else st)
        in Ret (0, st, w))))"

definition stored_entropy_state :: "ottery_state \<Rightarrow> ottery_entropy_state option \<Rightarrow> ottery_state" where
  "stored_entropy_state st s = (case s of Some s \<Rightarrow> st\<lparr>entropy_state := s\<rparr> | None \<Rightarrow> st)"

text \<open>The call of \<^verbatim>\<open>ottery_get_entropy_\<close> on the configuration and cache of a state.\<close>

definition st_get_entropy ::
    "'w env \<Rightarrow> ottery_state \<Rightarrow> nat \<Rightarrow> 'w \<Rightarrow> 'w entropy_result" where
  "st_get_entropy e st buflen w =
     ottery_get_entropy (e_build e) (e_os e) (e_disabled e) (Some (entropy_config st))
       (Some (entropy_state st)) 0 (state_bytes (st_prf st)) buflen w"

definition ottery_st_add_seed_impl ::
    "'w env \<Rightarrow> u64 \<Rightarrow> ottery_state \<Rightarrow> bytes option \<Rightarrow> nat \<Rightarrow> bool \<Rightarrow> bool \<Rightarrow> 'w
      \<Rightarrow> (u32 \<times> ottery_state \<times> 'w) outcome" where
  "ottery_st_add_seed_impl e self st seed n locking check_magic w =
     (let b = e_build e in
      if \<not> opt_no_init_check b \<and> check_magic \<and> magic st \<noteq> MAGIC self
      then obind (ottery_fatal_error e OTTERY_ERR_STATE_INIT w)
             (\<lambda>w. Ret (OTTERY_ERR_STATE_INIT, st, w))
      else if seed = None \<or> n = 0
      then (let tmp_seed_len =
                  ottery_get_entropy_bufsize b (e_os e) (e_disabled e) (state_bytes (st_prf st))
            in if \<not> os_alloca_ok (e_os e) tmp_seed_len w
               then Ret (OTTERY_ERR_INIT_STRONG_RNG, st, w)
               else (let r = st_get_entropy e st tmp_seed_len w;
                         st = stored_entropy_state st (er_state r)
                     in if er_err r \<noteq> 0 then Ret (er_err r, st, er_world r)
                        else if er_buflen r < state_bytes (st_prf st)
                        then Ret (OTTERY_ERR_ACCESS_STRONG_RNG, st, er_world r)
                        else add_seed_locked b st (er_bytes r) (er_buflen r) (er_flags r)
                               locking (er_world r)))
      else add_seed_locked b st (the seed) n 0 locking w)"

definition ottery_st_add_seed ::
    "'w env \<Rightarrow> u64 \<Rightarrow> ottery_state \<Rightarrow> bytes option \<Rightarrow> nat \<Rightarrow> 'w
      \<Rightarrow> (u32 \<times> ottery_state \<times> 'w) outcome" where
  "ottery_st_add_seed e self st seed n w = ottery_st_add_seed_impl e self st seed n True True w"

definition ottery_st_add_seed_nolock ::
    "'w env \<Rightarrow> u64 \<Rightarrow> ottery_state \<Rightarrow> bytes option \<Rightarrow> nat \<Rightarrow> 'w
      \<Rightarrow> (u32 \<times> ottery_state \<times> 'w) outcome" where
  "ottery_st_add_seed_nolock e self st seed n w =
     ottery_st_add_seed_impl e self st seed n False True w"

section \<open>Seeding and initialisation\<close>

definition ottery_st_reseed ::
    "'w env \<Rightarrow> u64 \<Rightarrow> ottery_state \<Rightarrow> 'w \<Rightarrow> (u32 \<times> ottery_state \<times> 'w) outcome" where
  "ottery_st_reseed e self st w =
     (let b = e_build e;
          sb = state_bytes (st_prf st);
          buflen = ottery_get_entropy_bufsize b (e_os e) (e_disabled e) sb
      in if \<not> os_alloca_ok (e_os e) buflen w then Ret (OTTERY_ERR_INIT_STRONG_RNG, st, w)
         else
          (let r = st_get_entropy e st buflen w;
               st = stored_entropy_state st (er_state r);
               w = er_world r
           in if er_err r \<noteq> 0 then Ret (er_err r, st, w)
              else if er_buflen r < sb then Ret (OTTERY_ERR_ACCESS_STRONG_RNG, st, w)
              else
               (let st = st\<lparr>state_mem := setup_fn (st_prf st) (state_mem st) (er_bytes r)\<rparr>
                in obind (if er_buflen r > sb
                          then ottery_st_add_seed_impl e self st (Some (drop sb (er_bytes r)))
                                 (er_buflen r - sb) False False w
                          else Ret (0, st, w)) (\<lambda>(_, st, w).
                   let st = st\<lparr>last_entropy_flags := er_flags r, entropy_src_flags := er_flags r,
                              block_counter := 0\<rparr>
                   in Ret (0, ottery_st_nextblock_nolock b st, w)))))"

definition blank_config :: ottery_config where
  "blank_config = \<lparr>cfg_impl = None, cfg_entropy = zero_entropy_config\<rparr>"

definition ottery_st_initialize ::
    "'w env \<Rightarrow> u64 \<Rightarrow> ottery_state \<Rightarrow> ottery_config option \<Rightarrow> bool \<Rightarrow> 'w
      \<Rightarrow> (u32 \<times> ottery_state \<times> 'w) outcome" where
  "ottery_st_initialize e self st config locked w =
     (let b = e_build e in
      if self AND 0xF \<noteq> 0 then Ret (OTTERY_ERR_STATE_ALIGNMENT, st, w)
      else
       (let config = (case config of Some c \<Rightarrow> c | None \<Rightarrow> snd (ottery_config_init blank_config));
            prf = (case cfg_impl config of Some p \<Rightarrow> Some p
                   | None \<Rightarrow> ottery_get_impl b (e_os e) (e_disabled e) None);
            st = zero_state;
            (lock_failed, w) = (if locked then INIT_LOCK b (e_os e) w else (False, w))
        in if lock_failed then Ret (OTTERY_ERR_LOCK_INIT, st, w)
           else case prf of None \<Rightarrow> Crash
           | Some p \<Rightarrow>
                 (if state_len p > MAX_STATE_LEN \<or> state_bytes p > MAX_STATE_BYTES \<or>
                          state_bytes p > output_len p \<or> output_len p > MAX_OUTPUT_LEN
                  then Ret (OTTERY_ERR_INTERNAL, st, w)
                  else if sizeof_state b > OTTERY_STATE_DUMMY_SIZE \<or>
                          sizeof_config b > OTTERY_CONFIG_DUMMY_SIZE
                  then Ret (OTTERY_ERR_INTERNAL, st, w)
                  else
                   (let st = st\<lparr>entropy_config := cfg_entropy config, st_prf := p\<rparr>
                    in obind (ottery_st_reseed e self st w) (\<lambda>(err, st, w).
                       if err \<noteq> 0 then Ret (err, st, w)
                       else Ret (0, st\<lparr>magic := MAGIC self, pid := os_getpid (e_os e) w\<rparr>, w))))))"

definition ottery_st_init ::
    "'w env \<Rightarrow> u64 \<Rightarrow> ottery_state \<Rightarrow> ottery_config option \<Rightarrow> 'w
      \<Rightarrow> (u32 \<times> ottery_state \<times> 'w) outcome" where
  "ottery_st_init e self st cfg w = ottery_st_initialize e self st cfg True w"

definition ottery_st_init_nolock ::
    "'w env \<Rightarrow> u64 \<Rightarrow> ottery_state \<Rightarrow> ottery_config option \<Rightarrow> 'w
      \<Rightarrow> (u32 \<times> ottery_state \<times> 'w) outcome" where
  "ottery_st_init_nolock e self st cfg w = ottery_st_initialize e self st cfg False w"

section \<open>Wiping, and clearing yielded bytes\<close>

text \<open>
  \<^verbatim>\<open>ottery_memclear_(st, sizeof(struct ottery_state))\<close> clears the arrays over their whole length and sets every other
  field to zero.
\<close>

definition ottery_st_wipe_nolock :: "ottery_state \<Rightarrow> ottery_state" where
  "ottery_st_wipe_nolock st =
     st\<lparr>buffer := mem_clear (buffer st) 0 MAX_OUTPUT_LEN, state_mem := mem_clear (state_mem st) 0 MAX_STATE_LEN,
        st_prf := null_prf, block_counter := 0, magic := 0, pos := 0, pid := 0,
        entropy_src_flags := 0, last_entropy_flags := 0, entropy_config := zero_entropy_config,
        entropy_state := \<lparr>urandom_fd_inode = 0\<rparr>, mutex := False\<rparr>"

definition ottery_st_wipe :: "build \<Rightarrow> ottery_state \<Rightarrow> ottery_state" where
  "ottery_st_wipe b st = ottery_st_wipe_nolock (st\<lparr>mutex := DESTROY_LOCK b (mutex st)\<rparr>)"

definition ottery_st_prevent_backtracking_nolock :: "build \<Rightarrow> ottery_state \<Rightarrow> ottery_state" where
  "ottery_st_prevent_backtracking_nolock b st =
     (if opt_no_clear_after_yield b then st\<lparr>buffer := mem_clear (buffer st) 0 (pos st)\<rparr> else st)"

definition ottery_st_prevent_backtracking :: "build \<Rightarrow> ottery_state \<Rightarrow> ottery_state outcome" where
  "ottery_st_prevent_backtracking b st =
     obind (LOCK b st) (\<lambda>st. Ret (UNLOCK b (ottery_st_prevent_backtracking_nolock b st)))"

section \<open>Checks before a request\<close>

text \<open>The C functions return zero to go on; here \<open>True\<close> is to go on.\<close>

definition ottery_st_rand_check_init ::
    "'w env \<Rightarrow> u64 \<Rightarrow> ottery_state \<Rightarrow> 'w \<Rightarrow> (bool \<times> 'w) outcome" where
  "ottery_st_rand_check_init e self st w =
     (if \<not> opt_no_init_check (e_build e) \<and> magic st \<noteq> MAGIC self
      then obind (ottery_fatal_error e OTTERY_ERR_STATE_INIT w) (\<lambda>w. Ret (False, w))
      else Ret (True, w))"

definition ottery_st_rand_check_pid ::
    "'w env \<Rightarrow> u64 \<Rightarrow> ottery_state \<Rightarrow> 'w \<Rightarrow> (bool \<times> ottery_state \<times> 'w) outcome" where
  "ottery_st_rand_check_pid e self st w =
     (if \<not> no_pid_check (e_build e) \<and> pid st \<noteq> os_getpid (e_os e) w
      then obind (ottery_st_reseed e self st w) (\<lambda>(err, st, w).
             if err \<noteq> 0
             then obind (ottery_fatal_error e (OTTERY_ERR_FLAG_POSTFORK_RESEED OR err) w)
                    (\<lambda>w. Ret (False, st, w))
             else Ret (True, st\<lparr>pid := os_getpid (e_os e) w\<rparr>, w))
      else Ret (True, st, w))"

definition ottery_st_rand_lock_and_check ::
    "'w env \<Rightarrow> u64 \<Rightarrow> ottery_state \<Rightarrow> 'w \<Rightarrow> (bool \<times> ottery_state \<times> 'w) outcome" where
  "ottery_st_rand_lock_and_check e self st w =
     obind (ottery_st_rand_check_init e self st w) (\<lambda>(ok, w).
       if \<not> ok then Ret (False, st, w)
       else obind (LOCK (e_build e) st) (\<lambda>st.
            obind (ottery_st_rand_check_pid e self st w) (\<lambda>(ok, st, w).
              if \<not> ok then Ret (False, UNLOCK (e_build e) st, w) else Ret (True, st, w))))"

definition ottery_st_rand_check_nolock ::
    "'w env \<Rightarrow> u64 \<Rightarrow> ottery_state \<Rightarrow> 'w \<Rightarrow> (bool \<times> ottery_state \<times> 'w) outcome" where
  "ottery_st_rand_check_nolock e self st w =
     obind (ottery_st_rand_check_init e self st w) (\<lambda>(ok, w).
       if \<not> ok then Ret (False, st, w)
       else obind (ottery_st_rand_check_pid e self st w) (\<lambda>(ok, st, w).
              if \<not> ok then Ret (False, st, w) else Ret (True, st, w)))"

end
