(* ===== verification/Ottery_Rand.thy ===== *)
theory Ottery_Rand
  imports Ottery_State
begin

text \<open>
  The functions of \<^verbatim>\<open>src/ottery.c\<close> that give random bytes and integers to the user. The bytes
  that C stores through the output pointer are the first component of the result, in the order
  of the stores. Sizes are natural numbers below $2^{64}$ (\<^verbatim>\<open>size_t\<close>); sums and differences wrap
  the way the C types do. A random integer is read from the buffer with the byte order of a
  little-endian machine.
\<close>

section \<open>Random bytes\<close>

definition ottery_st_rand_bytes_from_buf ::
    "build \<Rightarrow> ottery_state \<Rightarrow> nat \<Rightarrow> (bytes \<times> ottery_state) outcome" where
  "ottery_st_rand_bytes_from_buf b st n =
     (if add64 n (pos st) < output_len (st_prf st)
      then (let out = mem_read (buffer st) (pos st) n;
                st = st\<lparr>buffer := CLEARBUF b (buffer st) (pos st) n\<rparr>
            in Ret (out, st\<lparr>pos := add16 (pos st) n\<rparr>))
      else (let cpy = sub32 (output_len (st_prf st)) (pos st);
                out = mem_read (buffer st) (pos st) cpy;
                n = sub64 n cpy;
                st = ottery_st_nextblock_nolock b st;
                out = out @ mem_read (buffer st) (pos st) n;
                st = st\<lparr>buffer := CLEARBUF b (buffer st) 0 n\<rparr>;
                st = st\<lparr>pos := add16 (pos st) n\<rparr>
            in if \<not> ndebug b \<and> \<not> pos st < output_len (st_prf st) then Crash
               else Ret (out, st)))"

text \<open>The loop over whole blocks; it would not end for a PRF with empty output.\<close>

partial_function (option) rand_blocks_loop ::
    "ottery_state \<Rightarrow> nat \<Rightarrow> bytes \<Rightarrow> (bytes \<times> nat \<times> ottery_state) option" where
  "rand_blocks_loop st n out =
     (if output_len (st_prf st) \<le> n
      then (let st = ottery_st_nextblock_nolock_norekey st;
                out = out @ mem_read (buffer st) 0 (output_len (st_prf st))
            in rand_blocks_loop st (n - output_len (st_prf st)) out)
      else Some (out, n, st))"

definition ottery_st_rand_bytes_impl ::
    "build \<Rightarrow> ottery_state \<Rightarrow> nat \<Rightarrow> (bytes \<times> ottery_state) outcome" where
  "ottery_st_rand_bytes_impl b st n =
     (if add64 n (pos st) <
           sub32 (sub32 (mul32 (output_len (st_prf st)) 2) (state_bytes (st_prf st))) 1
      then ottery_st_rand_bytes_from_buf b st n
      else (let cpy = sub32 (output_len (st_prf st)) (pos st);
                out = mem_read (buffer st) (pos st) cpy
            in obind (of_loop (rand_blocks_loop st (sub64 n cpy) out)) (\<lambda>(out, n, st).
               obind (ottery_st_rand_bytes_from_buf b (ottery_st_nextblock_nolock b st) n)
                 (\<lambda>(last, st). Ret (out @ last, st)))))"

text \<open>\<open>None\<close> for the output says that the function returned without storing anything.\<close>

definition ottery_st_rand_bytes ::
    "'w env \<Rightarrow> u64 \<Rightarrow> ottery_state \<Rightarrow> nat \<Rightarrow> 'w \<Rightarrow> (bytes option \<times> ottery_state \<times> 'w) outcome" where
  "ottery_st_rand_bytes e self st n w =
     obind (ottery_st_rand_lock_and_check e self st w) (\<lambda>(ok, st, w).
       if \<not> ok then Ret (None, st, w)
       else obind (ottery_st_rand_bytes_impl (e_build e) st n) (\<lambda>(out, st).
            Ret (Some out, UNLOCK (e_build e) st, w)))"

definition ottery_st_rand_bytes_nolock ::
    "'w env \<Rightarrow> u64 \<Rightarrow> ottery_state \<Rightarrow> nat \<Rightarrow> 'w \<Rightarrow> (bytes option \<times> ottery_state \<times> 'w) outcome" where
  "ottery_st_rand_bytes_nolock e self st n w =
     obind (ottery_st_rand_check_nolock e self st w) (\<lambda>(ok, st, w).
       if \<not> ok then Ret (None, st, w)
       else obind (ottery_st_rand_bytes_impl (e_build e) st n) (\<lambda>(out, st). Ret (Some out, st, w)))"

section \<open>Random integers\<close>

text \<open>
  The macro \<^verbatim>\<open>OTTERY_RETURN_RAND_INTTYPE_IMPL\<close> for an integer type of \<open>k\<close> bytes, with the
  bytes of the integer; and the locking and non-locking macros around it, whose \<^verbatim>\<open>return\<close> of a
  zero integer is \<open>None\<close> here.
\<close>

definition RAND_INTTYPE_IMPL :: "build \<Rightarrow> nat \<Rightarrow> ottery_state \<Rightarrow> bytes \<times> ottery_state" where
  "RAND_INTTYPE_IMPL b k st =
     (if add64 k (pos st) \<le> output_len (st_prf st)
      then (let result = mem_read (buffer st) (pos st) k;
                st = st\<lparr>buffer := CLEARBUF b (buffer st) (pos st) k\<rparr>;
                st = st\<lparr>pos := add16 (pos st) k\<rparr>
            in (result, if pos st = output_len (st_prf st)
                        then ottery_st_nextblock_nolock b st else st))
      else (let st = ottery_st_nextblock_nolock b st;
                result = mem_read (buffer st) (pos st) k;
                st = st\<lparr>buffer := CLEARBUF b (buffer st) 0 k\<rparr>
            in (result, st\<lparr>pos := add16 (pos st) k\<rparr>)))"

definition RAND_INTTYPE ::
    "'w env \<Rightarrow> u64 \<Rightarrow> nat \<Rightarrow> ottery_state \<Rightarrow> 'w \<Rightarrow> (bytes option \<times> ottery_state \<times> 'w) outcome" where
  "RAND_INTTYPE e self k st w =
     obind (ottery_st_rand_lock_and_check e self st w) (\<lambda>(ok, st, w).
       if \<not> ok then Ret (None, st, w)
       else case RAND_INTTYPE_IMPL (e_build e) k st of
              (result, st) \<Rightarrow> Ret (Some result, UNLOCK (e_build e) st, w))"

definition RAND_INTTYPE_NOLOCK ::
    "'w env \<Rightarrow> u64 \<Rightarrow> nat \<Rightarrow> ottery_state \<Rightarrow> 'w \<Rightarrow> (bytes option \<times> ottery_state \<times> 'w) outcome" where
  "RAND_INTTYPE_NOLOCK e self k st w =
     obind (ottery_st_rand_check_nolock e self st w) (\<lambda>(ok, st, w).
       if \<not> ok then Ret (None, st, w)
       else case RAND_INTTYPE_IMPL (e_build e) k st of (result, st) \<Rightarrow> Ret (Some result, st, w))"

definition to_int :: "(bytes option \<times> 's) outcome \<Rightarrow> ('a::len word \<times> 's) outcome" where
  "to_int r = obind r (\<lambda>(result, s). Ret (case result of Some bs \<Rightarrow> le_word bs | None \<Rightarrow> 0, s))"

definition ottery_st_rand_unsigned ::
    "'w env \<Rightarrow> u64 \<Rightarrow> ottery_state \<Rightarrow> 'w \<Rightarrow> (u32 \<times> ottery_state \<times> 'w) outcome" where
  "ottery_st_rand_unsigned e self st w = to_int (RAND_INTTYPE e self 4 st w)"

definition ottery_st_rand_unsigned_nolock ::
    "'w env \<Rightarrow> u64 \<Rightarrow> ottery_state \<Rightarrow> 'w \<Rightarrow> (u32 \<times> ottery_state \<times> 'w) outcome" where
  "ottery_st_rand_unsigned_nolock e self st w = to_int (RAND_INTTYPE_NOLOCK e self 4 st w)"

definition ottery_st_rand_uint32 ::
    "'w env \<Rightarrow> u64 \<Rightarrow> ottery_state \<Rightarrow> 'w \<Rightarrow> (u32 \<times> ottery_state \<times> 'w) outcome" where
  "ottery_st_rand_uint32 e self st w = to_int (RAND_INTTYPE e self 4 st w)"

definition ottery_st_rand_uint32_nolock ::
    "'w env \<Rightarrow> u64 \<Rightarrow> ottery_state \<Rightarrow> 'w \<Rightarrow> (u32 \<times> ottery_state \<times> 'w) outcome" where
  "ottery_st_rand_uint32_nolock e self st w = to_int (RAND_INTTYPE_NOLOCK e self 4 st w)"

definition ottery_st_rand_uint64 ::
    "'w env \<Rightarrow> u64 \<Rightarrow> ottery_state \<Rightarrow> 'w \<Rightarrow> (u64 \<times> ottery_state \<times> 'w) outcome" where
  "ottery_st_rand_uint64 e self st w = to_int (RAND_INTTYPE e self 8 st w)"

definition ottery_st_rand_uint64_nolock ::
    "'w env \<Rightarrow> u64 \<Rightarrow> ottery_state \<Rightarrow> 'w \<Rightarrow> (u64 \<times> ottery_state \<times> 'w) outcome" where
  "ottery_st_rand_uint64_nolock e self st w = to_int (RAND_INTTYPE_NOLOCK e self 8 st w)"

section \<open>Random integers in a range\<close>

text \<open>
  The divisor and the rejection loop are the same for \<^verbatim>\<open>unsigned\<close> and \<^verbatim>\<open>uint64_t\<close>; the loop
  takes the function that draws an integer. The largest integer of the type is \<open>- 1\<close>.
\<close>

definition range_divisor :: "'a::len word \<Rightarrow> 'a word" where
  "range_divisor upper = (let lim = upper + 1 in if lim \<noteq> 0 then (- 1) div lim else 1)"

partial_function (option) range_loop ::
    "('s \<Rightarrow> ('a::len word \<times> 's) outcome) \<Rightarrow> 'a word \<Rightarrow> 'a word \<Rightarrow> 's
      \<Rightarrow> ('a word \<times> 's) outcome option" where
  "range_loop draw divisor upper s =
     (case draw s of
        Ret r \<Rightarrow> (if fst r div divisor > upper then range_loop draw divisor upper (snd r)
                  else Some (Ret (fst r div divisor, snd r)))
      | Abort err \<Rightarrow> Some (Abort err)
      | Crash \<Rightarrow> Some Crash
      | Hang \<Rightarrow> Some Hang)"

definition run_loop :: "'a outcome option \<Rightarrow> 'a outcome" where
  "run_loop r = (case r of None \<Rightarrow> Hang | Some r \<Rightarrow> r)"

definition ottery_st_rand_range_nolock ::
    "'w env \<Rightarrow> u64 \<Rightarrow> ottery_state \<Rightarrow> u32 \<Rightarrow> 'w \<Rightarrow> (u32 \<times> ottery_state \<times> 'w) outcome" where
  "ottery_st_rand_range_nolock e self st upper w =
     run_loop (range_loop (\<lambda>(st, w). ottery_st_rand_unsigned_nolock e self st w)
       (range_divisor upper) upper (st, w))"

definition ottery_st_rand_range64_nolock ::
    "'w env \<Rightarrow> u64 \<Rightarrow> ottery_state \<Rightarrow> u64 \<Rightarrow> 'w \<Rightarrow> (u64 \<times> ottery_state \<times> 'w) outcome" where
  "ottery_st_rand_range64_nolock e self st upper w =
     run_loop (range_loop (\<lambda>(st, w). ottery_st_rand_uint64_nolock e self st w)
       (range_divisor upper) upper (st, w))"

definition ottery_st_rand_range ::
    "'w env \<Rightarrow> u64 \<Rightarrow> ottery_state \<Rightarrow> u32 \<Rightarrow> 'w \<Rightarrow> (u32 \<times> ottery_state \<times> 'w) outcome" where
  "ottery_st_rand_range e self st upper w =
     obind (ottery_st_rand_check_init e self st w) (\<lambda>(ok, w).
       if \<not> ok then Ret (0, st, w)
       else obind (LOCK (e_build e) st) (\<lambda>st.
            obind (ottery_st_rand_range_nolock e self st upper w) (\<lambda>(n, st, w).
              Ret (n, UNLOCK (e_build e) st, w))))"

definition ottery_st_rand_range64 ::
    "'w env \<Rightarrow> u64 \<Rightarrow> ottery_state \<Rightarrow> u64 \<Rightarrow> 'w \<Rightarrow> (u64 \<times> ottery_state \<times> 'w) outcome" where
  "ottery_st_rand_range64 e self st upper w =
     obind (ottery_st_rand_check_init e self st w) (\<lambda>(ok, w).
       if \<not> ok then Ret (0, st, w)
       else obind (LOCK (e_build e) st) (\<lambda>st.
            obind (ottery_st_rand_range64_nolock e self st upper w) (\<lambda>(n, st, w).
              Ret (n, UNLOCK (e_build e) st, w))))"

end
