(* ===== verification/Prng_Spec.thy ===== *)
theory Prng_Spec
  imports Ottery_Prf
begin

text \<open>
  The reference generator: the PRNG that the code implements, over an arbitrary function \<open>F\<close> of key and
  block index. Its state is a key and the bytes not yet given out. It is modelled on the PRNG layer of
  \<^verbatim>\<open>doc/specification.txt\<close>, but where the code and the document differ it follows the code; \<open>Prng_Document\<close>
  has the document's own operations and shows where the two agree and where not. A request for bytes is
  stated without a case distinction between small and big requests: what is left in the buffer is followed
  by whole blocks under the old key, the next block is split into the new key and the new buffer, and the
  rest is asked of that state.
\<close>

type_synonym prng = "bytes \<times> bytes"

definition spec_stir_at :: "(bytes \<Rightarrow> u32 \<Rightarrow> bytes) \<Rightarrow> nat \<Rightarrow> bytes \<Rightarrow> nat \<Rightarrow> prng" where
  "spec_stir_at F kl key i = (take kl (F key (of_nat i)), drop kl (F key (of_nat i)))"

definition spec_stir :: "(bytes \<Rightarrow> u32 \<Rightarrow> bytes) \<Rightarrow> nat \<Rightarrow> bytes \<Rightarrow> prng" where
  "spec_stir F kl key = spec_stir_at F kl key 0"

definition spec_remove :: "nat \<Rightarrow> prng \<Rightarrow> bytes \<times> prng" where
  "spec_remove n s = (take n (snd s), (fst s, drop n (snd s)))"

definition spec_blocks :: "(bytes \<Rightarrow> u32 \<Rightarrow> bytes) \<Rightarrow> bytes \<Rightarrow> nat \<Rightarrow> bytes" where
  "spec_blocks F key q = concat (map (\<lambda>i. F key (of_nat i)) [0..<q])"

text \<open>A small request takes from the buffer and at most one fresh buffer.\<close>

definition spec_small :: "(bytes \<Rightarrow> u32 \<Rightarrow> bytes) \<Rightarrow> nat \<Rightarrow> nat \<Rightarrow> prng \<Rightarrow> bytes \<times> prng" where
  "spec_small F kl n s =
     (if n < length (snd s) then spec_remove n s
      else (let (out, s') = spec_remove (n - length (snd s)) (spec_stir F kl (fst s))
            in (snd s @ out, s')))"

text \<open>Any request; \<open>ol\<close> is the block length.\<close>

definition spec_get :: "(bytes \<Rightarrow> u32 \<Rightarrow> bytes) \<Rightarrow> nat \<Rightarrow> nat \<Rightarrow> nat \<Rightarrow> prng \<Rightarrow> bytes \<times> prng" where
  "spec_get F kl ol n s =
     (if n < length (snd s) then spec_remove n s
      else (let m = n - length (snd s);
                (out, s') = spec_small F kl (m mod ol) (spec_stir_at F kl (fst s) (m div ol))
            in (snd s @ spec_blocks F (fst s) (m div ol) @ out, s')))"

text \<open>A tiny request; a buffer that it empties is stirred at once, as the code does and the document does not.\<close>

definition spec_tiny :: "(bytes \<Rightarrow> u32 \<Rightarrow> bytes) \<Rightarrow> nat \<Rightarrow> nat \<Rightarrow> prng \<Rightarrow> bytes \<times> prng" where
  "spec_tiny F kl n s =
     (let s = (if length (snd s) < n then spec_stir F kl (fst s) else s);
          (out, s) = spec_remove n s
      in (out, if snd s = [] then spec_stir F kl (fst s) else s))"

text \<open>
  ``Add'': half a key of seed at a time is added to a key drawn from the current one. The
  seed is not padded: bytes beyond its end leave the drawn key as it is.
\<close>

definition spec_mix :: "(bytes \<Rightarrow> u32 \<Rightarrow> bytes) \<Rightarrow> nat \<Rightarrow> bytes \<Rightarrow> bytes \<Rightarrow> bytes" where
  "spec_mix F kl key y =
     (let x = take kl (F key 0) in map2 (XOR) (take (length y) x) y @ drop (length y) x)"

function spec_absorb :: "(bytes \<Rightarrow> u32 \<Rightarrow> bytes) \<Rightarrow> nat \<Rightarrow> bytes \<Rightarrow> bytes \<Rightarrow> bytes" where
  "spec_absorb F kl key seed =
     (if seed = [] \<or> kl div 2 = 0 then key
      else spec_absorb F kl (spec_mix F kl key (take (kl div 2) seed)) (drop (kl div 2) seed))"
  by pat_completeness auto
termination by (relation "measure (\<lambda>(F, kl, key, seed). length seed)") auto

declare spec_absorb.simps [simp del]

definition spec_add :: "(bytes \<Rightarrow> u32 \<Rightarrow> bytes) \<Rightarrow> nat \<Rightarrow> bytes \<Rightarrow> bytes \<Rightarrow> prng" where
  "spec_add F kl seed key = spec_stir F kl (spec_absorb F kl key seed)"

text \<open>
  ``Construct'' from the concatenated output of the entropy sources: the first \<open>kl\<close> bytes are
  the key and the rest is added. The document stirs once; the code stirs again after adding.
\<close>

definition spec_construct :: "(bytes \<Rightarrow> u32 \<Rightarrow> bytes) \<Rightarrow> nat \<Rightarrow> bytes \<Rightarrow> prng" where
  "spec_construct F kl seed =
     (let key = take kl seed; rest = drop kl seed
      in spec_stir F kl (if rest = [] then key else fst (spec_add F kl rest key)))"

section \<open>Facts about the reference generator\<close>

lemma spec_stir_lengths:
  "length (F key (of_nat i)) = ol \<Longrightarrow> kl \<le> ol \<Longrightarrow>
     length (fst (spec_stir_at F kl key i)) = kl \<and> length (snd (spec_stir_at F kl key i)) = ol - kl"
  by (simp add: spec_stir_at_def)

lemma length_spec_blocks:
  "(\<And>i. length (F key i) = ol) \<Longrightarrow> length (spec_blocks F key q) = q * ol"
  by (simp add: spec_blocks_def length_concat comp_def sum_list_triv)

lemma spec_blocks_Suc: "spec_blocks F key (Suc q) = spec_blocks F key q @ F key (of_nat q)"
  by (simp add: spec_blocks_def)

lemma length_spec_small:
  assumes "\<And>k i. length (F k i) = ol" "n \<le> length (snd s) + (ol - kl)"
  shows "length (fst (spec_small F kl n s)) = n"
  using assms
  by (auto simp: spec_small_def spec_remove_def spec_stir_def spec_stir_at_def split: prod.split)

lemma length_spec_get:
  assumes F: "\<And>k i. length (F k i) = ol" and kl: "2 * kl \<le> ol" "0 < kl"
  shows "length (fst (spec_get F kl ol n s)) = n"
proof (cases "n < length (snd s)")
  case True
  then show ?thesis by (simp add: spec_get_def spec_remove_def)
next
  case False
  define m where "m = n - length (snd s)"
  have "m mod ol \<le> ol - kl + (ol - kl)" using kl mod_less_divisor [of ol m] by linarith
  then have "length (fst (spec_small F kl (m mod ol) (spec_stir_at F kl k i))) = m mod ol" for k i
    using kl by (intro length_spec_small [where ol = ol]) (simp_all add: F spec_stir_at_def)
  moreover have "n = length (snd s) + (m div ol * ol + m mod ol)"
    using False by (simp add: m_def)
  ultimately show ?thesis
    using False by (simp add: spec_get_def m_def [symmetric] Let_def case_prod_unfold
        length_spec_blocks F)
qed

text \<open>Two requests in a row give the bytes of one, as long as no whole block is skipped.\<close>

lemma spec_get_split:
  assumes F: "\<And>k i. length (F k i) = ol" and n: "n1 + n2 < length (snd s) + (ol - kl)"
  shows "spec_get F kl ol (n1 + n2) s =
    (fst (spec_get F kl ol n1 s) @ fst (spec_get F kl ol n2 (snd (spec_get F kl ol n1 s))),
     snd (spec_get F kl ol n2 (snd (spec_get F kl ol n1 s))))"
proof -
  define t where "t = spec_stir_at F kl (fst s) 0"
  have t: "length (snd t) = ol - kl" by (simp add: t_def spec_stir_at_def F)
  have big: "spec_get F kl ol n s' = (snd s' @ take (n - length (snd s')) (snd t),
      (fst t, drop (n - length (snd s')) (snd t)))"
    if "length (snd s') \<le> n" "n - length (snd s') < ol - kl" "fst s' = fst s" for n s'
    using that t by (simp add: spec_get_def spec_small_def spec_remove_def spec_blocks_def t_def [symmetric] Let_def)
  consider "n1 + n2 < length (snd s)" | "n1 < length (snd s)" "length (snd s) \<le> n1 + n2" | "length (snd s) \<le> n1"
    by linarith
  then show ?thesis
  proof cases
    case 1
    then show ?thesis by (auto simp: spec_get_def spec_remove_def take_add add.commute)
  next
    case 2
    then have "spec_get F kl ol n1 s = (take n1 (snd s), (fst s, drop n1 (snd s)))"
      by (simp add: spec_get_def spec_remove_def)
    moreover have "n1 + n2 - length (snd s) < ol - kl" using n 2 by linarith
    ultimately show ?thesis
      using 2 big [of s "n1 + n2"] big [of "(fst s, drop n1 (snd s))" n2]
      by (simp add: add.commute [of n2])
  next
    case 3
    define a where "a = n1 - length (snd s)"
    have a: "n1 + n2 - length (snd s) = a + n2" using 3 by (simp add: a_def)
    have lt: "a + n2 < ol - kl" "a < ol - kl" "n2 < length (drop a (snd t))"
      using n 3 t by (simp_all add: a_def)
    have "spec_get F kl ol (n1 + n2) s = (snd s @ take (a + n2) (snd t), (fst t, drop (a + n2) (snd t)))"
      "spec_get F kl ol n1 s = (snd s @ take a (snd t), (fst t, drop a (snd t)))"
      using 3 lt big [of s "n1 + n2"] big [of s n1] by (simp_all add: a a_def [symmetric])
    moreover have "spec_get F kl ol n2 (fst t, drop a (snd t)) =
        (take n2 (drop a (snd t)), (fst t, drop n2 (drop a (snd t))))"
      using lt(3) by (simp add: spec_get_def spec_remove_def)
    ultimately show ?thesis by (simp add: take_add add.commute [of n2])
  qed
qed

text \<open>A small request is the general one; the case distinction saves no output.\<close>

lemma spec_small_eq_get:
  assumes F: "\<And>k i. length (F k i) = ol" and "n < length (snd s) + (ol - kl)"
  shows "spec_small F kl n s = spec_get F kl ol n s"
proof -
  have "n - length (snd s) < ol" if "\<not> n < length (snd s)"
    using assms(2) that by linarith
  moreover have "n - length (snd s) < length (snd (spec_stir_at F kl (fst s) 0))"
    if "\<not> n < length (snd s)"
    using assms(2) that by (simp add: spec_stir_at_def F)
  ultimately show ?thesis
    by (auto simp: spec_small_def spec_get_def Let_def spec_blocks_def spec_stir_def)
qed

end
