(* ===== verification/Prng_Refine.thy ===== *)
theory Prng_Refine
  imports Ottery_Rand Prng_Spec
begin

text \<open>
  The generator of \<^verbatim>\<open>src/ottery.c\<close> implements the PRNG of \<open>Prng_Spec\<close>, for every PRF that meets
  \<open>prf_contract\<close>. A state structure represents a PRNG state \<open>(K, BUF)\<close> when its PRF memory holds
  the key \<open>K\<close> and the bytes of its buffer from \<open>pos\<close> to the end of the block are \<open>BUF\<close>.

  \<open>mem_ok\<close> are the array sizes, \<open>generator_ok\<close> is the invariant between calls, and \<open>meta\<close> collects
  the fields that generating bytes leaves alone.
\<close>

definition mem_ok :: "ottery_state \<Rightarrow> bool" where
  "mem_ok st = (length (buffer st) = MAX_OUTPUT_LEN \<and> length (state_mem st) = MAX_STATE_LEN)"

definition generator_ok :: "ottery_state \<Rightarrow> bool" where
  "generator_ok st = (mem_ok st \<and> block_counter st = 0 \<and>
     state_bytes (st_prf st) \<le> pos st \<and> pos st < output_len (st_prf st))"

definition available :: "ottery_state \<Rightarrow> bytes" where
  "available st = mem_read (buffer st) (pos st) (output_len (st_prf st) - pos st)"

definition represents :: "(bytes \<Rightarrow> bytes \<Rightarrow> bool) \<Rightarrow> ottery_state \<Rightarrow> prng \<Rightarrow> bool" where
  "represents keyed st s =
     (generator_ok st \<and> keyed (state_mem st) (fst s) \<and> snd s = available st)"

definition meta where
  "meta st = (st_prf st, magic st, pid st, entropy_src_flags st, last_entropy_flags st,
     entropy_config st, entropy_state st, mutex st)"

lemma meta_norekey [simp]: "meta (ottery_st_nextblock_nolock_norekey st) = meta st"
  by (simp add: meta_def ottery_st_nextblock_nolock_norekey_def split: prod.split)

lemma meta_nextblock [simp]: "meta (ottery_st_nextblock_nolock b st) = meta st"
  using meta_norekey [of st] by (simp add: meta_def ottery_st_nextblock_nolock_def Let_def)

lemma meta_eqD:
  assumes "meta st = meta st'"
  shows "st_prf st = st_prf st'" "magic st = magic st'" "pid st = pid st'"
    "mutex st = mutex st'" "entropy_config st = entropy_config st'"
  using assms by (simp_all add: meta_def)

lemmas prf_norekey [simp] = meta_eqD(1) [OF meta_norekey]
lemmas prf_nextblock [simp] = meta_eqD(1) [OF meta_nextblock]

lemma length_CLEARBUF [simp, mem_simps]: "length (CLEARBUF b m off n) = length m"
  by (simp add: CLEARBUF_def)

lemma mem_read_CLEARBUF:
  "off + n \<le> k \<Longrightarrow> k \<le> length m \<Longrightarrow> mem_read (CLEARBUF b m off n) k l = mem_read m k l"
  by (simp add: CLEARBUF_def mem_read_def drop_mem_clear)

lemma mem_read_write_after:
  "length bs \<le> length m \<Longrightarrow> k \<le> length bs \<Longrightarrow>
     mem_read (mem_write m 0 bs) k (length bs - k) = drop k bs"
  by (simp add: mem_read_def mem_write_start)

section \<open>Block generation\<close>

context prf_contract
begin

lemma output_len_bounds:
  "output_len p \<le> 1024" "state_bytes p < output_len p" "0 < output_len p"
  using output_len_max output_len_min state_bytes_min by (simp_all add: max_defs)

lemma norekey_effect:
  assumes "st_prf st = p" "mem_ok st" "keyed (state_mem st) k"
  defines "st' \<equiv> ottery_st_nextblock_nolock_norekey st"
  shows "buffer st' = mem_write (buffer st) 0 (F k (block_counter st))"
    "keyed (state_mem st') k" "mem_ok st'" "block_counter st' = block_counter st + 1"
    "pos st' = pos st"
proof -
  have len: "length (state_mem st) = MAX_STATE_LEN" "output_len p \<le> length (buffer st)"
    using assms output_len_max by (simp_all add: mem_ok_def)
  obtain mem buf where g: "generate_fn p (state_mem st) (buffer st) (block_counter st) = (mem, buf)"
    by fastforce
  have "buf = mem_write (buffer st) 0 (F k (block_counter st))" "keyed mem k"
    "length mem = length (state_mem st)"
    using generate_out [OF len(1) assms(3) len(2), of "block_counter st"]
      generate_keyed [OF len(1) assms(3) len(2), of "block_counter st"]
      length_generate [of "state_mem st" "buffer st" "block_counter st"] g by simp_all
  then show "buffer st' = mem_write (buffer st) 0 (F k (block_counter st))"
    "keyed (state_mem st') k" "mem_ok st'" "block_counter st' = block_counter st + 1"
    "pos st' = pos st"
    using assms(1,2)
    by (simp_all add: st'_def ottery_st_nextblock_nolock_norekey_def g mem_ok_def)
qed

lemma nextblock_represents:
  assumes "st_prf st = p" "mem_ok st" "keyed (state_mem st) k" "block_counter st = of_nat i"
  shows "represents keyed (ottery_st_nextblock_nolock b st) (spec_stir_at F (state_bytes p) k i)"
proof -
  define s1 where "s1 = ottery_st_nextblock_nolock_norekey st"
  note s1 = norekey_effect [OF assms(1-3), folded s1_def]
  have p1: "st_prf s1 = p" using assms(1) by (simp add: s1_def)
  have len: "length (buffer s1) = MAX_OUTPUT_LEN" "length (state_mem s1) = MAX_STATE_LEN"
    using s1(3) by (simp_all add: mem_ok_def)
  have sb: "state_bytes p \<le> length (buffer s1)" "output_len p \<le> length (buffer st)"
    using len assms(2) output_len_max output_len_bounds by (auto simp: mem_ok_def)
  have buf: "take (state_bytes p) (buffer s1) = take (state_bytes p) (F k (of_nat i))"
    using s1(1) assms(4) sb output_len_bounds by (simp add: mem_write_start length_F)
  have "mem_read (buffer s1) (state_bytes p) (output_len p - state_bytes p)
      = drop (state_bytes p) (F k (of_nat i))"
    using mem_read_write_after [of "F k (of_nat i)" "buffer st" "state_bytes p"] s1(1) assms(4) sb
      output_len_bounds by (simp add: length_F)
  then have "available (ottery_st_nextblock_nolock b st) = drop (state_bytes p) (F k (of_nat i))"
    using p1 sb by (simp add: available_def ottery_st_nextblock_nolock_def s1_def [symmetric]
        Let_def mem_read_CLEARBUF)
  moreover have "keyed (setup_fn p (state_mem s1) (buffer s1)) (take (state_bytes p) (F k (of_nat i)))"
    using setup_keyed [OF len(2) sb(1)] buf by simp
  ultimately show ?thesis
    using p1 len output_len_bounds
    by (simp add: represents_def generator_ok_def mem_ok_def spec_stir_at_def
        ottery_st_nextblock_nolock_def s1_def [symmetric] Let_def length_setup)
qed

lemma stir_represents:
  assumes "st_prf st = p" "mem_ok st" "keyed (state_mem st) k" "block_counter st = 0"
  shows "represents keyed (ottery_st_nextblock_nolock b st) (spec_stir F (state_bytes p) k)"
  using nextblock_represents [OF assms(1-3), of 0] assms(4) by (simp add: spec_stir_def)

section \<open>Requests\<close>

lemma length_available: "generator_ok st \<Longrightarrow> st_prf st = p \<Longrightarrow> length (available st) = output_len p - pos st"
  using output_len_bounds by (simp add: generator_ok_def mem_ok_def available_def mem_read_def max_defs)

lemma represents_keep:
  assumes "represents keyed st s" "st_prf st = p" "n < length (snd s)"
    "buffer st' = CLEARBUF b (buffer st) off m" "off + m \<le> pos st + n" "pos st' = pos st + n"
    "state_mem st' = state_mem st" "block_counter st' = 0" "st_prf st' = p"
  shows "represents keyed st' (fst s, drop n (snd s))"
proof -
  have ok: "generator_ok st" and k: "keyed (state_mem st) (fst s)" and av: "snd s = available st"
    using assms(1) by (simp_all add: represents_def)
  have n: "n < output_len p - pos st"
    using assms(2,3) length_available [OF ok] by (simp add: av)
  have len: "length (buffer st) = 1024" using ok by (simp add: generator_ok_def mem_ok_def max_defs)
  then have "drop n (available st) = available st'"
    using assms n output_len_bounds
    by (simp add: available_def mem_read_CLEARBUF) (simp add: mem_read_def drop_take add.commute)
  then show ?thesis
    using ok k n len assms by (simp add: represents_def av generator_ok_def mem_ok_def max_defs)
qed

lemma available_prefix:
  "\<lbrakk>generator_ok st; st_prf st = p; n \<le> length (available st)\<rbrakk>
    \<Longrightarrow> mem_read (buffer st) (pos st) n = take n (available st)"
  using length_available [of st] by (simp add: available_def mem_read_def)

lemma represents_facts:
  assumes "represents keyed st s" "st_prf st = p"
  shows "generator_ok st" "keyed (state_mem st) (fst s)" "snd s = available st"
    "length (snd s) = output_len p - pos st" "pos st < output_len p" "block_counter st = 0"
    "mem_ok st"
  using assms length_available [of st] by (auto simp: represents_def generator_ok_def)

lemma from_buf_within:
  assumes rep: "represents keyed st s" and p: "st_prf st = p" and n: "n < length (snd s)"
  shows "\<exists>st'. ottery_st_rand_bytes_from_buf b st n = Ret (take n (snd s), st')
    \<and> represents keyed st' (fst s, drop n (snd s)) \<and> meta st' = meta st"
proof -
  note f = represents_facts [OF rep p]
  define st' where "st' = st\<lparr>buffer := CLEARBUF b (buffer st) (pos st) n, pos := pos st + n\<rparr>"
  have "represents keyed st' (fst s, drop n (snd s))"
    by (rule represents_keep [OF rep p n, where b = b and off = "pos st" and m = n])
       (simp_all add: st'_def p f)
  moreover have "n + pos st < output_len p" using n f by simp
  then have "ottery_st_rand_bytes_from_buf b st n = Ret (take n (snd s), st')"
    using n f output_len_bounds
    by (simp add: ottery_st_rand_bytes_from_buf_def p available_prefix add16_id add64_id st'_def)
  ultimately show ?thesis by (auto simp: st'_def meta_def)
qed

lemma from_buf_across:
  assumes rep: "represents keyed st s" and p: "st_prf st = p"
    and n: "n = length (snd s) + m" and m: "m < output_len p - state_bytes p"
    and t: "t = spec_stir F (state_bytes p) (fst s)"
  shows "\<exists>st'. ottery_st_rand_bytes_from_buf b st n = Ret (snd s @ take m (snd t), st')
    \<and> represents keyed st' (fst t, drop m (snd t)) \<and> meta st' = meta st
    \<and> (m \<le> state_bytes p \<longrightarrow> mem_read (buffer st') (state_bytes p) m = take m (snd t))"
proof -
  note f = represents_facts [OF rep p] and bnd = output_len_bounds
  define s1 where "s1 = ottery_st_nextblock_nolock b st"
  have r1: "represents keyed s1 t" and p1: "st_prf s1 = p" and pos1: "pos s1 = state_bytes p"
    using stir_represents [OF p f(7,2,6)]
    by (simp_all add: s1_def t p ottery_st_nextblock_nolock_def Let_def)
  note f1 = represents_facts [OF r1 p1]
  have mt: "m < length (snd t)" using m f1(4) pos1 by simp
  define st' where "st' = s1\<lparr>buffer := CLEARBUF b (buffer s1) 0 m, pos := pos s1 + m\<rparr>"
  have "represents keyed st' (fst t, drop m (snd t))"
    using f1(6) by (intro represents_keep [OF r1 p1 mt, where b = b and off = 0 and m = m])
       (simp_all add: st'_def p1)
  moreover have "sub64 n (output_len p - pos st) = m" "add64 n (pos st) = n + pos st"
    using n m f(4,5) bnd by (simp_all add: sub64_id add64_id)
  moreover have "mem_read (buffer s1) (state_bytes p) m = take m (snd t)"
    using available_prefix [OF f1(1) p1, of m] mt pos1 f1(3) by simp
  moreover have "state_bytes p + m < output_len p" using m by simp
  moreover have "m \<le> state_bytes p \<longrightarrow>
      mem_read (CLEARBUF b (buffer s1) 0 m) (state_bytes p) m = mem_read (buffer s1) (state_bytes p) m"
    using f1(7) bnd by (auto simp: mem_ok_def max_defs intro!: mem_read_CLEARBUF)
  ultimately show ?thesis
    using m n f bnd pos1 meta_nextblock [of b st]
    by (intro exI [of _ st'])
       (simp add: ottery_st_rand_bytes_from_buf_def p s1_def [symmetric] available_prefix
          p1 add16_id sub32_id st'_def Let_def, simp add: meta_def)
qed

text \<open>A request for no more than the buffer and one fresh buffer; the assertion holds.\<close>

lemma from_buf_represents:
  assumes rep: "represents keyed st s" and p: "st_prf st = p"
    and n: "n < length (snd s) + (output_len p - state_bytes p)"
  shows "\<exists>st'. ottery_st_rand_bytes_from_buf b st n = Ret (fst (spec_small F (state_bytes p) n s), st')
    \<and> represents keyed st' (snd (spec_small F (state_bytes p) n s)) \<and> meta st' = meta st"
proof (cases "n < length (snd s)")
  case True
  then show ?thesis
    using from_buf_within [OF rep p, of n b] by (simp add: spec_small_def spec_remove_def)
next
  case False
  then have "n = length (snd s) + (n - length (snd s))" "n - length (snd s) < output_len p - state_bytes p"
    using n by linarith+
  from from_buf_across [OF rep p this refl, of b] False show ?thesis
    by (auto simp: spec_small_def spec_remove_def)
qed

lemma rand_blocks_loop_run:
  assumes "st_prf st = p" "mem_ok st" "keyed (state_mem st) k" "block_counter st = of_nat i"
  shows "\<exists>st'. rand_blocks_loop st n out =
      Some (out @ concat (map (\<lambda>j. F k (of_nat j)) [i..<i + n div output_len p]), n mod output_len p, st')
    \<and> meta st' = meta st \<and> mem_ok st' \<and> keyed (state_mem st') k
    \<and> block_counter st' = of_nat (i + n div output_len p)"
  using assms
proof (induction n arbitrary: st i out rule: less_induct)
  case (less n)
  show ?case
  proof (cases "output_len p \<le> n")
    case False
    with less.prems show ?thesis by (subst rand_blocks_loop.simps) simp
  next
    case True
    define s1 where "s1 = ottery_st_nextblock_nolock_norekey st"
    note s1 = norekey_effect [OF less.prems(1-3), folded s1_def]
    have p1: "st_prf s1 = p" using less.prems(1) by (simp add: s1_def)
    have "n - output_len p < n" "block_counter s1 = of_nat (Suc i)"
      using True output_len_bounds s1(4) less.prems(4) by simp_all
    from less.IH [OF this(1) p1 s1(3,2) this(2)]
    obtain st' where st': "rand_blocks_loop s1 (n - output_len p) (out @ F k (of_nat i)) =
        Some ((out @ F k (of_nat i)) @ concat (map (\<lambda>j. F k (of_nat j))
          [Suc i..<Suc i + (n - output_len p) div output_len p]), (n - output_len p) mod output_len p, st')"
      "meta st' = meta s1" "mem_ok st'" "keyed (state_mem st') k"
      "block_counter st' = of_nat (Suc i + (n - output_len p) div output_len p)"
      by blast
    have "mem_read (buffer s1) 0 (output_len p) = F k (of_nat i)"
      using s1(1) less.prems(2,4) output_len_max
      by (simp add: mem_read_def mem_write_start length_F mem_ok_def)
    moreover have "n div output_len p = Suc ((n - output_len p) div output_len p)"
      using True output_len_bounds by (simp add: le_div_geq)
    ultimately show ?thesis
      using st' less.prems(1) True p1
      by (subst rand_blocks_loop.simps)
         (simp add: s1_def [symmetric] Let_def le_mod_geq upt_rec [of i], simp add: s1_def)
  qed
qed

text \<open>A request that goes beyond the buffer and the next one, served from whole blocks in between.\<close>

lemma rand_bytes_big:
  assumes rep: "represents keyed st s" and p: "st_prf st = p" and ge: "length (snd s) \<le> n"
  defines "m \<equiv> n - length (snd s)"
  shows "\<exists>s1 st'. rand_blocks_loop st m (snd s) =
      Some (snd s @ spec_blocks F (fst s) (m div output_len p), m mod output_len p, s1)
    \<and> ottery_st_rand_bytes_from_buf b (ottery_st_nextblock_nolock b s1) (m mod output_len p) =
        Ret (drop (length (snd s) + m div output_len p * output_len p)
          (fst (spec_get F (state_bytes p) (output_len p) n s)), st')
    \<and> fst (spec_get F (state_bytes p) (output_len p) n s) = snd s @ spec_blocks F (fst s) (m div output_len p)
        @ drop (length (snd s) + m div output_len p * output_len p) (fst (spec_get F (state_bytes p) (output_len p) n s))
    \<and> represents keyed st' (snd (spec_get F (state_bytes p) (output_len p) n s)) \<and> meta st' = meta st"
proof -
  note f = represents_facts [OF rep p] and bnd = output_len_bounds
  obtain s1 where s1: "rand_blocks_loop st m (snd s) =
      Some (snd s @ spec_blocks F (fst s) (m div output_len p), m mod output_len p, s1)"
    "meta s1 = meta st" "mem_ok s1" "keyed (state_mem s1) (fst s)"
    "block_counter s1 = of_nat (m div output_len p)"
    using rand_blocks_loop_run [OF p f(7,2), of 0 m "snd s"] f(6) by (auto simp: spec_blocks_def)
  have p1: "st_prf s1 = p" using meta_eqD(1) [OF s1(2)] p by simp
  define t where "t = spec_stir_at F (state_bytes p) (fst s) (m div output_len p)"
  have rt: "represents keyed (ottery_st_nextblock_nolock b s1) t"
    using nextblock_represents [OF p1 s1(3,4,5)] by (simp add: t_def)
  have "m mod output_len p < output_len p" using bnd by simp
  then have "m mod output_len p < length (snd t) + (output_len p - state_bytes p)"
    using output_len_min by (simp add: t_def spec_stir_at_def length_F)
  from from_buf_represents [OF rt _ this, of b] p1 s1(2)
  obtain st' where st': "ottery_st_rand_bytes_from_buf b (ottery_st_nextblock_nolock b s1)
        (m mod output_len p) = Ret (fst (spec_small F (state_bytes p) (m mod output_len p) t), st')"
      "represents keyed st' (snd (spec_small F (state_bytes p) (m mod output_len p) t))" "meta st' = meta st"
    by auto
  have "spec_get F (state_bytes p) (output_len p) n s =
      (snd s @ spec_blocks F (fst s) (m div output_len p)
         @ fst (spec_small F (state_bytes p) (m mod output_len p) t),
       snd (spec_small F (state_bytes p) (m mod output_len p) t))"
    using ge by (simp add: spec_get_def m_def [symmetric] t_def [symmetric] Let_def case_prod_unfold)
  then show ?thesis
    using s1(1) st' length_spec_blocks [of F "fst s" "output_len p" "m div output_len p"] length_F
    by (intro exI [of _ s1] exI [of _ st']) simp
qed

lemma rand_bytes_impl_represents:
  assumes rep: "represents keyed st s" and p: "st_prf st = p" and n: "n < 2 ^ 64 - 1024"
  shows "\<exists>st'. ottery_st_rand_bytes_impl b st n =
      Ret (fst (spec_get F (state_bytes p) (output_len p) n s), st')
    \<and> represents keyed st' (snd (spec_get F (state_bytes p) (output_len p) n s)) \<and> meta st' = meta st"
proof -
  note f = represents_facts [OF rep p] and bnd = output_len_bounds
  have cond: "add64 n (pos st) < sub32 (sub32 (mul32 (output_len p) 2) (state_bytes p)) 1
      \<longleftrightarrow> n + 1 < length (snd s) + (output_len p - state_bytes p)"
    using n f bnd output_len_min state_bytes_min by (simp add: add64_id sub32_id mul32_id) linarith
  show ?thesis
  proof (cases "n + 1 < length (snd s) + (output_len p - state_bytes p)")
    case True
    then show ?thesis
      using cond from_buf_represents [OF rep p, of n b] length_F
        spec_small_eq_get [of F "output_len p" n s "state_bytes p"]
      by (simp add: ottery_st_rand_bytes_impl_def p)
  next
    case False
    have ge: "length (snd s) \<le> n" using False bnd output_len_min state_bytes_min by linarith
    then have "sub64 n (output_len p - pos st) = n - length (snd s)" using f n by (simp add: sub64_id)
    moreover have "mem_read (buffer st) (pos st) (output_len p - pos st) = snd s"
      using f(3) by (simp add: available_def p)
    ultimately show ?thesis
      using False cond rand_bytes_big [OF rep p ge, of b] f(5) bnd
      by (auto simp: ottery_st_rand_bytes_impl_def p sub32_id)
  qed
qed

text \<open>
  Integers: a tiny request of at most eight bytes leaves bytes in the buffer, uses up the buffer, or
  needs a fresh one.
\<close>

lemma inttype_cond:
  assumes "represents keyed st s" "st_prf st = p" "k \<le> 1024"
  shows "add64 k (pos st) \<le> output_len p \<longleftrightarrow> k \<le> length (snd s)" "add64 k (pos st) = k + pos st"
  using assms(3) represents_facts [OF assms(1,2)] output_len_bounds by (auto simp: add64_id)

lemma inttype_within:
  fixes b
  assumes rep: "represents keyed st s" and p: "st_prf st = p" and k: "k < length (snd s)"
  defines "s1 \<equiv> st\<lparr>buffer := CLEARBUF b (buffer st) (pos st) k, pos := pos st + k\<rparr>"
  shows "RAND_INTTYPE_IMPL b k st = (take k (snd s), s1)" "represents keyed s1 (fst s, drop k (snd s))"
proof -
  note f = represents_facts [OF rep p] and bnd = output_len_bounds
  show "represents keyed s1 (fst s, drop k (snd s))"
    by (rule represents_keep [OF rep p k, where b = b and off = "pos st" and m = k])
       (simp_all add: s1_def p f)
  show "RAND_INTTYPE_IMPL b k st = (take k (snd s), s1)"
    using k f bnd available_prefix [OF f(1) p, of k] inttype_cond [OF rep p, of k]
    by (simp add: RAND_INTTYPE_IMPL_def p add16_id s1_def Let_def)
qed

lemma inttype_exact:
  fixes b
  assumes rep: "represents keyed st s" and p: "st_prf st = p" and k: "k = length (snd s)"
  defines "s1 \<equiv> st\<lparr>buffer := CLEARBUF b (buffer st) (pos st) k, pos := pos st + k\<rparr>"
  shows "RAND_INTTYPE_IMPL b k st = (snd s, ottery_st_nextblock_nolock b s1)"
    "represents keyed (ottery_st_nextblock_nolock b s1) (spec_stir F (state_bytes p) (fst s))"
proof -
  note f = represents_facts [OF rep p] and bnd = output_len_bounds
  show "represents keyed (ottery_st_nextblock_nolock b s1) (spec_stir F (state_bytes p) (fst s))"
    using f p by (intro stir_represents) (simp_all add: s1_def mem_ok_def)
  show "RAND_INTTYPE_IMPL b k st = (snd s, ottery_st_nextblock_nolock b s1)"
    using k f bnd available_prefix [OF f(1) p, of k] inttype_cond [OF rep p, of k]
    by (simp add: RAND_INTTYPE_IMPL_def p add16_id s1_def Let_def)
qed

lemma inttype_refill:
  fixes b
  assumes rep: "represents keyed st s" and p: "st_prf st = p" and k: "length (snd s) < k" "k \<le> 8"
  defines "s1 \<equiv> ottery_st_nextblock_nolock b st" and "t \<equiv> spec_stir F (state_bytes p) (fst s)"
  defines "s2 \<equiv> s1\<lparr>buffer := CLEARBUF b (buffer s1) 0 k, pos := pos s1 + k\<rparr>"
  shows "RAND_INTTYPE_IMPL b k st = (take k (snd t), s2)" "represents keyed s2 (fst t, drop k (snd t))"
    "k < length (snd t)"
proof -
  note f = represents_facts [OF rep p] and bnd = output_len_bounds
  have r1: "represents keyed s1 t" and p1: "st_prf s1 = p" and pos1: "pos s1 = state_bytes p"
    using stir_represents [OF p f(7,2,6)]
    by (simp_all add: s1_def t_def p ottery_st_nextblock_nolock_def Let_def)
  note f1 = represents_facts [OF r1 p1]
  show kt: "k < length (snd t)" using k f1(4) pos1 int_fits by simp
  show "represents keyed s2 (fst t, drop k (snd t))"
    using f1(6) by (intro represents_keep [OF r1 p1 kt, where b = b and off = 0 and m = k])
      (simp_all add: s2_def p1)
  show "RAND_INTTYPE_IMPL b k st = (take k (snd t), s2)"
    using inttype_cond [OF rep p, of k] available_prefix [OF f1(1) p1, of k] kt f1(3) pos1 k bnd int_fits
    by (simp add: RAND_INTTYPE_IMPL_def p s1_def [symmetric] add16_id s2_def Let_def)
qed

lemma inttype_represents:
  assumes rep: "represents keyed st s" and p: "st_prf st = p" and k: "0 < k" "k \<le> 8"
    and r: "RAND_INTTYPE_IMPL b k st = (out, st')"
  shows "out = fst (spec_tiny F (state_bytes p) k s)"
    "represents keyed st' (snd (spec_tiny F (state_bytes p) k s))" "meta st' = meta st"
proof -
  have "out = fst (spec_tiny F (state_bytes p) k s)
    \<and> represents keyed st' (snd (spec_tiny F (state_bytes p) k s)) \<and> meta st' = meta st"
  proof (cases k "length (snd s)" rule: linorder_cases)
    case less
    show ?thesis
      using less r inttype_within [OF rep p less, where b = b]
      by (auto simp: spec_tiny_def spec_remove_def Let_def meta_def)
  next
    case equal
    show ?thesis
      using equal r inttype_exact [OF rep p equal, where b = b]
      by (auto simp: spec_tiny_def spec_remove_def Let_def) (simp add: meta_def)
  next
    case greater
    show ?thesis
      using greater r inttype_refill(1,2) [OF rep p greater k(2), where b = b]
        inttype_refill(3) [OF rep p greater k(2)] meta_nextblock [of b st]
      by (auto simp: spec_tiny_def spec_remove_def Let_def meta_def)
  qed
  then show "out = fst (spec_tiny F (state_bytes p) k s)"
    "represents keyed st' (snd (spec_tiny F (state_bytes p) k s))" "meta st' = meta st"
    by simp_all
qed

section \<open>Adding seed\<close>

lemma take_xor_front:
  "m \<le> k \<Longrightarrow> k \<le> length buf \<Longrightarrow> length (take m sd) = m \<Longrightarrow>
     take k (xor_front buf sd m) =
       map2 (XOR) (take m (take k buf)) (take m sd) @ drop m (take k buf)"
  by (simp add: xor_front_def min_def drop_take)

lemma add_seed_block_mixes:
  assumes "st_prf st = p" "mem_ok st" "keyed (state_mem st) k" "block_counter st = 0"
    and m: "m \<le> state_bytes p" "m \<le> length seed"
  defines "st' \<equiv> add_seed_block st seed m"
  shows "keyed (state_mem st') (spec_mix F (state_bytes p) k (take m seed))"
    "st_prf st' = p" "mem_ok st'" "block_counter st' = 0" "meta st' = meta st"
proof -
  define s1 where "s1 = ottery_st_nextblock_nolock_norekey st"
  define buf where "buf = xor_front (buffer s1) seed m"
  note s1 = norekey_effect [OF assms(1-3), folded s1_def]
  have p1: "st_prf s1 = p" using assms(1) by (simp add: s1_def)
  have st': "st' = s1\<lparr>buffer := buf, state_mem := setup_fn p (state_mem s1) buf, block_counter := 0\<rparr>"
    by (simp add: st'_def add_seed_block_def s1_def [symmetric] p1 buf_def Let_def)
  have len: "length (buffer s1) = MAX_OUTPUT_LEN" "length (state_mem s1) = MAX_STATE_LEN"
    "state_bytes p \<le> MAX_OUTPUT_LEN" "output_len p \<le> length (buffer st)"
    using s1(3) assms(2) output_len_max output_len_bounds by (simp_all add: mem_ok_def)
  have lbuf: "length buf = MAX_OUTPUT_LEN"
    using len m by (simp add: buf_def xor_front_def)
  have "take (state_bytes p) (buffer s1) = take (state_bytes p) (F k 0)"
    using s1(1) assms(4) len output_len_bounds by (simp add: mem_write_start length_F)
  then have "take (state_bytes p) buf = spec_mix F (state_bytes p) k (take m seed)"
    using m len unfolding buf_def spec_mix_def by (subst take_xor_front) simp_all
  then show "keyed (state_mem st') (spec_mix F (state_bytes p) k (take m seed))"
    using setup_keyed [OF len(2), of buf] lbuf len by (simp add: st')
  show "st_prf st' = p" "mem_ok st'" "block_counter st' = 0"
    using p1 lbuf len by (simp_all add: st' mem_ok_def length_setup)
  show "meta st' = meta st" using meta_norekey [of st] by (simp add: st' s1_def meta_def)
qed

lemma add_seed_loop_absorbs:
  assumes "st_prf st = p" "mem_ok st" "keyed (state_mem st) k" "block_counter st = 0"
    and "n \<le> length seed"
  shows "\<exists>st'. add_seed_loop st seed n = Some st' \<and> meta st' = meta st \<and> mem_ok st'
    \<and> keyed (state_mem st') (spec_absorb F (state_bytes p) k (take n seed)) \<and> block_counter st' = 0"
  using assms
proof (induction n arbitrary: st k seed rule: less_induct)
  case (less n)
  show ?case
  proof (cases "n = 0")
    case True
    with less.prems show ?thesis
      by (subst add_seed_loop.simps) (simp add: spec_absorb.simps)
  next
    case False
    define half where "half = state_bytes p div 2"
    define m where "m = (if n > half then half else n)"
    have half: "0 < half" "half \<le> state_bytes p" using state_bytes_min by (simp_all add: half_def)
    have m: "n - m < n" "m \<le> state_bytes p" "m \<le> length seed" "n - m \<le> length (drop m seed)"
      using False half less.prems(5) by (simp_all add: m_def)
    note s1 = add_seed_block_mixes [OF less.prems(1-4) m(2,3)]
    have loop: "add_seed_loop st seed n = add_seed_loop (add_seed_block st seed m) (drop m seed) (n - m)"
      using False less.prems(1)
      by (subst add_seed_loop.simps) (simp add: half_def [symmetric] m_def [symmetric] Let_def)
    have "take (n - m) (drop m seed) = drop half (take n seed)" "take m seed = take half (take n seed)"
      by (auto simp: m_def drop_take min_def)
    then have "spec_absorb F (state_bytes p) k (take n seed) =
        spec_absorb F (state_bytes p) (spec_mix F (state_bytes p) k (take m seed))
          (take (n - m) (drop m seed))"
      using False half less.prems(5) by (subst spec_absorb.simps) (auto simp: half_def [symmetric])
    then show ?thesis
      using less.IH [OF m(1) s1(2,3,1,4) m(4)] s1(5) by (simp add: loop)
  qed
qed

end

end
