(* ===== verification/Ottery_Global.thy ===== *)
theory Ottery_Global
  imports Ottery_Rand
begin

text \<open>
  \<^verbatim>\<open>src/ottery_global.c\<close>: the functions without a state argument, which use one global state and
  initialise it with the default configuration on first use. \<open>GLOBAL\<close> is the address of that
  state. A function whose lazy initialisation fails calls the fatal error handler and, if that
  returns, gives the value the C macro \<^verbatim>\<open>CHECK_INIT\<close> is invoked with.
\<close>

record global =
  global_initialized :: bool
  global_state :: ottery_state

definition initial_global :: global where
  "initial_global = \<lparr>global_initialized = False, global_state = zero_state\<rparr>"

definition ottery_init ::
    "'w env \<Rightarrow> u64 \<Rightarrow> global \<Rightarrow> ottery_config option \<Rightarrow> 'w \<Rightarrow> (u32 \<times> global \<times> 'w) outcome" where
  "ottery_init e GLOBAL g cfg w =
     obind (ottery_st_init e GLOBAL (global_state g) cfg w) (\<lambda>(n, st, w).
       let g = g\<lparr>global_state := st\<rparr>;
           g = (if n = 0 then g\<lparr>global_initialized := True\<rparr> else g)
       in Ret (n, g, w))"

text \<open>The macro \<^verbatim>\<open>CHECK_INIT\<close> before the rest \<open>f\<close> of a function.\<close>

definition CHECK_INIT ::
    "'w env \<Rightarrow> u64 \<Rightarrow> global \<Rightarrow> 'w \<Rightarrow> 'a \<Rightarrow> (global \<Rightarrow> 'w \<Rightarrow> ('a \<times> global \<times> 'w) outcome)
      \<Rightarrow> ('a \<times> global \<times> 'w) outcome" where
  "CHECK_INIT e GLOBAL g w rv f =
     (if \<not> global_initialized g
      then obind (ottery_init e GLOBAL g None w) (\<lambda>(err, g, w).
             if err \<noteq> 0
             then obind (ottery_fatal_error e (OTTERY_ERR_FLAG_GLOBAL_PRNG_INIT OR err) w)
                    (\<lambda>w. Ret (rv, g, w))
             else f g w)
      else f g w)"

definition on_global :: "global \<Rightarrow> ('a \<times> ottery_state \<times> 'w) outcome \<Rightarrow> ('a \<times> global \<times> 'w) outcome" where
  "on_global g r = obind r (\<lambda>(a, st, w). Ret (a, g\<lparr>global_state := st\<rparr>, w))"

definition ottery_add_seed ::
    "'w env \<Rightarrow> u64 \<Rightarrow> global \<Rightarrow> bytes option \<Rightarrow> nat \<Rightarrow> 'w \<Rightarrow> (u32 \<times> global \<times> 'w) outcome" where
  "ottery_add_seed e GLOBAL g seed n w =
     CHECK_INIT e GLOBAL g w 0 (\<lambda>g w.
       on_global g (ottery_st_add_seed e GLOBAL (global_state g) seed n w))"

definition ottery_wipe :: "build \<Rightarrow> global \<Rightarrow> global" where
  "ottery_wipe b g =
     (if global_initialized g
      then let g = g\<lparr>global_initialized := False\<rparr>
           in g\<lparr>global_state := ottery_st_wipe b (global_state g)\<rparr>
      else g)"

definition ottery_prevent_backtracking ::
    "'w env \<Rightarrow> u64 \<Rightarrow> global \<Rightarrow> 'w \<Rightarrow> (unit \<times> global \<times> 'w) outcome" where
  "ottery_prevent_backtracking e GLOBAL g w =
     CHECK_INIT e GLOBAL g w () (\<lambda>g w.
       obind (ottery_st_prevent_backtracking (e_build e) (global_state g)) (\<lambda>st.
         Ret ((), g\<lparr>global_state := st\<rparr>, w)))"

definition ottery_rand_bytes ::
    "'w env \<Rightarrow> u64 \<Rightarrow> global \<Rightarrow> nat \<Rightarrow> 'w \<Rightarrow> (bytes option \<times> global \<times> 'w) outcome" where
  "ottery_rand_bytes e GLOBAL g n w =
     CHECK_INIT e GLOBAL g w None (\<lambda>g w.
       on_global g (ottery_st_rand_bytes e GLOBAL (global_state g) n w))"

definition ottery_rand_unsigned ::
    "'w env \<Rightarrow> u64 \<Rightarrow> global \<Rightarrow> 'w \<Rightarrow> (u32 \<times> global \<times> 'w) outcome" where
  "ottery_rand_unsigned e GLOBAL g w =
     CHECK_INIT e GLOBAL g w 0 (\<lambda>g w.
       on_global g (ottery_st_rand_unsigned e GLOBAL (global_state g) w))"

definition ottery_rand_uint32 ::
    "'w env \<Rightarrow> u64 \<Rightarrow> global \<Rightarrow> 'w \<Rightarrow> (u32 \<times> global \<times> 'w) outcome" where
  "ottery_rand_uint32 e GLOBAL g w =
     CHECK_INIT e GLOBAL g w 0 (\<lambda>g w.
       on_global g (ottery_st_rand_uint32 e GLOBAL (global_state g) w))"

definition ottery_rand_uint64 ::
    "'w env \<Rightarrow> u64 \<Rightarrow> global \<Rightarrow> 'w \<Rightarrow> (u64 \<times> global \<times> 'w) outcome" where
  "ottery_rand_uint64 e GLOBAL g w =
     CHECK_INIT e GLOBAL g w 0 (\<lambda>g w.
       on_global g (ottery_st_rand_uint64 e GLOBAL (global_state g) w))"

definition ottery_rand_range ::
    "'w env \<Rightarrow> u64 \<Rightarrow> global \<Rightarrow> u32 \<Rightarrow> 'w \<Rightarrow> (u32 \<times> global \<times> 'w) outcome" where
  "ottery_rand_range e GLOBAL g upper w =
     CHECK_INIT e GLOBAL g w 0 (\<lambda>g w.
       on_global g (ottery_st_rand_range e GLOBAL (global_state g) upper w))"

definition ottery_rand_range64 ::
    "'w env \<Rightarrow> u64 \<Rightarrow> global \<Rightarrow> u64 \<Rightarrow> 'w \<Rightarrow> (u64 \<times> global \<times> 'w) outcome" where
  "ottery_rand_range64 e GLOBAL g upper w =
     CHECK_INIT e GLOBAL g w 0 (\<lambda>g w.
       on_global g (ottery_st_rand_range64 e GLOBAL (global_state g) upper w))"

end
