(* ===== verification/Prng_Seeding.thy ===== *)
theory Prng_Seeding
  imports Prng_Refine Ottery_Global
begin

text \<open>
  Seeding, initialisation and the checks before a request, against the reference generator. The first
  part holds for every PRF that meets \<open>prf_contract\<close>.
\<close>

definition lock_free :: "build \<Rightarrow> ottery_state \<Rightarrow> bool" where
  "lock_free b st = (no_locks b \<or> \<not> mutex st)"

lemma LOCK_free: "lock_free b st \<Longrightarrow> LOCK b st = Ret (st\<lparr>mutex := \<not> no_locks b \<or> mutex st\<rparr>)"
  by (auto simp: lock_free_def LOCK_def ACQUIRE_LOCK_def)

lemma LOCK_held: "\<not> lock_free b st \<Longrightarrow> LOCK b st = Hang"
  by (simp add: lock_free_def LOCK_def ACQUIRE_LOCK_def)

lemma represents_mutex [simp]:
  "represents keyed (st\<lparr>mutex := m\<rparr>) s = represents keyed st s"
  by (simp add: represents_def generator_ok_def mem_ok_def available_def)

lemma represents_flags [simp]:
  "represents keyed (st\<lparr>entropy_src_flags := f, last_entropy_flags := g\<rparr>) s = represents keyed st s"
  by (simp add: represents_def generator_ok_def mem_ok_def available_def)

lemma represents_ids [simp]:
  "represents keyed (st\<lparr>magic := m\<rparr>) s = represents keyed st s"
  "represents keyed (st\<lparr>pid := i\<rparr>) s = represents keyed st s"
  by (simp_all add: represents_def generator_ok_def mem_ok_def available_def)

lemma stored_entropy_state_simps [simp]:
  "st_prf (stored_entropy_state st s) = st_prf st"
  "mem_ok (stored_entropy_state st s) = mem_ok st"
  "state_mem (stored_entropy_state st s) = state_mem st"
  "block_counter (stored_entropy_state st s) = block_counter st"
  "magic (stored_entropy_state st s) = magic st"
  "pid (stored_entropy_state st s) = pid st"
  "mutex (stored_entropy_state st s) = mutex st"
  "entropy_config (stored_entropy_state st s) = entropy_config st"
  "entropy_src_flags (stored_entropy_state st s) = entropy_src_flags st"
  "represents keyed (stored_entropy_state st s) t = represents keyed st t"
  by (auto simp: stored_entropy_state_def mem_ok_def represents_def generator_ok_def available_def
      split: option.split)

context prf_contract
begin

lemma add_seed_locked_represents:
  assumes "st_prf st = p" "mem_ok st" "keyed (state_mem st) k" "block_counter st = 0"
    and n: "n \<le> length seed" and free: "locking \<longrightarrow> lock_free b st"
  shows "\<exists>st'. add_seed_locked b st seed n flags locking w = Ret (0, st', w)
    \<and> represents keyed st' (spec_add F (state_bytes p) (take n seed) k)
    \<and> meta st' = meta (st\<lparr>entropy_src_flags := entropy_src_flags st OR flags, last_entropy_flags := flags\<rparr>)"
proof -
  define s1 where "s1 = (if locking then st\<lparr>mutex := \<not> no_locks b \<or> mutex st\<rparr> else st)"
  have s1: "(if locking then LOCK b st else Ret st) = Ret s1"
    using free by (simp add: s1_def LOCK_free)
  have f1: "st_prf s1 = p" "mem_ok s1" "keyed (state_mem s1) k" "block_counter s1 = 0"
    using assms(1-4) by (simp_all add: s1_def mem_ok_def)
  obtain s2 where s2: "add_seed_loop s1 seed n = Some s2" "meta s2 = meta s1" "mem_ok s2"
    "keyed (state_mem s2) (spec_absorb F (state_bytes p) k (take n seed))" "block_counter s2 = 0"
    using add_seed_loop_absorbs [OF f1 n] by blast
  define s3 where "s3 = ottery_st_nextblock_nolock b s2"
  have "st_prf s2 = p" using meta_eqD(1) [OF s2(2)] f1(1) by simp
  then have r3: "represents keyed s3 (spec_add F (state_bytes p) (take n seed) k)"
    using stir_represents s2 by (simp add: spec_add_def s3_def)
  have m3: "meta s3 = meta s1" using s2(2) by (simp add: s3_def)
  define s4 where "s4 = s3\<lparr>entropy_src_flags := entropy_src_flags s3 OR flags, last_entropy_flags := flags\<rparr>"
  have "add_seed_locked b st seed n flags locking w = Ret (0, if locking then UNLOCK b s4 else s4, w)"
    by (simp add: add_seed_locked_def s1 s2(1) s3_def s4_def Let_def)
  moreover have "meta (if locking then UNLOCK b s4 else s4) =
      meta (st\<lparr>entropy_src_flags := entropy_src_flags st OR flags, last_entropy_flags := flags\<rparr>)"
    using m3 free by (auto simp: meta_def s4_def s1_def UNLOCK_def RELEASE_LOCK_def lock_free_def
        split: if_splits)
  ultimately show ?thesis
    using r3 by (simp add: UNLOCK_def s4_def)
qed

end

section \<open>The entropy gathered for a state\<close>

text \<open>The seed that a successful call of the entropy layer hands to the generator.\<close>

definition entropy_seed :: "'w entropy_result \<Rightarrow> bytes" where
  "entropy_seed r = take (er_buflen r) (er_bytes r)"

definition seed_request :: "'w env \<Rightarrow> ottery_state \<Rightarrow> 'w \<Rightarrow> 'w entropy_result" where
  "seed_request e st w = st_get_entropy e st
     (ottery_get_entropy_bufsize (e_build e) (e_os e) (e_disabled e) (state_bytes (st_prf st))) w"

definition seed_buffer_ok :: "'w env \<Rightarrow> ottery_state \<Rightarrow> 'w \<Rightarrow> bool" where
  "seed_buffer_ok e st w = os_alloca_ok (e_os e)
     (ottery_get_entropy_bufsize (e_build e) (e_os e) (e_disabled e) (state_bytes (st_prf st))) w"

lemma seed_request_gathered:
  assumes "os_contract (e_os e)" "er_err (seed_request e st w) = 0"
  obtains us ds where
    "gathered (Some (entropy_config st)) (state_bytes (st_prf st))
       (RAND_SOURCES (e_build e) (e_os e) (e_disabled e)) (er_flags (seed_request e st w))
       (entropy_seed (seed_request e st w)) us ds"
    "er_buflen (seed_request e st w) = state_bytes (st_prf st) * length us"
    "er_buflen (seed_request e st w) \<le> length (er_bytes (seed_request e st w))"
  using get_entropy_gathered [OF assms(1) _ assms(2)]
  unfolding seed_request_def st_get_entropy_def entropy_seed_def by (metis order_refl)

lemma seed_request_length:
  assumes "os_contract (e_os e)" "er_err (seed_request e st w) = 0"
  shows "state_bytes (st_prf st) \<le> er_buflen (seed_request e st w)"
    "length (entropy_seed (seed_request e st w)) = er_buflen (seed_request e st w)"
proof -
  obtain us ds where g: "gathered (Some (entropy_config st)) (state_bytes (st_prf st))
       (RAND_SOURCES (e_build e) (e_os e) (e_disabled e)) (er_flags (seed_request e st w))
       (entropy_seed (seed_request e st w)) us ds"
    "er_buflen (seed_request e st w) = state_bytes (st_prf st) * length us"
    "er_buflen (seed_request e st w) \<le> length (er_bytes (seed_request e st w))"
    using seed_request_gathered [OF assms] .
  then show "length (entropy_seed (seed_request e st w)) = er_buflen (seed_request e st w)"
    by (simp add: entropy_seed_def)
  show "state_bytes (st_prf st) \<le> er_buflen (seed_request e st w)"
    using gathered_nonempty [OF g(1)] g(2) by (cases us) simp_all
qed

section \<open>Reseeding\<close>

context prf_contract
begin

text \<open>The generator after the seed has been stored in it: the rest of \<^verbatim>\<open>ottery_st_reseed\<close>.\<close>

lemma reseed_mixes:
  assumes p: "st_prf st = p" and mem: "mem_ok st" and bc: "block_counter st = 0"
    and len: "state_bytes p \<le> n" "n \<le> length seed"
  shows "\<exists>st'. obind (if n > state_bytes p
        then ottery_st_add_seed_impl e self (st\<lparr>state_mem := setup_fn p (state_mem st) seed\<rparr>)
               (Some (drop (state_bytes p) seed)) (n - state_bytes p) False False w
        else Ret (0, st\<lparr>state_mem := setup_fn p (state_mem st) seed\<rparr>, w))
      (\<lambda>(_, st, w). Ret (0::u32, ottery_st_nextblock_nolock (e_build e)
          (st\<lparr>last_entropy_flags := fl, entropy_src_flags := fl, block_counter := 0\<rparr>), w))
      = Ret (0, st', w)
    \<and> represents keyed st' (spec_construct F (state_bytes p) (take n seed))
    \<and> meta st' = meta (st\<lparr>entropy_src_flags := fl, last_entropy_flags := fl\<rparr>)"
proof -
  define s1 where "s1 = st\<lparr>state_mem := setup_fn p (state_mem st) seed\<rparr>"
  define upd where "upd = (\<lambda>s :: ottery_state. s\<lparr>last_entropy_flags := fl, entropy_src_flags := fl,
    block_counter := 0\<rparr>)"
  have s1: "st_prf s1 = p" "mem_ok s1" "keyed (state_mem s1) (take (state_bytes p) seed)"
    "block_counter s1 = 0"
    using p mem bc len setup_keyed [of "state_mem st" seed]
    by (simp_all add: s1_def mem_ok_def length_setup)
  have step: "represents keyed (ottery_st_nextblock_nolock b (upd s)) (spec_stir F (state_bytes p) k)"
    if "st_prf s = p" "mem_ok s" "keyed (state_mem s) k" for s k b
    using that by (intro stir_represents) (simp_all add: upd_def mem_ok_def)
  show ?thesis
  proof (cases "n > state_bytes p")
    case True
    obtain s2 where s2: "add_seed_locked (e_build e) s1 (drop (state_bytes p) seed) (n - state_bytes p)
        0 False w = Ret (0, s2, w)"
      "represents keyed s2 (spec_add F (state_bytes p) (take (n - state_bytes p) (drop (state_bytes p) seed))
        (take (state_bytes p) seed))"
      "meta s2 = meta (s1\<lparr>entropy_src_flags := entropy_src_flags s1 OR 0, last_entropy_flags := 0\<rparr>)"
      using add_seed_locked_represents [OF s1, of "n - state_bytes p" "drop (state_bytes p) seed" False
          "e_build e" 0 w] len diff_le_mono [OF len(2), of "state_bytes p"] by auto
    have p2: "st_prf s2 = p" using meta_eqD(1) [OF s2(3)] s1(1) by simp
    have "meta (upd s2) = meta (st\<lparr>entropy_src_flags := fl, last_entropy_flags := fl\<rparr>)"
      using s2(3) by (simp add: meta_def upd_def s1_def)
    then show ?thesis
      using True len s2(1) step [OF p2 represents_facts(7,2) [OF s2(2) p2], of "e_build e"]
      by (simp add: s1_def [symmetric] upd_def ottery_st_add_seed_impl_def
          spec_construct_def min_absorb1 drop_take Let_def)
  next
    case False
    then show ?thesis
      using len step [OF s1(1,2,3), of "e_build e"]
      by (simp add: s1_def [symmetric] upd_def spec_construct_def min_absorb1 Let_def)
         (simp add: meta_def s1_def)
  qed
qed

lemma reseed_success:
  assumes p: "st_prf st = p" and mem: "mem_ok st" and bc: "block_counter st = 0"
    and os: "os_contract (e_os e)" "seed_buffer_ok e st w" "er_err (seed_request e st w) = 0"
  defines "r \<equiv> seed_request e st w"
  shows "\<exists>st'. ottery_st_reseed e self st w = Ret (0, st', er_world r)
    \<and> represents keyed st' (spec_construct F (state_bytes p) (entropy_seed r))
    \<and> meta st' = meta ((stored_entropy_state st (er_state r))
        \<lparr>entropy_src_flags := er_flags r, last_entropy_flags := er_flags r\<rparr>)"
proof -
  have len: "state_bytes p \<le> er_buflen r" "er_buflen r \<le> length (er_bytes r)"
    using seed_request_length [OF os(1,3)] p by (simp_all add: r_def entropy_seed_def)
  define s1 where "s1 = stored_entropy_state st (er_state r)"
  have s1: "st_prf s1 = p" "mem_ok s1" "block_counter s1 = 0"
    using p mem bc by (simp_all add: s1_def)
  have r: "st_get_entropy e st
      (ottery_get_entropy_bufsize (e_build e) (e_os e) (e_disabled e) (state_bytes p)) w = r"
    by (simp add: r_def seed_request_def p)
  have "os_alloca_ok (e_os e)
      (ottery_get_entropy_bufsize (e_build e) (e_os e) (e_disabled e) (state_bytes p)) w"
    using os(2) by (simp add: seed_buffer_ok_def p)
  then have "ottery_st_reseed e self st w =
     obind (if er_buflen r > state_bytes p
        then ottery_st_add_seed_impl e self (s1\<lparr>state_mem := setup_fn p (state_mem s1) (er_bytes r)\<rparr>)
               (Some (drop (state_bytes p) (er_bytes r))) (er_buflen r - state_bytes p) False False
               (er_world r)
        else Ret (0, s1\<lparr>state_mem := setup_fn p (state_mem s1) (er_bytes r)\<rparr>, er_world r))
      (\<lambda>(_, st, w). Ret (0, ottery_st_nextblock_nolock (e_build e)
          (st\<lparr>last_entropy_flags := er_flags r, entropy_src_flags := er_flags r,
              block_counter := 0\<rparr>), w))"
    using os(3) len(1) p
    by (simp add: ottery_st_reseed_def p r s1_def r_def [symmetric] Let_def not_less [symmetric])
  then show ?thesis
    using reseed_mixes [OF s1 len, of e self "er_world r" "er_flags r"]
    by (simp add: entropy_seed_def s1_def)
qed

end

lemma reseed_no_buffer:
  "\<not> seed_buffer_ok e st w \<Longrightarrow> ottery_st_reseed e self st w = Ret (OTTERY_ERR_INIT_STRONG_RNG, st, w)"
  by (simp add: ottery_st_reseed_def seed_buffer_ok_def Let_def)

lemma reseed_no_entropy:
  assumes "seed_buffer_ok e st w" "er_err (seed_request e st w) \<noteq> 0"
  shows "ottery_st_reseed e self st w =
    Ret (er_err (seed_request e st w), stored_entropy_state st (er_state (seed_request e st w)),
         er_world (seed_request e st w))"
  using assms by (simp add: ottery_st_reseed_def seed_buffer_ok_def seed_request_def Let_def)

section \<open>Initialisation\<close>

text \<open>The PRF an initialisation uses, and the structure just before it is seeded.\<close>

definition chosen_prf :: "'w env \<Rightarrow> ottery_config option \<Rightarrow> ottery_prf option" where
  "chosen_prf e cfg =
     (case cfg of
        Some c \<Rightarrow> (case cfg_impl c of Some q \<Rightarrow> Some q
                   | None \<Rightarrow> ottery_get_impl (e_build e) (e_os e) (e_disabled e) None)
      | None \<Rightarrow> ottery_get_impl (e_build e) (e_os e) (e_disabled e) None)"

definition chosen_entropy_config :: "ottery_config option \<Rightarrow> ottery_entropy_config" where
  "chosen_entropy_config cfg =
     (case cfg of Some c \<Rightarrow> cfg_entropy c | None \<Rightarrow> cfg_entropy (snd (ottery_config_init blank_config)))"

definition unseeded_state :: "ottery_config option \<Rightarrow> ottery_prf \<Rightarrow> ottery_state" where
  "unseeded_state cfg q = zero_state\<lparr>entropy_config := chosen_entropy_config cfg, st_prf := q\<rparr>"

definition sizes_ok :: "build \<Rightarrow> bool" where
  "sizes_ok b = (sizeof_state b \<le> OTTERY_STATE_DUMMY_SIZE \<and> sizeof_config b \<le> OTTERY_CONFIG_DUMMY_SIZE)"

definition lock_init :: "'w env \<Rightarrow> bool \<Rightarrow> 'w \<Rightarrow> bool \<times> 'w" where
  "lock_init e locked w = (if locked then INIT_LOCK (e_build e) (e_os e) w else (False, w))"

lemma chosen_prf_Some: "\<exists>q. chosen_prf e cfg = Some q"
proof -
  obtain q where "ottery_get_impl (e_build e) (e_os e) (e_disabled e) None = Some q"
    using ottery_get_impl_default [of "e_build e" "e_os e" "e_disabled e"] by blast
  then show ?thesis by (auto simp: chosen_prf_def split: option.split)
qed

lemma initialize_eq:
  assumes "chosen_prf e cfg = Some q"
  shows "ottery_st_initialize e self st cfg locked w =
    (if self AND 0xF \<noteq> 0 then Ret (OTTERY_ERR_STATE_ALIGNMENT, st, w)
     else if fst (lock_init e locked w) then Ret (OTTERY_ERR_LOCK_INIT, zero_state, snd (lock_init e locked w))
     else if state_len q > MAX_STATE_LEN \<or> state_bytes q > MAX_STATE_BYTES \<or>
             state_bytes q > output_len q \<or> output_len q > MAX_OUTPUT_LEN \<or> \<not> sizes_ok (e_build e)
     then Ret (OTTERY_ERR_INTERNAL, zero_state, snd (lock_init e locked w))
     else obind (ottery_st_reseed e self (unseeded_state cfg q) (snd (lock_init e locked w)))
       (\<lambda>(err, st, w). Ret (err, if err = 0 then st\<lparr>magic := MAGIC self, pid := os_getpid (e_os e) w\<rparr>
                                 else st, w)))"
proof -
  have cfg: "(case cfg_impl (case cfg of None \<Rightarrow> snd (ottery_config_init blank_config) | Some c \<Rightarrow> c) of
      None \<Rightarrow> ottery_get_impl (e_build e) (e_os e) (e_disabled e) None | Some p \<Rightarrow> Some p) = Some q"
    using assms by (auto simp: chosen_prf_def ottery_config_init_def split: option.splits)
  have ec: "cfg_entropy (case cfg of None \<Rightarrow> snd (ottery_config_init blank_config) | Some c \<Rightarrow> c)
      = chosen_entropy_config cfg"
    by (auto simp: chosen_entropy_config_def split: option.split)
  show ?thesis
    unfolding ottery_st_initialize_def Let_def cfg ec lock_init_def [symmetric] unseeded_state_def
    by (simp add: sizes_ok_def case_prod_unfold not_less [symmetric])
       (auto intro!: arg_cong [of _ _ "obind m" for m] ext)
qed

context prf_contract
begin

lemma initialize_success:
  assumes p: "chosen_prf e cfg = Some p" and al: "self AND 0xF = 0" and sz: "sizes_ok (e_build e)"
    and lock: "lock_init e locked w = (False, w1)" and os: "os_contract (e_os e)"
    and seed: "seed_buffer_ok e (unseeded_state cfg p) w1"
      "er_err (seed_request e (unseeded_state cfg p) w1) = 0"
  defines "r \<equiv> seed_request e (unseeded_state cfg p) w1"
  shows "\<exists>st'. ottery_st_initialize e self st cfg locked w = Ret (0, st', er_world r)
    \<and> represents keyed st' (spec_construct F (state_bytes p) (entropy_seed r))
    \<and> st_prf st' = p \<and> magic st' = MAGIC self \<and> pid st' = os_getpid (e_os e) (er_world r)
    \<and> \<not> mutex st' \<and> entropy_src_flags st' = er_flags r \<and> last_entropy_flags st' = er_flags r
    \<and> entropy_config st' = chosen_entropy_config cfg
    \<and> entropy_state st' = entropy_state (stored_entropy_state (unseeded_state cfg p) (er_state r))"
proof -
  have st0: "st_prf (unseeded_state cfg p) = p" "mem_ok (unseeded_state cfg p)"
    "block_counter (unseeded_state cfg p) = 0" "\<not> mutex (unseeded_state cfg p)"
    by (simp_all add: unseeded_state_def zero_state_def mem_ok_def)
  obtain st1 where st1: "ottery_st_reseed e self (unseeded_state cfg p) w1 = Ret (0, st1, er_world r)"
    "represents keyed st1 (spec_construct F (state_bytes p) (entropy_seed r))"
    "meta st1 = meta ((stored_entropy_state (unseeded_state cfg p) (er_state r))
        \<lparr>entropy_src_flags := er_flags r, last_entropy_flags := er_flags r\<rparr>)"
    using reseed_success [OF st0(1-3) os seed] by (auto simp: r_def)
  have "\<not> mutex st1" "entropy_config st1 = chosen_entropy_config cfg" "st_prf st1 = p"
    using meta_eqD [OF st1(3)] st0 by (simp_all add: unseeded_state_def)
  moreover have "entropy_src_flags st1 = er_flags r" "last_entropy_flags st1 = er_flags r"
    "entropy_state st1 = entropy_state (stored_entropy_state (unseeded_state cfg p) (er_state r))"
    using st1(3) by (simp_all add: meta_def)
  moreover have "state_bytes p \<le> output_len p" using output_len_min by simp
  ultimately show ?thesis
    unfolding initialize_eq [OF p]
    using al sz lock st1(1,2) state_len_max state_bytes_max output_len_max
    by (simp add: not_less [symmetric])
qed

end

text \<open>The magic number of an aligned address is never zero: bit 2 is always set.\<close>

lemma MAGIC_aligned:
  assumes "self AND 0xF = 0"
  shows "MAGIC self \<noteq> 0"
proof -
  have "\<not> bit (self AND 0xF) 2" using assms by simp
  then have "\<not> bit self 2" by (simp add: bit_and_iff)
  then have "bit (MAGIC self) 2"
    by (simp add: MAGIC_def MAGIC_BASIS_def bit_xor_iff bit_ucast_iff)
  then show ?thesis by auto
qed

lemma initialize_error:
  assumes q: "chosen_prf e cfg = Some q" and al: "self AND 0xF = 0"
    and bad: "fst (lock_init e locked w) \<or> \<not> sizes_ok (e_build e) \<or>
      \<not> seed_buffer_ok e (unseeded_state cfg q) (snd (lock_init e locked w)) \<or>
      er_err (seed_request e (unseeded_state cfg q) (snd (lock_init e locked w))) \<noteq> 0"
  shows "\<exists>err st' w'. ottery_st_initialize e self st cfg locked w = Ret (err, st', w') \<and>
    err \<noteq> 0 \<and> magic st' = 0"
proof -
  let ?u = "unseeded_state cfg q" and ?w = "snd (lock_init e locked w)"
  have z: "magic zero_state = 0" "magic ?u = 0" by (simp_all add: zero_state_def unseeded_state_def)
  have e: "OTTERY_ERR_LOCK_INIT \<noteq> 0" "OTTERY_ERR_INTERNAL \<noteq> 0" by (simp_all add: err_defs)
  have "\<exists>err st' w'. ottery_st_reseed e self ?u ?w = Ret (err, st', w') \<and> err \<noteq> 0 \<and> magic st' = 0"
    if "\<not> fst (lock_init e locked w)" "sizes_ok (e_build e)"
    using bad that reseed_no_buffer [of e ?u ?w self] reseed_no_entropy [of e ?u ?w self] z
    by (cases "seed_buffer_ok e ?u ?w") auto
  then show ?thesis
    unfolding initialize_eq [OF q] using al z e by auto
qed

section \<open>Checks before a request\<close>

definition ready :: "'w env \<Rightarrow> u64 \<Rightarrow> ottery_state \<Rightarrow> bool" where
  "ready e self st = (opt_no_init_check (e_build e) \<or> magic st = MAGIC self)"

definition same_process :: "'w env \<Rightarrow> ottery_state \<Rightarrow> 'w \<Rightarrow> bool" where
  "same_process e st w = (no_pid_check (e_build e) \<or> pid st = os_getpid (e_os e) w)"

lemma check_init_ready:
  "ready e self st \<Longrightarrow> ottery_st_rand_check_init e self st w = Ret (True, w)"
  by (auto simp: ready_def ottery_st_rand_check_init_def)

lemma check_init_not_ready:
  "\<not> ready e self st \<Longrightarrow> ottery_st_rand_check_init e self st w =
     (case e_handler e of Some h \<Rightarrow> Ret (False, h OTTERY_ERR_STATE_INIT w)
      | None \<Rightarrow> Abort OTTERY_ERR_STATE_INIT)"
  by (auto simp: ready_def ottery_st_rand_check_init_def ottery_fatal_error_def split: option.split)

lemma check_pid_same:
  "same_process e st w \<Longrightarrow> ottery_st_rand_check_pid e self st w = Ret (True, st, w)"
  by (auto simp: same_process_def ottery_st_rand_check_pid_def)

lemma same_process_mutex [simp]: "same_process e (st\<lparr>mutex := m\<rparr>) w = same_process e st w"
  by (simp add: same_process_def)

lemma lock_and_check_same:
  assumes "ready e self st" "same_process e st w" "lock_free (e_build e) st"
  shows "ottery_st_rand_lock_and_check e self st w =
    Ret (True, st\<lparr>mutex := \<not> no_locks (e_build e) \<or> mutex st\<rparr>, w)"
  using assms
  by (simp add: ottery_st_rand_lock_and_check_def check_init_ready LOCK_free check_pid_same)

lemma check_nolock_same:
  assumes "ready e self st" "same_process e st w"
  shows "ottery_st_rand_check_nolock e self st w = Ret (True, st, w)"
  using assms by (simp add: ottery_st_rand_check_nolock_def check_init_ready check_pid_same)

lemma UNLOCK_restores:
  assumes "lock_free b st" "meta st' = meta (st\<lparr>mutex := \<not> no_locks b \<or> mutex st\<rparr>)"
  shows "meta (UNLOCK b st') = meta st"
  using assms by (auto simp: meta_def UNLOCK_def RELEASE_LOCK_def lock_free_def)

lemma represents_UNLOCK [simp]: "represents keyed (UNLOCK b st) s = represents keyed st s"
  by (simp add: UNLOCK_def)

end
