(* ===== verification/Prng_Api.thy ===== *)
theory Prng_Api
  imports Prng_Seeding
begin

text \<open>
  The calls of \<^verbatim>\<open>src/ottery_st.h\<close> against the reference generator: requests for bytes and integers in
  the process that seeded the state and after a fork, and adding seed. The lemmas hold for every
  PRF that meets \<open>prf_contract\<close>; \<open>library_prf\<close> lists the PRFs of the library with the functions
  they compute, and brings the lemmas to them.
\<close>

context prf_contract
begin

section \<open>Requests\<close>

lemma rand_bytes_after_check:
  assumes "ottery_st_rand_lock_and_check e self st w = Ret (True, s1, w1)"
    and "represents keyed s1 s" "st_prf s1 = p" "n < 2 ^ 64 - 1024"
  shows "\<exists>st'. ottery_st_rand_bytes e self st n w =
      Ret (Some (fst (spec_get F (state_bytes p) (output_len p) n s)), UNLOCK (e_build e) st', w1)
    \<and> represents keyed st' (snd (spec_get F (state_bytes p) (output_len p) n s)) \<and> meta st' = meta s1"
  using rand_bytes_impl_represents [OF assms(2-4), of "e_build e"] assms(1)
  by (auto simp: ottery_st_rand_bytes_def)

lemma rand_bytes_nolock_after_check:
  assumes "ottery_st_rand_check_nolock e self st w = Ret (True, s1, w1)"
    and "represents keyed s1 s" "st_prf s1 = p" "n < 2 ^ 64 - 1024"
  shows "\<exists>st'. ottery_st_rand_bytes_nolock e self st n w =
      Ret (Some (fst (spec_get F (state_bytes p) (output_len p) n s)), st', w1)
    \<and> represents keyed st' (snd (spec_get F (state_bytes p) (output_len p) n s)) \<and> meta st' = meta s1"
  using rand_bytes_impl_represents [OF assms(2-4), of "e_build e"] assms(1)
  by (auto simp: ottery_st_rand_bytes_nolock_def)

lemma inttype_after_check:
  assumes "ottery_st_rand_lock_and_check e self st w = Ret (True, s1, w1)"
    and "represents keyed s1 s" "st_prf s1 = p" "0 < k" "k \<le> 8"
  shows "\<exists>st'. RAND_INTTYPE e self k st w =
      Ret (Some (fst (spec_tiny F (state_bytes p) k s)), UNLOCK (e_build e) st', w1)
    \<and> represents keyed st' (snd (spec_tiny F (state_bytes p) k s)) \<and> meta st' = meta s1"
proof -
  obtain out st' where r: "RAND_INTTYPE_IMPL (e_build e) k s1 = (out, st')" by fastforce
  then show ?thesis
    using inttype_represents [OF assms(2-5) r] assms(1) by (auto simp: RAND_INTTYPE_def)
qed

lemma inttype_nolock_after_check:
  assumes "ottery_st_rand_check_nolock e self st w = Ret (True, s1, w1)"
    and "represents keyed s1 s" "st_prf s1 = p" "0 < k" "k \<le> 8"
  shows "\<exists>st'. RAND_INTTYPE_NOLOCK e self k st w =
      Ret (Some (fst (spec_tiny F (state_bytes p) k s)), st', w1)
    \<and> represents keyed st' (snd (spec_tiny F (state_bytes p) k s)) \<and> meta st' = meta s1"
proof -
  obtain out st' where r: "RAND_INTTYPE_IMPL (e_build e) k s1 = (out, st')" by fastforce
  then show ?thesis
    using inttype_represents [OF assms(2-5) r] assms(1) by (auto simp: RAND_INTTYPE_NOLOCK_def)
qed

lemma rand_bytes_same:
  assumes rep: "represents keyed st s" and p: "st_prf st = p" and n: "n < 2 ^ 64 - 1024"
    and ok: "ready e self st" "same_process e st w" "lock_free (e_build e) st"
  shows "\<exists>st'. ottery_st_rand_bytes e self st n w =
      Ret (Some (fst (spec_get F (state_bytes p) (output_len p) n s)), st', w)
    \<and> represents keyed st' (snd (spec_get F (state_bytes p) (output_len p) n s)) \<and> meta st' = meta st"
  using rand_bytes_after_check [OF lock_and_check_same [OF ok] _ _ n, of s] rep p
    UNLOCK_restores [OF ok(3)] by fastforce

lemma rand_bytes_nolock_same:
  assumes rep: "represents keyed st s" and p: "st_prf st = p" and n: "n < 2 ^ 64 - 1024"
    and ok: "ready e self st" "same_process e st w"
  shows "\<exists>st'. ottery_st_rand_bytes_nolock e self st n w =
      Ret (Some (fst (spec_get F (state_bytes p) (output_len p) n s)), st', w)
    \<and> represents keyed st' (snd (spec_get F (state_bytes p) (output_len p) n s)) \<and> meta st' = meta st"
  using rand_bytes_nolock_after_check [OF check_nolock_same [OF ok] rep p n] .

lemma inttype_same:
  assumes rep: "represents keyed st s" and p: "st_prf st = p" and k: "0 < k" "k \<le> 8"
    and ok: "ready e self st" "same_process e st w" "lock_free (e_build e) st"
  shows "\<exists>st'. RAND_INTTYPE e self k st w = Ret (Some (fst (spec_tiny F (state_bytes p) k s)), st', w)
    \<and> represents keyed st' (snd (spec_tiny F (state_bytes p) k s)) \<and> meta st' = meta st"
  using inttype_after_check [OF lock_and_check_same [OF ok] _ _ k, of s] rep p
    UNLOCK_restores [OF ok(3)] by fastforce

lemma inttype_nolock_same:
  assumes rep: "represents keyed st s" and p: "st_prf st = p" and k: "0 < k" "k \<le> 8"
    and ok: "ready e self st" "same_process e st w"
  shows "\<exists>st'. RAND_INTTYPE_NOLOCK e self k st w =
      Ret (Some (fst (spec_tiny F (state_bytes p) k s)), st', w)
    \<and> represents keyed st' (snd (spec_tiny F (state_bytes p) k s)) \<and> meta st' = meta st"
  using inttype_nolock_after_check [OF check_nolock_same [OF ok] rep p k] .

text \<open>
  A request that empties the buffer and takes at most a key's length from the next one: the bytes
  taken from the fresh buffer are still there.
\<close>

lemma rand_bytes_impl_across:
  assumes rep: "represents keyed st s" and p: "st_prf st = p"
    and m: "m \<le> state_bytes p" "m + 1 < output_len p - state_bytes p"
  shows "\<exists>st' out. ottery_st_rand_bytes_impl b st (length (snd s) + m) = Ret (snd s @ out, st')
    \<and> length out = m \<and> mem_read (buffer st') (state_bytes p) m = out \<and> pos st' = state_bytes p + m"
proof -
  note f = represents_facts [OF rep p] and bnd = output_len_bounds
  define t where "t = spec_stir F (state_bytes p) (fst s)"
  obtain st' where st': "ottery_st_rand_bytes_from_buf b st (length (snd s) + m) = Ret (snd s @ take m (snd t), st')"
    "represents keyed st' (fst t, drop m (snd t))" "meta st' = meta st"
    "mem_read (buffer st') (state_bytes p) m = take m (snd t)"
    using from_buf_across [OF rep p refl _ t_def, of m b] m by auto
  have t: "length (snd t) = output_len p - state_bytes p"
    by (simp add: t_def spec_stir_def spec_stir_at_def length_F)
  have p': "st_prf st' = p" using meta_eqD(1) [OF st'(3)] p by simp
  have "pos st' = state_bytes p + m"
    using represents_facts(4,5) [OF st'(2) p'] t m by simp
  moreover have "output_len p + m < output_len p * 2 - Suc (state_bytes p)" using m(2) by linarith
  then have "ottery_st_rand_bytes_impl b st (length (snd s) + m) =
      ottery_st_rand_bytes_from_buf b st (length (snd s) + m)"
    using f m bnd output_len_min
    by (simp add: ottery_st_rand_bytes_impl_def p add64_id sub32_id mul32_id)
  ultimately show ?thesis
    using st'(1,4) t m by (intro exI [of _ st'] exI [of _ "take m (snd t)"]) simp
qed

lemma prevent_backtracking_represents:
  assumes "represents keyed st s" "st_prf st = p"
  shows "represents keyed (ottery_st_prevent_backtracking_nolock b st) s"
    "opt_no_clear_after_yield b \<Longrightarrow>
      take (pos st) (buffer (ottery_st_prevent_backtracking_nolock b st)) = replicate (pos st) 0"
proof -
  note f = represents_facts [OF assms]
  have len: "pos st \<le> length (buffer st)"
    using f(5,7) output_len_bounds(1) by (simp add: mem_ok_def max_defs)
  then have "mem_read (mem_clear (buffer st) 0 (pos st)) (pos st) l = mem_read (buffer st) (pos st) l" for l
    by (simp add: mem_read_def drop_mem_clear)
  then show "represents keyed (ottery_st_prevent_backtracking_nolock b st) s"
    using assms(1)
    by (simp add: ottery_st_prevent_backtracking_nolock_def represents_def generator_ok_def mem_ok_def
        available_def)
  show "take (pos st) (buffer (ottery_st_prevent_backtracking_nolock b st)) = replicate (pos st) 0"
    if "opt_no_clear_after_yield b"
    using that len by (simp add: ottery_st_prevent_backtracking_nolock_def mem_clear_def mem_write_start)
qed

section \<open>After a fork\<close>

lemma check_pid_fork:
  assumes st: "generator_ok st" "st_prf st = p" "\<not> same_process e st w"
    and os: "os_contract (e_os e)" "seed_buffer_ok e st w" "er_err (seed_request e st w) = 0"
  defines "r \<equiv> seed_request e st w"
  shows "\<exists>st'. ottery_st_rand_check_pid e self st w = Ret (True, st', er_world r)
    \<and> represents keyed st' (spec_construct F (state_bytes p) (entropy_seed r))
    \<and> st_prf st' = p \<and> pid st' = os_getpid (e_os e) (er_world r) \<and> magic st' = magic st
    \<and> mutex st' = mutex st"
proof -
  have "mem_ok st" "block_counter st = 0" using st(1) by (simp_all add: generator_ok_def)
  from reseed_success [OF st(2) this os, of self] obtain s1 where
    s1: "ottery_st_reseed e self st w = Ret (0, s1, er_world r)"
      "represents keyed s1 (spec_construct F (state_bytes p) (entropy_seed r))"
      "meta s1 = meta ((stored_entropy_state st (er_state r))
        \<lparr>entropy_src_flags := er_flags r, last_entropy_flags := er_flags r\<rparr>)"
    by (auto simp: r_def)
  then show ?thesis
    using st meta_eqD [OF s1(3)] by (auto simp: ottery_st_rand_check_pid_def same_process_def)
qed

text \<open>What the child gets is a function of fresh entropy alone.\<close>

lemma rand_bytes_fork:
  assumes st: "generator_ok st" "st_prf st = p" "\<not> same_process e st w"
    and ok: "ready e self st" "lock_free (e_build e) st" and n: "n < 2 ^ 64 - 1024"
    and os: "os_contract (e_os e)" "seed_buffer_ok e st w" "er_err (seed_request e st w) = 0"
  defines "r \<equiv> seed_request e st w"
  defines "s \<equiv> spec_construct F (state_bytes p) (entropy_seed r)"
  shows "\<exists>st'. ottery_st_rand_bytes e self st n w =
      Ret (Some (fst (spec_get F (state_bytes p) (output_len p) n s)), st', er_world r)
    \<and> represents keyed st' (snd (spec_get F (state_bytes p) (output_len p) n s))
    \<and> pid st' = os_getpid (e_os e) (er_world r) \<and> mutex st' = mutex st"
proof -
  define s0 where "s0 = st\<lparr>mutex := \<not> no_locks (e_build e) \<or> mutex st\<rparr>"
  have eq: "seed_request e s0 w = r" "seed_buffer_ok e s0 w"
    using os(2) by (simp_all add: s0_def r_def seed_request_def seed_buffer_ok_def st_get_entropy_def)
  have s0: "generator_ok s0" "st_prf s0 = p" "\<not> same_process e s0 w"
    using st by (simp_all add: s0_def generator_ok_def mem_ok_def)
  obtain s1 where s1: "ottery_st_rand_check_pid e self s0 w = Ret (True, s1, er_world r)"
    "represents keyed s1 s" "st_prf s1 = p" "pid s1 = os_getpid (e_os e) (er_world r)"
    "mutex s1 = mutex s0"
    using check_pid_fork [OF s0 os(1) eq(2)] os(3) eq(1) by (auto simp: s_def r_def)
  have "ottery_st_rand_lock_and_check e self st w = Ret (True, s1, er_world r)"
    using ok s1(1)
    by (simp add: ottery_st_rand_lock_and_check_def check_init_ready LOCK_free s0_def)
  from rand_bytes_after_check [OF this s1(2,3) n] obtain st' where
    st': "ottery_st_rand_bytes e self st n w =
      Ret (Some (fst (spec_get F (state_bytes p) (output_len p) n s)), UNLOCK (e_build e) st', er_world r)"
      "represents keyed st' (snd (spec_get F (state_bytes p) (output_len p) n s))" "meta st' = meta s1"
    by blast
  moreover have "mutex (UNLOCK (e_build e) st') = mutex st" "pid (UNLOCK (e_build e) st') = pid s1"
    using meta_eqD [OF st'(3)] s1(5) ok(2)
    by (auto simp: UNLOCK_def RELEASE_LOCK_def s0_def lock_free_def)
  ultimately show ?thesis using s1(4) by auto
qed

section \<open>Adding seed\<close>

lemma add_seed_user:
  assumes rep: "represents keyed st s" and p: "st_prf st = p"
    and ok: "ready e self st" "locking \<longrightarrow> lock_free (e_build e) st"
    and n: "0 < n" "n \<le> length seed"
  shows "\<exists>st'. ottery_st_add_seed_impl e self st (Some seed) n locking True w = Ret (0, st', w)
    \<and> represents keyed st' (spec_add F (state_bytes p) (take n seed) (fst s))
    \<and> meta st' = meta (st\<lparr>last_entropy_flags := 0\<rparr>)"
proof -
  note f = represents_facts [OF rep p]
  show ?thesis
    using add_seed_locked_represents [OF p f(7,2,6) n(2) ok(2), of 0 w] ok(1) n(1)
    by (auto simp: ottery_st_add_seed_impl_def ready_def Let_def)
qed

lemma add_seed_os:
  assumes rep: "represents keyed st s" and p: "st_prf st = p"
    and ok: "ready e self st" "locking \<longrightarrow> lock_free (e_build e) st"
    and os: "os_contract (e_os e)" "seed_buffer_ok e st w" "er_err (seed_request e st w) = 0"
    and none: "seed = None \<or> n = 0"
  defines "r \<equiv> seed_request e st w"
  shows "\<exists>st'. ottery_st_add_seed_impl e self st seed n locking True w = Ret (0, st', er_world r)
    \<and> represents keyed st' (spec_add F (state_bytes p) (entropy_seed r) (fst s))
    \<and> entropy_src_flags st' = entropy_src_flags st OR er_flags r \<and> last_entropy_flags st' = er_flags r
    \<and> st_prf st' = p \<and> magic st' = magic st"
proof -
  note f = represents_facts [OF rep p]
  define s1 where "s1 = stored_entropy_state st (er_state r)"
  have len: "state_bytes p \<le> er_buflen r" "er_buflen r \<le> length (er_bytes r)"
    using seed_request_length [OF os(1,3)] p by (simp_all add: r_def entropy_seed_def)
  have s1: "st_prf s1 = p" "mem_ok s1" "keyed (state_mem s1) (fst s)" "block_counter s1 = 0"
    "locking \<longrightarrow> lock_free (e_build e) s1" "entropy_src_flags s1 = entropy_src_flags st"
    "magic s1 = magic st"
    using p f ok(2)
    by (auto simp: s1_def lock_free_def)
  have eq: "ottery_st_add_seed_impl e self st seed n locking True w =
      add_seed_locked (e_build e) s1 (er_bytes r) (er_buflen r) (er_flags r) locking (er_world r)"
    using ok(1) os(2,3) none len(1) p
    by (auto simp: ottery_st_add_seed_impl_def ready_def seed_buffer_ok_def seed_request_def
        r_def s1_def Let_def)
  show ?thesis
    using add_seed_locked_represents [OF s1(1-4) len(2) s1(5), of "er_flags r" "er_world r"] s1(1,6,7)
    by (auto simp: eq entropy_seed_def meta_def)
qed

end

section \<open>The PRFs of the library\<close>

inductive library_prf :: "ottery_prf \<Rightarrow> (bytes \<Rightarrow> u32 \<Rightarrow> bytes) \<Rightarrow> (bytes \<Rightarrow> bytes \<Rightarrow> bool) \<Rightarrow> bool" where
  merged8: "library_prf ottery_prf_chacha8_merged (merged_F 8) merged_keyed"
| merged12: "library_prf ottery_prf_chacha12_merged (merged_F 12) merged_keyed"
| merged20: "library_prf ottery_prf_chacha20_merged (merged_F 20) merged_keyed"
| krovetz8: "library_prf (ottery_prf_chacha8_krovetz t) (krovetz_F t 8) krovetz_keyed"
| krovetz12: "library_prf (ottery_prf_chacha12_krovetz t) (krovetz_F t 12) krovetz_keyed"
| krovetz20: "library_prf (ottery_prf_chacha20_krovetz t) (krovetz_F t 20) krovetz_keyed"

lemma library_prf_contract: "library_prf p F keyed \<Longrightarrow> prf_contract p F keyed"
  by (induction rule: library_prf.induct)
     (fact merged8.prf_contract_axioms merged12.prf_contract_axioms merged20.prf_contract_axioms
       krovetz8.prf_contract_axioms krovetz12.prf_contract_axioms krovetz20.prf_contract_axioms)+

lemma ALL_PRFS_library:
  assumes "p \<in> set (ALL_PRFS b)"
  shows "\<exists>F keyed. library_prf p F keyed"
  using assms by (auto simp: ALL_PRFS_def split: option.splits intro: library_prf.intros)

lemma get_impl_library:
  "ottery_get_impl b os dis impl = Some p \<Longrightarrow> \<exists>F keyed. library_prf p F keyed"
  unfolding ottery_get_impl_def by (blast dest: find_impl_SomeD(1) ALL_PRFS_library)

lemma library_prf_sizes:
  assumes "library_prf p F keyed"
  shows "state_bytes p = 40" "output_len p = 1024 \<or> output_len p = 768"
  using assms
  by (induction rule: library_prf.induct)
     (use krovetz_sizes in \<open>auto simp: prf_table_defs PRF_CHACHA_merged_def PRF_CHACHA_krovetz_def
       STATE_BYTES_def KROVETZ_STATE_BYTES_def OUTPUT_LEN_def KROVETZ_OUTPUT_LEN_def IDX_STEP_def\<close>)

end
