(* ===== verification/Ottery_Demo.thy ===== *)
theory Ottery_Demo
  imports Prng_Api
begin

text \<open>
  A concrete build and system, on which the hypotheses of the properties can be seen to hold: an
  x86 Linux build with pthreads and no SIMD objects, whose \<^verbatim>\<open>/dev/urandom\<close> always delivers, with
  no EGD daemon and no RDRAND. The world is the process identifier, so that a fork is a change of
  the world.
\<close>

definition demo_build :: build where
  "demo_build = \<lparr>opt_no_pid_check = False, opt_no_init_check = False, opt_no_locks = False,
     opt_no_spinlocks = False, opt_no_clear_after_yield = False, opt_no_wipe_stack = False,
     opt_no_simd = False, ndebug = False, win32 = False, apple = False, have_pthread = True,
     predefined = [''__x86_64'', ''__linux__''], simd1 = None, simd2 = None, sizeof_config = 64, sizeof_state = 1472,
     version = 0, version_string = ''0.0.0''\<rparr>"

definition demo_os :: "int os" where
  "demo_os = \<lparr>os_open = (\<lambda>_ w. (3, w)),
     os_fstat = (\<lambda>_ w. (Some \<lparr>st_mode = 0x2190, st_ino = 11\<rparr>, w)),
     os_read = (\<lambda>_ n w. ((int n, replicate n 165), w)), os_close = (\<lambda>_ w. w),
     os_socket = (\<lambda>_ w. (- 1, w)), os_connect = (\<lambda>_ _ _ w. (- 1, w)),
     os_write = (\<lambda>_ _ w. (- 1, w)), os_rdrand = (\<lambda>w. ((0, 0), w)),
     os_cpuid = (\<lambda>_. (0, 0, 0, 0)), os_crypt_acquire = (\<lambda>w. (None, w)),
     os_crypt_gen_random = (\<lambda>_ n w. ((False, []), w)), os_crypt_release = (\<lambda>_ w. w),
     os_getpid = (\<lambda>w. w), os_mutex_init = (\<lambda>w. (False, w)), os_alloca_ok = (\<lambda>_ _. True)\<rparr>"

definition demo_env :: "int env" where
  "demo_env = \<lparr>e_build = demo_build, e_os = demo_os, e_disabled = 0, e_handler = None\<rparr>"

definition demo_config :: ottery_entropy_config where
  "demo_config = cfg_entropy (snd (ottery_config_init blank_config))"

lemma demo_os_simps [simp]:
  "os_open demo_os f w = (3, w)" "os_fstat demo_os fd w = (Some \<lparr>st_mode = 0x2190, st_ino = 11\<rparr>, w)"
  "os_read demo_os fd n w = ((int n, replicate n 165), w)" "os_close demo_os fd w = w"
  "os_getpid demo_os w = w" "os_mutex_init demo_os w = (False, w)" "os_alloca_ok demo_os n w"
  by (simp_all add: demo_os_def)

lemma demo_os_contract: "os_contract demo_os"
  by (auto simp: os_contract_def demo_os_def)

lemma demo_caps [simp]: "ottery_get_cpu_capabilities demo_build demo_os d = 0"
  by (simp add: ottery_get_cpu_capabilities_def X86_def cpuid_def demo_os_def demo_build_def)

lemma demo_sources:
  "RAND_SOURCES demo_build demo_os 0 =
     [ENTROPY_SOURCE_URANDOM demo_os, ENTROPY_SOURCE_EGD demo_os, ENTROPY_SOURCE_RDRAND demo_build demo_os 0]"
  by (simp add: RAND_SOURCES_def rdrand_built_def demo_build_def)

lemma demo_read: "ottery_read_n_bytes_from_file demo_os fd n w = (n, replicate n 165, w)"
  by (simp add: ottery_read_n_bytes_from_file_def read_n_loop.simps)

lemma demo_urandom:
  assumes "i = 0 \<or> i = 11"
  shows "ottery_get_entropy_urandom demo_os (Some demo_config) (Some \<lparr>urandom_fd_inode = i\<rparr>) n w =
     (0, Some \<lparr>urandom_fd_inode = 11\<rparr>, replicate n 165, w)"
  using assms
  by (auto simp: ottery_get_entropy_urandom_def demo_config_def ottery_config_init_def blank_config_def
      zero_entropy_config_def demo_read S_IFCHR_def)

lemma demo_egd:
  "ottery_get_entropy_egd demo_os (Some demo_config) s n w = (OTTERY_ERR_INIT_STRONG_RNG, s, [], w)"
  by (simp add: ottery_get_entropy_egd_def demo_config_def ottery_config_init_def blank_config_def)

lemma demo_rdrand:
  "ottery_get_entropy_rdrand demo_build demo_os d c s n w = (OTTERY_ERR_INIT_STRONG_RNG, s, [], w)"
  by (simp add: ottery_get_entropy_rdrand_def)

lemma demo_entropy:
  assumes "n \<le> buflen" "2 * n \<le> buflen" "i = 0 \<or> i = 11"
  shows "ottery_get_entropy demo_build demo_os 0 (Some demo_config) (Some \<lparr>urandom_fd_inode = i\<rparr>) 0 n buflen w =
    \<lparr>er_err = 0, er_state = Some \<lparr>urandom_fd_inode = 11\<rparr>,
     er_bytes = replicate n 165 @ replicate (buflen - n) 0, er_buflen = n, er_flags = 0x10101,
     er_world = w\<rparr>"
  using assms
  by (simp add: ottery_get_entropy_def demo_sources entropy_loop_Cons passed_over_def
      ENTROPY_SOURCE_URANDOM_def ENTROPY_SOURCE_EGD_def ENTROPY_SOURCE_RDRAND_def demo_urandom [OF assms(3)]
      demo_egd demo_rdrand after_success_def after_failure_def entropy_loop.simps(1))
     (simp add: config_disabled_def effective_flags_def demo_config_def ottery_config_init_def
      entropy_flag_defs blank_config_def zero_entropy_config_def mem_write_def Let_def)

text \<open>With another inode in the cache the sources fail; the world is never changed.\<close>

lemma demo_urandom_other:
  "i \<noteq> 0 \<Longrightarrow> i \<noteq> 11 \<Longrightarrow>
     ottery_get_entropy_urandom demo_os (Some demo_config) (Some \<lparr>urandom_fd_inode = i\<rparr>) n w =
     (OTTERY_ERR_ACCESS_STRONG_RNG, Some \<lparr>urandom_fd_inode = i\<rparr>, [], w)"
  by (simp add: ottery_get_entropy_urandom_def demo_config_def ottery_config_init_def blank_config_def
      zero_entropy_config_def S_IFCHR_def)

lemma demo_entropy_world:
  assumes "n \<le> buflen" "2 * n \<le> buflen"
  shows "er_world (ottery_get_entropy demo_build demo_os 0 (Some demo_config) (Some s) 0 n buflen w) = w"
proof (cases "urandom_fd_inode s = 0 \<or> urandom_fd_inode s = 11")
  case True
  then show ?thesis using demo_entropy [OF assms True, of w] by (cases s) simp
next
  case False
  then show ?thesis
    by (cases s) (simp add: ottery_get_entropy_def demo_sources entropy_loop_Cons passed_over_def
      ENTROPY_SOURCE_URANDOM_def ENTROPY_SOURCE_EGD_def ENTROPY_SOURCE_RDRAND_def demo_urandom_other
      demo_egd demo_rdrand after_success_def after_failure_def entropy_loop.simps(1) Let_def err_defs)
qed

lemma demo_prf: "chosen_prf demo_env None = Some ottery_prf_chacha20_merged"
  by (simp add: chosen_prf_def ottery_get_impl_def demo_env_def ALL_PRFS_def prf_table_defs)
     (simp add: demo_build_def)

lemma merged20_sizes [simp]:
  "state_bytes ottery_prf_chacha20_merged = 40" "output_len ottery_prf_chacha20_merged = 1024"
  by (simp_all add: prf_table_defs PRF_CHACHA_merged_def STATE_BYTES_def OUTPUT_LEN_def IDX_STEP_def)

lemma demo_env_simps [simp]:
  "e_build demo_env = demo_build" "e_os demo_env = demo_os" "e_disabled demo_env = 0"
  "e_handler demo_env = None"
  by (simp_all add: demo_env_def)

definition demo_seed :: "int \<Rightarrow> int entropy_result" where
  "demo_seed w = \<lparr>er_err = 0, er_state = Some \<lparr>urandom_fd_inode = 11\<rparr>,
     er_bytes = replicate 40 165 @ replicate 80 0, er_buflen = 40, er_flags = 0x10101, er_world = w\<rparr>"

lemma demo_seed_simps [simp]:
  "er_err (demo_seed w) = 0" "er_world (demo_seed w) = w" "er_flags (demo_seed w) = 0x10101"
  "entropy_seed (demo_seed w) = replicate 40 165" "er_state (demo_seed w) = Some \<lparr>urandom_fd_inode = 11\<rparr>"
  by (simp_all add: demo_seed_def entropy_seed_def)

lemma demo_bufsize: "ottery_get_entropy_bufsize demo_build demo_os 0 40 = 120"
  by (simp add: ottery_get_entropy_bufsize_def demo_sources mul64_def)

lemma demo_seed_request:
  assumes "st_prf st = ottery_prf_chacha20_merged" "entropy_config st = demo_config"
    "entropy_state st = \<lparr>urandom_fd_inode = 0\<rparr> \<or> entropy_state st = \<lparr>urandom_fd_inode = 11\<rparr>"
  shows "seed_request demo_env st w = demo_seed w" "seed_buffer_ok demo_env st w"
  using assms demo_entropy [of 40 120 0 w] demo_entropy [of 40 120 11 w]
  by (auto simp: seed_request_def st_get_entropy_def demo_bufsize demo_seed_def seed_buffer_ok_def)

lemma demo_unseeded:
  "seed_request demo_env (unseeded_state None ottery_prf_chacha20_merged) w = demo_seed w"
  "seed_buffer_ok demo_env (unseeded_state None ottery_prf_chacha20_merged) w"
  by (rule demo_seed_request;
      simp add: unseeded_state_def chosen_entropy_config_def demo_config_def zero_state_def)+

lemma demo_locks: "no_locks demo_build = False" "no_pid_check demo_build = False"
  by (simp_all add: no_locks_def lock_kind_of_def no_pid_check_def demo_build_def)

lemma demo_lock_init: "lock_init demo_env True w = (False, w)"
  by (simp add: lock_init_def INIT_LOCK_def split: lock_kind.split)

lemma demo_sizes: "sizes_ok demo_build"
  by (simp add: sizes_ok_def demo_build_def OTTERY_STATE_DUMMY_SIZE_def OTTERY_CONFIG_DUMMY_SIZE_def)

text \<open>The state that \<^verbatim>\<open>ottery_st_init\<close> leaves behind in process 7, at address 16.\<close>

definition demo_state :: ottery_state where
  "demo_state = (case ottery_st_init demo_env 16 zero_state None 7 of
     Ret (_, st, _) \<Rightarrow> st | _ \<Rightarrow> zero_state)"

definition demo_prng :: prng where
  "demo_prng = spec_construct (merged_F 20) 40 (replicate 40 165)"

lemma demo_state_ok:
  "ottery_st_init demo_env 16 zero_state None 7 = Ret (0, demo_state, 7)"
  "represents merged_keyed demo_state demo_prng" "st_prf demo_state = ottery_prf_chacha20_merged"
  "ready demo_env 16 demo_state" "same_process demo_env demo_state 7"
  "\<not> same_process demo_env demo_state 8" "lock_free demo_build demo_state"
  "seed_request demo_env demo_state w = demo_seed w" "seed_buffer_ok demo_env demo_state w"
  "entropy_config demo_state = demo_config" "\<not> mutex demo_state"
proof -
  obtain st where st: "ottery_st_initialize demo_env 16 zero_state None True 7 = Ret (0, st, 7)"
    "represents merged_keyed st demo_prng" "st_prf st = ottery_prf_chacha20_merged"
    "magic st = MAGIC 16" "pid st = 7" "\<not> mutex st" "entropy_config st = demo_config"
    "entropy_state st = \<lparr>urandom_fd_inode = 11\<rparr>"
    using merged20.initialize_success [OF demo_prf _ _ demo_lock_init, of 16 7 zero_state]
      demo_os_contract demo_unseeded [of 7] demo_sizes
    by (auto simp: demo_prng_def chosen_entropy_config_def demo_config_def stored_entropy_state_def)
  then have "demo_state = st" by (simp add: demo_state_def ottery_st_init_def)
  with st show "ottery_st_init demo_env 16 zero_state None 7 = Ret (0, demo_state, 7)"
    "represents merged_keyed demo_state demo_prng" "st_prf demo_state = ottery_prf_chacha20_merged"
    "ready demo_env 16 demo_state" "same_process demo_env demo_state 7"
    "\<not> same_process demo_env demo_state 8" "lock_free demo_build demo_state"
    "entropy_config demo_state = demo_config" "\<not> mutex demo_state"
    by (simp_all add: ottery_st_init_def ready_def same_process_def lock_free_def demo_locks)
  show "seed_request demo_env demo_state w = demo_seed w" "seed_buffer_ok demo_env demo_state w"
    using \<open>demo_state = st\<close> st demo_seed_request by auto
qed

lemma demo_sizes_of_state:
  "length (snd demo_prng) = 984" "pos demo_state = 40" "generator_ok demo_state"
proof -
  show l: "length (snd demo_prng) = 984"
    using merged20.length_F [of "replicate 40 165" 0]
    by (simp add: demo_prng_def spec_construct_def spec_stir_def spec_stir_at_def Let_def)
  show "pos demo_state = 40"
    using merged20.represents_facts(4,5) [OF demo_state_ok(2,3)] l by simp
  show "generator_ok demo_state" using demo_state_ok(2) by (simp add: represents_def)
qed

end
