(* ===== verification/Ottery_Locks.thy ===== *)
theory Ottery_Locks
  imports Prng_Seeding
begin

text \<open>
  Lock discipline, for any PRF and any state of the structure: what the functions do to the mutex.
  The helper lemmas follow the calls from the block loop outwards; the loops are handled by the
  fixpoint induction of their partial functions.
\<close>

lemma meta_update [simp]:
  "meta (st\<lparr>buffer := x\<rparr>) = meta st" "meta (st\<lparr>pos := i\<rparr>) = meta st"
  by (simp_all add: meta_def)

lemma from_buf_meta:
  "ottery_st_rand_bytes_from_buf b st n = Ret (out, st') \<Longrightarrow> meta st' = meta st"
  by (auto simp: ottery_st_rand_bytes_from_buf_def Let_def split: if_splits)

lemma rand_blocks_loop_meta:
  assumes "rand_blocks_loop st n out = Some (out', n', st')"
  shows "meta st' = meta st"
proof -
  have "case r of (out', n', st') \<Rightarrow> meta st' = meta st" if "rand_blocks_loop st n out = Some r" for r
  proof (rule rand_blocks_loop.raw_induct [OF _ that])
    fix loop st n out r
    assume IH: "\<And>st n out r. loop st n out = Some r \<Longrightarrow> case r of (out', n', st') \<Rightarrow> meta st' = meta st"
      and run: "(if output_len (st_prf st) \<le> n
        then let st = ottery_st_nextblock_nolock_norekey st;
                 out = out @ mem_read (buffer st) 0 (output_len (st_prf st))
             in loop st (n - output_len (st_prf st)) out
        else Some (out, n, st)) = Some r"
    show "case r of (out', n', st') \<Rightarrow> meta st' = meta st"
      using run by (auto simp: Let_def split: if_splits dest!: IH)
  qed
  from this [OF assms] show ?thesis by simp
qed

lemma rand_bytes_impl_meta:
  "ottery_st_rand_bytes_impl b st n = Ret (out, st') \<Longrightarrow> meta st' = meta st"
  by (auto simp: ottery_st_rand_bytes_impl_def outcome_simps Let_def
      dest!: from_buf_meta rand_blocks_loop_meta split: if_splits prod.splits)

lemma inttype_impl_meta: "meta (snd (RAND_INTTYPE_IMPL b k st)) = meta st"
  by (simp add: RAND_INTTYPE_IMPL_def Let_def)

lemma add_seed_block_meta [simp]: "meta (add_seed_block st seed m) = meta st"
  using meta_norekey [of st] by (simp add: add_seed_block_def Let_def meta_def)

lemma add_seed_loop_meta:
  assumes "add_seed_loop st seed n = Some st'"
  shows "meta st' = meta st"
proof (rule add_seed_loop.raw_induct [OF _ assms])
  fix loop st seed n st'
  assume IH: "\<And>st seed n st'. loop st seed n = Some st' \<Longrightarrow> meta st' = meta st"
    and run: "(if n = 0 then Some st
      else let half = state_bytes (st_prf st) div 2; m = if half < n then half else n
           in loop (add_seed_block st seed m) (drop m seed) (n - m)) = Some st'"
  show "meta st' = meta st"
    using run by (auto simp: Let_def split: if_splits dest!: IH)
qed

lemma mutex_nextblock [simp]: "mutex (ottery_st_nextblock_nolock b st) = mutex st"
  by (rule meta_eqD(4)) simp

lemma add_seed_locked_mutex:
  assumes "add_seed_locked b st seed n flags locking w = Ret (err, st', w')"
    and "locking \<longrightarrow> lock_free b st"
  shows "mutex st' = mutex st"
proof -
  define s1 where "s1 = (if locking then st\<lparr>mutex := \<not> no_locks b \<or> mutex st\<rparr> else st)"
  have "(if locking then LOCK b st else Ret st) = Ret s1"
    using assms(2) by (simp add: s1_def LOCK_free)
  then obtain s2 where s2: "add_seed_loop s1 seed n = Some s2"
    and st': "mutex st' = mutex (if locking then UNLOCK b s2 else s2)"
    using assms(1) by (auto simp: add_seed_locked_def outcome_simps Let_def UNLOCK_def)
  show ?thesis
    using meta_eqD(4) [OF add_seed_loop_meta [OF s2]] st' assms(2)
    by (auto simp: s1_def UNLOCK_def RELEASE_LOCK_def lock_free_def split: if_splits)
qed

lemma lock_free_stored [simp]: "lock_free b (stored_entropy_state st s) = lock_free b st"
  by (simp add: lock_free_def)

lemma add_seed_impl_mutex:
  assumes "ottery_st_add_seed_impl e self st seed n locking chk w = Ret (err, st', w')"
    and "locking \<longrightarrow> lock_free (e_build e) st"
  shows "mutex st' = mutex st"
  using assms
  by (auto simp: ottery_st_add_seed_impl_def outcome_simps Let_def dest: add_seed_locked_mutex
      split: if_splits)

lemma reseed_mutex:
  assumes "ottery_st_reseed e self st w = Ret (err, st', w')"
  shows "mutex st' = mutex st"
  using assms
  by (auto simp: ottery_st_reseed_def outcome_simps Let_def dest!: add_seed_impl_mutex split: if_splits)

lemma check_pid_mutex:
  "ottery_st_rand_check_pid e self st w = Ret (ok, st', w') \<Longrightarrow> mutex st' = mutex st"
  by (auto simp: ottery_st_rand_check_pid_def outcome_simps dest!: reseed_mutex split: if_splits)

text \<open>The lock is held after a successful check, and released again after a failed one.\<close>

lemma lock_and_check_mutex:
  assumes "ottery_st_rand_lock_and_check e self st w = Ret (ok, st', w')" "lock_free (e_build e) st"
  shows "mutex st' = (if ok then \<not> no_locks (e_build e) \<or> mutex st else mutex st)"
  using assms
  by (auto simp: ottery_st_rand_lock_and_check_def outcome_simps LOCK_free UNLOCK_def RELEASE_LOCK_def
      lock_free_def dest!: check_pid_mutex split: if_splits)

lemma check_nolock_mutex:
  "ottery_st_rand_check_nolock e self st w = Ret (ok, st', w') \<Longrightarrow> mutex st' = mutex st"
  by (auto simp: ottery_st_rand_check_nolock_def outcome_simps dest!: check_pid_mutex split: if_splits)

lemma rand_bytes_mutex:
  assumes "ottery_st_rand_bytes e self st n w = Ret (out, st', w')" "lock_free (e_build e) st"
  shows "mutex st' = mutex st"
proof -
  obtain ok s1 w1 where c: "ottery_st_rand_lock_and_check e self st w = Ret (ok, s1, w1)"
    using assms(1) by (auto simp: ottery_st_rand_bytes_def outcome_simps)
  show ?thesis
    using assms c lock_and_check_mutex [OF c assms(2)]
    by (auto simp: ottery_st_rand_bytes_def outcome_simps dest!: rand_bytes_impl_meta meta_eqD(4)
        simp: UNLOCK_def RELEASE_LOCK_def lock_free_def split: if_splits)
qed

lemma inttype_mutex:
  assumes "RAND_INTTYPE e self k st w = Ret (out, st', w')" "lock_free (e_build e) st"
  shows "mutex st' = mutex st"
proof -
  obtain ok s1 w1 where c: "ottery_st_rand_lock_and_check e self st w = Ret (ok, s1, w1)"
    using assms(1) by (auto simp: RAND_INTTYPE_def outcome_simps)
  show ?thesis
    using assms c lock_and_check_mutex [OF c assms(2)] meta_eqD(4) [OF inttype_impl_meta [of "e_build e" k s1]]
    by (auto simp: RAND_INTTYPE_def outcome_simps UNLOCK_def RELEASE_LOCK_def lock_free_def
        split: if_splits prod.splits)
qed

lemma inttype_nolock_mutex:
  assumes "RAND_INTTYPE_NOLOCK e self k st w = Ret (out, st', w')"
  shows "mutex st' = mutex st"
proof -
  obtain ok s1 w1 where c: "ottery_st_rand_check_nolock e self st w = Ret (ok, s1, w1)"
    using assms(1) by (auto simp: RAND_INTTYPE_NOLOCK_def outcome_simps)
  show ?thesis
    using assms c check_nolock_mutex [OF c] meta_eqD(4) [OF inttype_impl_meta [of "e_build e" k s1]]
    by (auto simp: RAND_INTTYPE_NOLOCK_def outcome_simps split: if_splits prod.splits)
qed

lemma to_int_Ret_iff [outcome_simps]:
  "to_int r = Ret (v, s) \<longleftrightarrow>
     (\<exists>bs. r = Ret (bs, s) \<and> v = (case bs of Some bs \<Rightarrow> le_word bs | None \<Rightarrow> 0))"
  by (auto simp: to_int_def outcome_simps)

text \<open>A property of the draws is a property of the loop.\<close>

lemma range_loop_invariant:
  fixes draw :: "'s \<Rightarrow> ('a::len word \<times> 's) outcome"
  assumes run: "range_loop draw divisor upper s = Some (Ret (v, s'))" and I: "I s"
    and step: "\<And>s r s'. draw s = Ret (r, s') \<Longrightarrow> I s \<Longrightarrow> I s'"
  shows "I s' \<and> v \<le> upper"
proof -
  define stable where "stable draw \<longleftrightarrow> (\<forall>s r s'. draw s = Ret (r, s') \<longrightarrow> I s \<longrightarrow> I s')"
    for draw :: "'s \<Rightarrow> ('a word \<times> 's) outcome"
  have "stable draw \<longrightarrow> r = Ret (v, s') \<longrightarrow> I s \<longrightarrow> I s' \<and> v \<le> upper"
    if "range_loop draw divisor upper s = Some r" for r
  proof (rule range_loop.raw_induct [OF _ that])
    fix loop draw divisor upper s r
    assume IH: "\<And>draw divisor upper s r. loop draw divisor upper s = Some r \<Longrightarrow>
        stable draw \<longrightarrow> r = Ret (v, s') \<longrightarrow> I s \<longrightarrow> I s' \<and> v \<le> upper"
      and body: "(case draw s of Ret r \<Rightarrow> if upper < fst r div divisor then loop draw divisor upper (snd r)
          else Some (Ret (fst r div divisor, snd r))
        | Abort err \<Rightarrow> Some (Abort err) | Crash \<Rightarrow> Some Crash | Hang \<Rightarrow> Some Hang) = Some r"
    show "stable draw \<longrightarrow> r = Ret (v, s') \<longrightarrow> I s \<longrightarrow> I s' \<and> v \<le> upper"
    proof (cases "draw s")
      case (Ret x)
      show ?thesis
        using body Ret IH [of draw divisor upper "snd x" r]
        by (cases x) (auto simp: stable_def not_less split: if_splits)
    qed (use body in auto)
  qed
  with run I step show ?thesis by (auto simp: stable_def)
qed

lemma run_loop_Ret_iff [outcome_simps]: "run_loop r = Ret x \<longleftrightarrow> r = Some (Ret x)"
  by (auto simp: run_loop_def split: option.split)

lemma range_loop_mutex:
  fixes draw :: "ottery_state \<times> 'w \<Rightarrow> ('a::len word \<times> ottery_state \<times> 'w) outcome"
  assumes "\<forall>s w r s' w'. draw (s, w) = Ret (r, s', w') \<longrightarrow> mutex s' = mutex s"
    and "run_loop (range_loop draw d upper (st, w)) = Ret (v, st', w')"
  shows "mutex st' = mutex st" "v \<le> upper"
proof -
  have run: "range_loop draw d upper (st, w) = Some (Ret (v, st', w'))"
    using assms(2) by (simp add: run_loop_Ret_iff)
  have step: "mutex (fst s2) = mutex st" if "draw s1 = Ret (r, s2)" "mutex (fst s1) = mutex st" for s1 r s2
    using that assms(1) by (metis prod.collapse)
  show "mutex st' = mutex st" "v \<le> upper"
    using range_loop_invariant [OF run, of "\<lambda>s. mutex (fst s) = mutex st", OF _ step] by simp_all
qed

lemma range_nolock_mutex:
  assumes "ottery_st_rand_range_nolock e self st upper w = Ret (v, st', w')"
  shows "mutex st' = mutex st" "v \<le> upper"
proof -
  have "\<forall>s w r s' w'. (\<lambda>(st, w). ottery_st_rand_unsigned_nolock e self st w) (s, w) = Ret (r, s', w') \<longrightarrow>
      mutex s' = mutex s"
    by (auto simp: ottery_st_rand_unsigned_nolock_def outcome_simps dest: inttype_nolock_mutex)
  from range_loop_mutex [of "\<lambda>(st, w). ottery_st_rand_unsigned_nolock e self st w", OF this
      assms [unfolded ottery_st_rand_range_nolock_def]]
  show "mutex st' = mutex st" "v \<le> upper" .
qed

lemma range64_nolock_mutex:
  assumes "ottery_st_rand_range64_nolock e self st upper w = Ret (v, st', w')"
  shows "mutex st' = mutex st" "v \<le> upper"
proof -
  have "\<forall>s w r s' w'. (\<lambda>(st, w). ottery_st_rand_uint64_nolock e self st w) (s, w) = Ret (r, s', w') \<longrightarrow>
      mutex s' = mutex s"
    by (auto simp: ottery_st_rand_uint64_nolock_def outcome_simps dest: inttype_nolock_mutex)
  from range_loop_mutex [of "\<lambda>(st, w). ottery_st_rand_uint64_nolock e self st w", OF this
      assms [unfolded ottery_st_rand_range64_nolock_def]]
  show "mutex st' = mutex st" "v \<le> upper" .
qed

lemma UNLOCK_mutex:
  "lock_free b st \<Longrightarrow> mutex s = mutex (st\<lparr>mutex := \<not> no_locks b \<or> mutex st\<rparr>) \<Longrightarrow>
     mutex (UNLOCK b s) = mutex st"
  by (auto simp: UNLOCK_def RELEASE_LOCK_def lock_free_def)

lemma range_mutex:
  assumes "ottery_st_rand_range e self st upper w = Ret (v, st', w')" "lock_free (e_build e) st"
  shows "mutex st' = mutex st \<and> v \<le> upper"
proof -
  define s1 where "s1 = st\<lparr>mutex := \<not> no_locks (e_build e) \<or> mutex st\<rparr>"
  have "st' = st \<and> v = 0 \<or> (\<exists>s2 w1. ottery_st_rand_range_nolock e self s1 upper w1 = Ret (v, s2, w') \<and>
      st' = UNLOCK (e_build e) s2)"
    using assms LOCK_free [OF assms(2)]
    by (auto simp: ottery_st_rand_range_def outcome_simps s1_def split: if_splits)
  then show ?thesis
    using range_nolock_mutex UNLOCK_mutex [OF assms(2)] unfolding s1_def by (metis word_zero_le)
qed

lemma range64_mutex:
  assumes "ottery_st_rand_range64 e self st upper w = Ret (v, st', w')" "lock_free (e_build e) st"
  shows "mutex st' = mutex st \<and> v \<le> upper"
proof -
  define s1 where "s1 = st\<lparr>mutex := \<not> no_locks (e_build e) \<or> mutex st\<rparr>"
  have "st' = st \<and> v = 0 \<or> (\<exists>s2 w1. ottery_st_rand_range64_nolock e self s1 upper w1 = Ret (v, s2, w') \<and>
      st' = UNLOCK (e_build e) s2)"
    using assms LOCK_free [OF assms(2)]
    by (auto simp: ottery_st_rand_range64_def outcome_simps s1_def split: if_splits)
  then show ?thesis
    using range64_nolock_mutex UNLOCK_mutex [OF assms(2)] unfolding s1_def by (metis word_zero_le)
qed

text \<open>A call keeps the lock as it found it, if it returns.\<close>

definition keeps_lock :: "ottery_state \<Rightarrow> ('a \<times> ottery_state \<times> 'w) outcome \<Rightarrow> bool" where
  "keeps_lock st r \<longleftrightarrow> (\<forall>x st' w'. r = Ret (x, st', w') \<longrightarrow> mutex st' = mutex st)"

lemma keeps_lockI:
  "(\<And>x st' w'. r = Ret (x, st', w') \<Longrightarrow> mutex st' = mutex st) \<Longrightarrow> keeps_lock st r"
  by (auto simp: keeps_lock_def)

lemma keeps_lock_to_int: "keeps_lock st r \<Longrightarrow> keeps_lock st (to_int r)"
  by (auto simp: keeps_lock_def outcome_simps)

text \<open>What a call does on a state that is not initialised: the handler gets the error, or the process ends.\<close>

definition refused :: "'w env \<Rightarrow> 'a \<Rightarrow> ottery_state \<Rightarrow> 'w \<Rightarrow> ('a \<times> ottery_state \<times> 'w) outcome" where
  "refused e rv st w =
     (case e_handler e of None \<Rightarrow> Abort OTTERY_ERR_STATE_INIT
      | Some h \<Rightarrow> Ret (rv, st, h OTTERY_ERR_STATE_INIT w))"

end
