(* ===== verification/Ottery_Range.thy ===== *)
theory Ottery_Range
  imports Ottery_Locks
begin

text \<open>
  Integers in a range, for any width of the integer: the divisor is never zero, every value in range
  is the quotient of equally many draws, at least half of all draws are accepted, and the rejection
  loop returns with the first accepted draw.
\<close>

lemma unat_minus_1: "unat (- 1 :: 'a::len word) = 2 ^ LENGTH('a) - 1"
  by (simp add: unsigned_minus_1_eq_mask mask_eq_exp_minus_1)

lemma unat_range_lim:
  fixes upper :: "'a::len word"
  assumes "upper + 1 \<noteq> 0"
  shows "unat (upper + 1) = unat upper + 1"
  using assms unatSuc [of upper] by (simp add: add.commute)

lemma unat_range_divisor:
  fixes upper :: "'a::len word"
  shows "unat (range_divisor upper) =
    (if upper + 1 \<noteq> 0 then (2 ^ LENGTH('a) - 1) div (unat upper + 1) else 1)"
  using unat_range_lim [of upper] unat_minus_1 [where 'a = 'a]
  by (simp add: range_divisor_def Let_def unat_div_distrib)

lemma range_divisor_bounds:
  fixes upper :: "'a::len word"
  shows "0 < unat (range_divisor upper)"
    "unat (range_divisor upper) * (unat upper + 1) \<le> 2 ^ LENGTH('a)"
    "2 ^ LENGTH('a) \<le> 2 * (unat (range_divisor upper) * (unat upper + 1))"
proof -
  define N where "N = (2 :: nat) ^ LENGTH('a)"
  define d where "d = unat (range_divisor upper)"
  have N: "0 < N" by (simp add: N_def)
  have "0 < d \<and> d * (unat upper + 1) \<le> N \<and> N \<le> 2 * (d * (unat upper + 1))"
  proof (cases "upper + 1 = 0")
    case True
    then have "upper = - 1" by (simp add: eq_neg_iff_add_eq_0)
    then show ?thesis
      using True N unat_minus_1 [where 'a = 'a] by (simp add: d_def unat_range_divisor N_def)
  next
    case False
    then have d: "d = (N - 1) div (unat upper + 1)" by (simp add: d_def unat_range_divisor N_def)
    have "unat (upper + 1) < N" by (simp add: N_def)
    then have le: "unat upper + 1 \<le> N - 1" using unat_range_lim [OF False] by simp
    then have "0 < d" unfolding d by (simp add: div_greater_zero_iff)
    define q r where "q = d * (unat upper + 1)" and "r = (N - 1) mod (unat upper + 1)"
    have "q + r = N - 1" unfolding q_def r_def d by (rule div_mult_mod_eq)
    then have "N = q + Suc r" using N by simp
    moreover have "Suc r \<le> 1 * (unat upper + 1)" by (simp add: r_def Suc_le_eq less_Suc_eq_le [symmetric])
    moreover have "1 * (unat upper + 1) \<le> q"
      unfolding q_def using \<open>0 < d\<close> by (intro mult_le_mono1) simp
    ultimately have "q \<le> N" "N \<le> 2 * q" by linarith+
    with \<open>0 < d\<close> show ?thesis by (simp add: q_def)
  qed
  then show "0 < unat (range_divisor upper)"
    "unat (range_divisor upper) * (unat upper + 1) \<le> 2 ^ LENGTH('a)"
    "2 ^ LENGTH('a) \<le> 2 * (unat (range_divisor upper) * (unat upper + 1))"
    by (simp_all add: d_def N_def)
qed

text \<open>The words whose quotient by \<open>d\<close> is \<open>v\<close>.\<close>

lemma card_quotient:
  fixes d v :: "'a::len word"
  assumes d: "0 < unat d" and fits: "unat d * (unat v + 1) \<le> 2 ^ LENGTH('a)"
  shows "card {x. x div d = v} = unat d"
proof -
  have "unat ` {x. x div d = v} = {unat d * unat v ..< unat d * unat v + unat d}"
  proof (intro equalityI subsetI)
    fix y assume "y \<in> unat ` {x. x div d = v}"
    then obtain x where "y = unat x" "x div d = v" by auto
    then have x: "y = unat x" "unat x div unat d = unat v" by (auto simp: unat_div_distrib)
    then show "y \<in> {unat d * unat v ..< unat d * unat v + unat d}"
      using d by (metis atLeastLessThan_iff div_mult_mod_eq mod_less_divisor mult.commute
          nat_add_left_cancel_less le_add1)
  next
    fix y assume y: "y \<in> {unat d * unat v ..< unat d * unat v + unat d}"
    then have "y < 2 ^ LENGTH('a)" using fits by (simp add: algebra_simps)
    then have "unat (of_nat y :: 'a word) = y" by (simp add: unat_of_nat)
    moreover have "y div unat d = unat v" using y by (intro div_nat_eqI) (auto simp: algebra_simps)
    ultimately have "of_nat y div d = v" by (simp add: word_eq_iff_unsigned [where 'a = nat] unat_div_distrib)
    then show "y \<in> unat ` {x. x div d = v}"
      using \<open>unat (of_nat y :: 'a word) = y\<close> by (metis (mono_tags) imageI mem_Collect_eq)
  qed
  moreover have "inj_on unat {x. x div d = v}"
    by (rule inj_onI) (simp add: word_eq_iff_unsigned [where 'a = nat])
  ultimately show ?thesis by (metis card_atLeastLessThan card_image diff_add_inverse)
qed

lemma range_uniform:
  fixes upper v :: "'a::len word"
  assumes "v \<le> upper"
  shows "card {x. x div range_divisor upper = v} = unat (range_divisor upper)"
proof (rule card_quotient)
  have "unat v \<le> unat upper" using assms by (simp add: word_le_nat_alt)
  then have "unat (range_divisor upper) * (unat v + 1) \<le> unat (range_divisor upper) * (unat upper + 1)" by simp
  then show "unat (range_divisor upper) * (unat v + 1) \<le> 2 ^ LENGTH('a)"
    using range_divisor_bounds(2) [of upper] by linarith
qed (rule range_divisor_bounds)

text \<open>The draws that the loop accepts.\<close>

lemma card_accepted:
  fixes upper :: "'a::len word"
  shows "card {x. x div range_divisor upper \<le> upper} = unat (range_divisor upper) * (unat upper + 1)"
proof -
  have fin: "finite (UNIV :: 'a word set)" by simp
  have "{x. x div range_divisor upper \<le> upper} = (\<Union>v\<in>{..upper}. {x. x div range_divisor upper = v})" by auto
  also have "card \<dots> = (\<Sum>v\<in>{..upper}. card {x. x div range_divisor upper = v})"
    using fin by (intro card_UN_disjoint) (auto intro: finite_subset)
  also have "\<dots> = (\<Sum>v\<in>{..upper}. unat (range_divisor upper))"
    by (rule sum.cong) (auto simp: range_uniform)
  also have "\<dots> = unat (range_divisor upper) * card {..upper}" by simp
  also have "card {..upper} = unat upper + 1"
  proof -
    have "unat ` {..upper} = {..unat upper}"
    proof (intro equalityI subsetI)
      fix y assume "y \<in> {..unat upper}"
      then have "y < 2 ^ LENGTH('a)" by (metis atMost_iff le_less_trans unsigned_less)
      then have "unat (of_nat y :: 'a word) = y" by (simp add: unat_of_nat)
      with \<open>y \<in> {..unat upper}\<close> show "y \<in> unat ` {..upper}"
        by (metis atMost_iff imageI word_le_nat_alt)
    qed (auto simp: word_le_nat_alt)
    moreover have "inj_on unat {..upper}"
      by (rule inj_onI) (simp add: word_eq_iff_unsigned [where 'a = nat])
    ultimately show ?thesis by (metis Suc_eq_plus1 card_atMost card_image)
  qed
  finally show ?thesis .
qed

section \<open>The rejection loop\<close>

text \<open>The draw number \<open>k\<close> of a sequence of draws, counted from zero.\<close>

primrec nth_draw :: "('s \<Rightarrow> ('a \<times> 's) outcome) \<Rightarrow> nat \<Rightarrow> 's \<Rightarrow> ('a \<times> 's) outcome" where
  "nth_draw draw 0 s = draw s"
| "nth_draw draw (Suc k) s = obind (draw s) (\<lambda>(_, s'). nth_draw draw k s')"

lemma range_loop_first:
  assumes "nth_draw draw k s = Ret (r, s')" "r div divisor \<le> upper"
    and "\<And>j r s'. j < k \<Longrightarrow> nth_draw draw j s = Ret (r, s') \<Longrightarrow> upper < r div divisor"
  shows "range_loop draw divisor upper s = Some (Ret (r div divisor, s'))"
  using assms
proof (induction k arbitrary: s)
  case 0
  then show ?case by (subst range_loop.simps) (auto simp: not_less [symmetric])
next
  case (Suc k)
  then obtain r0 s0 where d: "draw s = Ret (r0, s0)" by (auto simp: outcome_simps)
  then have "upper < r0 div divisor" using Suc.prems(3) [of 0] by simp
  moreover have "range_loop draw divisor upper s0 = Some (Ret (r div divisor, s'))"
    using Suc.prems d Suc.prems(3) [of "Suc j" for j] by (intro Suc.IH) auto
  ultimately show ?case using d by (subst range_loop.simps) simp
qed

end
