(* ===== verification/Ottery_Reach.thy ===== *)
theory Ottery_Reach
  imports Prng_Api Ottery_Range
begin

text \<open>
  The life of a state structure as a state machine. \<open>reachable\<close> are the structures (with the world
  they live in) that a program can have after a successful initialisation and any sequence of calls,
  with anything happening to the outside world in between: a fork, other processes, failing entropy
  sources. The invariant is proved for every call and carried along by rule induction.
\<close>

section \<open>The invariant\<close>

definition sound :: "u64 \<Rightarrow> ottery_state \<Rightarrow> bool" where
  "sound self st \<longleftrightarrow> magic st = MAGIC self \<and>
     (\<exists>F keyed s. library_prf (st_prf st) F keyed \<and> represents keyed st s)"

text \<open>A call went well if it returned with a sound state, or ended the process through the fatal error path.\<close>

fun went_well :: "u64 \<Rightarrow> ('a \<times> ottery_state \<times> 'w) outcome \<Rightarrow> bool" where
  "went_well self (Ret (x, st, w)) = sound self st"
| "went_well self (Abort err) = True"
| "went_well self Crash = False"
| "went_well self Hang = False"

lemma went_well_bind:
  assumes "went_well self r" "\<And>x st w. sound self st \<Longrightarrow> went_well self (f (x, st, w))"
  shows "went_well self (obind r f)"
  using assms by (cases r) auto

lemma went_well_to_int: "went_well self r \<Longrightarrow> went_well self (to_int r)"
  by (cases r) (auto simp: to_int_def split: prod.split)

lemma soundI:
  assumes "library_prf p F keyed" "represents keyed st s" "st_prf st = p" "magic st = MAGIC self"
  shows "sound self st"
  using assms unfolding sound_def by blast

lemma sound_update [simp]:
  "sound self (st\<lparr>mutex := m\<rparr>) = sound self st"
  "sound self (st\<lparr>pid := i\<rparr>) = sound self st"
  "sound self (UNLOCK b st) = sound self st"
  "sound self (stored_entropy_state st s) = sound self st"
  by (simp_all add: sound_def UNLOCK_def)

lemma sound_ready: "sound self st \<Longrightarrow> ready e self st"
  by (simp add: sound_def ready_def)

section \<open>Calls\<close>

lemma reseed_went_well:
  assumes "sound self st" "os_contract (e_os e)"
  shows "went_well self (ottery_st_reseed e self st w)"
proof (cases "seed_buffer_ok e st w \<and> er_err (seed_request e st w) = 0")
  case True
  obtain F keyed s where l: "library_prf (st_prf st) F keyed" "represents keyed st s"
    using assms(1) by (auto simp: sound_def)
  note c = library_prf_contract [OF l(1)]
  have st: "mem_ok st" "block_counter st = 0" using l(2) by (simp_all add: represents_def generator_ok_def)
  obtain st' where st': "ottery_st_reseed e self st w = Ret (0, st', er_world (seed_request e st w))"
    "represents keyed st' (spec_construct F (state_bytes (st_prf st)) (entropy_seed (seed_request e st w)))"
    "meta st' = meta ((stored_entropy_state st (er_state (seed_request e st w)))
       \<lparr>entropy_src_flags := er_flags (seed_request e st w),
        last_entropy_flags := er_flags (seed_request e st w)\<rparr>)"
    using prf_contract.reseed_success [OF c refl st assms(2)] True by blast
  have "sound self st'"
    using meta_eqD(1,2) [OF st'(3)] assms(1) by (intro soundI [OF l(1) st'(2)]) (simp_all add: sound_def)
  then show ?thesis by (simp add: st'(1))
next
  case False
  then show ?thesis
    using assms(1) by (cases "seed_buffer_ok e st w") (auto simp: reseed_no_buffer reseed_no_entropy)
qed

lemma check_pid_went_well:
  assumes "sound self st" "os_contract (e_os e)"
  shows "went_well self (ottery_st_rand_check_pid e self st w)"
proof -
  have "went_well self ((\<lambda>(err, st, w). if err \<noteq> 0
      then obind (ottery_fatal_error e (OTTERY_ERR_FLAG_POSTFORK_RESEED OR err) w) (\<lambda>w. Ret (False, st, w))
      else Ret (True, st\<lparr>pid := os_getpid (e_os e) w\<rparr>, w)) (err, st, w))" if "sound self st" for err st w
    using that by (simp add: ottery_fatal_error_def split: option.split)
  with assms show ?thesis
    by (auto simp: ottery_st_rand_check_pid_def intro!: went_well_bind reseed_went_well)
qed

lemma lock_and_check_went_well:
  assumes "sound self st" "os_contract (e_os e)" "lock_free (e_build e) st"
  shows "went_well self (ottery_st_rand_lock_and_check e self st w)"
  using assms
  by (auto simp: ottery_st_rand_lock_and_check_def check_init_ready sound_ready LOCK_free
      intro!: went_well_bind check_pid_went_well)

lemma check_nolock_went_well:
  assumes "sound self st" "os_contract (e_os e)"
  shows "went_well self (ottery_st_rand_check_nolock e self st w)"
  using assms
  by (auto simp: ottery_st_rand_check_nolock_def check_init_ready sound_ready
      intro!: went_well_bind check_pid_went_well)

lemma rand_bytes_impl_sound:
  assumes "sound self st" "n < 2 ^ 64 - 1024"
  shows "\<exists>out st'. ottery_st_rand_bytes_impl b st n = Ret (out, st') \<and> sound self st'"
proof -
  obtain F keyed s where l: "library_prf (st_prf st) F keyed" "represents keyed st s"
    using assms(1) by (auto simp: sound_def)
  obtain out st' s' where st': "ottery_st_rand_bytes_impl b st n = Ret (out, st')" "represents keyed st' s'"
    "meta st' = meta st"
    using prf_contract.rand_bytes_impl_represents [OF library_prf_contract [OF l(1)] l(2) refl assms(2)] by blast
  have "sound self st'"
    using meta_eqD(1,2) [OF st'(3)] assms(1) by (intro soundI [OF l(1) st'(2)]) (simp_all add: sound_def)
  with st' show ?thesis by blast
qed

lemma inttype_impl_sound:
  assumes "sound self st" "0 < k" "k \<le> 8"
  shows "sound self (snd (RAND_INTTYPE_IMPL b k st))"
proof -
  obtain F keyed s where l: "library_prf (st_prf st) F keyed" "represents keyed st s"
    using assms(1) by (auto simp: sound_def)
  obtain out st' where r: "RAND_INTTYPE_IMPL b k st = (out, st')" by fastforce
  note st' = prf_contract.inttype_represents [OF library_prf_contract [OF l(1)] l(2) refl assms(2,3) r]
  show ?thesis
    using meta_eqD(1,2) [OF st'(3)] assms(1) by (intro soundI [OF l(1)]) (use st' r in \<open>simp_all add: sound_def\<close>)
qed

lemma rand_bytes_went_well:
  assumes "sound self st" "os_contract (e_os e)" "lock_free (e_build e) st" "n < 2 ^ 64 - 1024"
  shows "went_well self (ottery_st_rand_bytes e self st n w)"
  unfolding ottery_st_rand_bytes_def
proof (rule went_well_bind [OF lock_and_check_went_well [OF assms(1-3)]])
  fix ok s1 w1 assume "sound self s1"
  from rand_bytes_impl_sound [OF this assms(4), of "e_build e"] \<open>sound self s1\<close>
  show "went_well self ((\<lambda>(ok, st, w). if \<not> ok then Ret (None, st, w)
      else obind (ottery_st_rand_bytes_impl (e_build e) st n)
        (\<lambda>(out, st). Ret (Some out, UNLOCK (e_build e) st, w))) (ok, s1, w1))"
    by auto
qed

lemma rand_bytes_nolock_went_well:
  assumes "sound self st" "os_contract (e_os e)" "n < 2 ^ 64 - 1024"
  shows "went_well self (ottery_st_rand_bytes_nolock e self st n w)"
  unfolding ottery_st_rand_bytes_nolock_def
proof (rule went_well_bind [OF check_nolock_went_well [OF assms(1,2)]])
  fix ok s1 w1 assume "sound self s1"
  from rand_bytes_impl_sound [OF this assms(3), of "e_build e"] \<open>sound self s1\<close>
  show "went_well self ((\<lambda>(ok, st, w). if \<not> ok then Ret (None, st, w)
      else obind (ottery_st_rand_bytes_impl (e_build e) st n) (\<lambda>(out, st). Ret (Some out, st, w))) (ok, s1, w1))"
    by auto
qed

lemma inttype_went_well:
  assumes "sound self st" "os_contract (e_os e)" "lock_free (e_build e) st" "0 < k" "k \<le> 8"
  shows "went_well self (RAND_INTTYPE e self k st w)"
  unfolding RAND_INTTYPE_def
  using inttype_impl_sound [OF _ assms(4,5), of self _ "e_build e"]
  by (intro went_well_bind [OF lock_and_check_went_well [OF assms(1-3)]]) (auto simp: case_prod_unfold)

lemma inttype_nolock_went_well:
  assumes "sound self st" "os_contract (e_os e)" "0 < k" "k \<le> 8"
  shows "went_well self (RAND_INTTYPE_NOLOCK e self k st w)"
  unfolding RAND_INTTYPE_NOLOCK_def
  using inttype_impl_sound [OF _ assms(3,4), of self _ "e_build e"]
  by (intro went_well_bind [OF check_nolock_went_well [OF assms(1,2)]]) (auto simp: case_prod_unfold)

lemma add_seed_went_well:
  assumes "sound self st" "os_contract (e_os e)" "locking \<longrightarrow> lock_free (e_build e) st"
    and "case seed of Some bs \<Rightarrow> n \<le> length bs | None \<Rightarrow> True"
  shows "went_well self (ottery_st_add_seed_impl e self st seed n locking True w)"
proof -
  obtain F keyed s where l: "library_prf (st_prf st) F keyed" "represents keyed st s"
    using assms(1) by (auto simp: sound_def)
  note c = library_prf_contract [OF l(1)] and ok = sound_ready [OF assms(1)]
  have keep: "sound self st'" if "represents keyed st' s'" "st_prf st' = st_prf st" "magic st' = magic st" for st' s'
    using that assms(1) by (intro soundI [OF l(1)]) (simp_all add: sound_def)
  consider bs where "seed = Some bs" "0 < n" | "seed = None \<or> n = 0" "seed_buffer_ok e st w" "er_err (seed_request e st w) = 0"
    | "seed = None \<or> n = 0" "\<not> (seed_buffer_ok e st w \<and> er_err (seed_request e st w) = 0)"
    by (metis bot_nat_0.not_eq_extremum option.exhaust)
  then show ?thesis
  proof cases
    case 1
    have len: "n \<le> length bs" using assms(4) 1 by simp
    obtain st' where st': "ottery_st_add_seed_impl e self st (Some bs) n locking True w = Ret (0, st', w)"
      "represents keyed st' (spec_add F (state_bytes (st_prf st)) (take n bs) (fst s))"
      "meta st' = meta (st\<lparr>last_entropy_flags := 0\<rparr>)"
      using prf_contract.add_seed_user [OF c l(2) refl ok assms(3) 1(2) len] by blast
    with meta_eqD(1,2) [OF st'(3)] 1 keep [OF st'(2)] show ?thesis by simp
  next
    case 2
    obtain st' where st': "ottery_st_add_seed_impl e self st seed n locking True w =
        Ret (0, st', er_world (seed_request e st w))"
      "represents keyed st' (spec_add F (state_bytes (st_prf st)) (entropy_seed (seed_request e st w)) (fst s))"
      "st_prf st' = st_prf st" "magic st' = magic st"
      using prf_contract.add_seed_os [OF c l(2) refl ok assms(3,2) 2(2,3,1)] by blast
    with keep [OF st'(2)] show ?thesis by simp
  next
    case 3
    then show ?thesis
      using ok assms(1)
      by (auto simp: ottery_st_add_seed_impl_def ready_def seed_buffer_ok_def seed_request_def Let_def)
  qed
qed

lemma prevent_backtracking_sound:
  assumes "sound self st"
  shows "sound self (ottery_st_prevent_backtracking_nolock b st)"
proof -
  obtain F keyed s where l: "library_prf (st_prf st) F keyed" "represents keyed st s"
    using assms by (auto simp: sound_def)
  note rep = prf_contract.prevent_backtracking_represents(1) [OF library_prf_contract [OF l(1)] l(2) refl]
  show ?thesis
    using assms by (intro soundI [OF l(1) rep])
      (simp_all add: sound_def ottery_st_prevent_backtracking_nolock_def)
qed

text \<open>
  The rejection loop of the range functions may draw for ever, if the PRF never yields an integer
  that is accepted; otherwise it ends well.
\<close>

lemma range_loop_went_well:
  fixes draw :: "ottery_state \<times> 'w \<Rightarrow> ('a::len word \<times> ottery_state \<times> 'w) outcome"
  assumes run: "range_loop draw divisor upper (st, w) = Some r" and "sound self st"
    and step: "\<And>st w. sound self st \<Longrightarrow> went_well self (draw (st, w))"
  shows "went_well self r"
proof -
  have "(\<forall>s. sound self (fst s) \<longrightarrow> went_well self (draw s)) \<longrightarrow> sound self (fst s) \<longrightarrow> went_well self r"
    if "range_loop draw divisor upper s = Some r" for s
  proof (rule range_loop.raw_induct [OF _ that])
    fix loop draw divisor upper s r
    assume IH: "\<And>draw divisor upper s r. loop draw divisor upper s = Some r \<Longrightarrow>
        (\<forall>s. sound self (fst s) \<longrightarrow> went_well self (draw s)) \<longrightarrow> sound self (fst s) \<longrightarrow> went_well self r"
      and body: "(case draw s of Ret r \<Rightarrow> if upper < fst r div divisor then loop draw divisor upper (snd r)
          else Some (Ret (fst r div divisor, snd r))
        | Abort err \<Rightarrow> Some (Abort err) | Crash \<Rightarrow> Some Crash | Hang \<Rightarrow> Some Hang) = Some r"
    show "(\<forall>s. sound self (fst s) \<longrightarrow> went_well self (draw s)) \<longrightarrow> sound self (fst s) \<longrightarrow> went_well self r"
    proof (intro impI)
      assume dr: "\<forall>s. sound self (fst s) \<longrightarrow> went_well self (draw s)" and "sound self (fst s)"
      then have ok: "went_well self (draw s)" by blast
      show "went_well self r"
      proof (cases "draw s")
        case (Ret x)
        obtain y st1 w1 where x: "x = (y, st1, w1)" by (cases x)
        with ok Ret have "sound self st1" by simp
        with body Ret x IH [of draw divisor upper "(st1, w1)" r] dr show ?thesis
          by (auto split: if_splits)
      qed (use body ok in auto)
    qed
  qed
  from this [OF run] step assms(2) show ?thesis by auto
qed

text \<open>The same with an endless loop allowed.\<close>

definition hung_or_well :: "u64 \<Rightarrow> ('a \<times> ottery_state \<times> 'w) outcome \<Rightarrow> bool" where
  "hung_or_well self r \<longleftrightarrow> r = Hang \<or> went_well self r"

lemma range_nolock_hung_or_well:
  assumes "sound self st" "os_contract (e_os e)"
  shows "hung_or_well self (ottery_st_rand_range_nolock e self st upper w)"
    "hung_or_well self (ottery_st_rand_range64_nolock e self st upper64 w)"
proof -
  have draw: "went_well self (ottery_st_rand_unsigned_nolock e self st w)"
    "went_well self (ottery_st_rand_uint64_nolock e self st w)" if "sound self st" for st w
    using that assms(2)
    by (simp_all add: ottery_st_rand_unsigned_nolock_def ottery_st_rand_uint64_nolock_def went_well_to_int
        inttype_nolock_went_well)
  show "hung_or_well self (ottery_st_rand_range_nolock e self st upper w)"
    using range_loop_went_well [of "\<lambda>(st, w). ottery_st_rand_unsigned_nolock e self st w", OF _ assms(1)] draw(1)
    by (auto simp: ottery_st_rand_range_nolock_def hung_or_well_def run_loop_def split: option.split)
  show "hung_or_well self (ottery_st_rand_range64_nolock e self st upper64 w)"
    using range_loop_went_well [of "\<lambda>(st, w). ottery_st_rand_uint64_nolock e self st w", OF _ assms(1)] draw(2)
    by (auto simp: ottery_st_rand_range64_nolock_def hung_or_well_def run_loop_def split: option.split)
qed

lemma hung_or_well_bind:
  assumes "hung_or_well self r" "\<And>x st w. sound self st \<Longrightarrow> hung_or_well self (f (x, st, w))"
  shows "hung_or_well self (obind r f)"
proof (cases r)
  case (Ret x)
  then show ?thesis using assms by (cases x) (simp add: hung_or_well_def)
qed (use assms in \<open>auto simp: hung_or_well_def\<close>)

lemma range_hung_or_well:
  assumes "sound self st" "os_contract (e_os e)" "lock_free (e_build e) st"
  shows "hung_or_well self (ottery_st_rand_range e self st upper w)"
    "hung_or_well self (ottery_st_rand_range64 e self st upper64 w)"
  using assms
  by (auto simp: ottery_st_rand_range_def ottery_st_rand_range64_def check_init_ready sound_ready LOCK_free
      intro!: hung_or_well_bind range_nolock_hung_or_well) (simp_all add: hung_or_well_def)

section \<open>The state machine\<close>

text \<open>
  The calls that work on an initialised state. The output pointer of a request is left out; the
  bytes and integers are the subject of the other properties.
\<close>

datatype call =
    RandBytes nat
  | RandUnsigned
  | RandUint32
  | RandUint64
  | RandRange u32
  | RandRange64 u64
  | AddSeed "bytes option" nat
  | PreventBacktracking

text \<open>A call is well formed when the sizes it is given are sizes of objects.\<close>

fun valid_call :: "call \<Rightarrow> bool" where
  "valid_call (RandBytes n) = (n < 2 ^ 64 - 1024)"
| "valid_call (AddSeed (Some bs) n) = (n \<le> length bs)"
| "valid_call _ = True"

fun draws_until_accepted :: "call \<Rightarrow> bool" where
  "draws_until_accepted (RandRange _) = True"
| "draws_until_accepted (RandRange64 _) = True"
| "draws_until_accepted _ = False"

definition state_of :: "('a \<times> ottery_state \<times> 'w) outcome \<Rightarrow> (unit \<times> ottery_state \<times> 'w) outcome" where
  "state_of r = obind r (\<lambda>(_, st, w). Ret ((), st, w))"

fun perform_locked :: "'w env \<Rightarrow> u64 \<Rightarrow> call \<Rightarrow> ottery_state \<Rightarrow> 'w \<Rightarrow> (unit \<times> ottery_state \<times> 'w) outcome" where
  "perform_locked e self (RandBytes n) st w = state_of (ottery_st_rand_bytes e self st n w)"
| "perform_locked e self RandUnsigned st w = state_of (ottery_st_rand_unsigned e self st w)"
| "perform_locked e self RandUint32 st w = state_of (ottery_st_rand_uint32 e self st w)"
| "perform_locked e self RandUint64 st w = state_of (ottery_st_rand_uint64 e self st w)"
| "perform_locked e self (RandRange upper) st w = state_of (ottery_st_rand_range e self st upper w)"
| "perform_locked e self (RandRange64 upper) st w = state_of (ottery_st_rand_range64 e self st upper w)"
| "perform_locked e self (AddSeed seed n) st w = state_of (ottery_st_add_seed e self st seed n w)"
| "perform_locked e self PreventBacktracking st w =
     obind (ottery_st_prevent_backtracking (e_build e) st) (\<lambda>st. Ret ((), st, w))"

fun perform_nolock :: "'w env \<Rightarrow> u64 \<Rightarrow> call \<Rightarrow> ottery_state \<Rightarrow> 'w \<Rightarrow> (unit \<times> ottery_state \<times> 'w) outcome" where
  "perform_nolock e self (RandBytes n) st w = state_of (ottery_st_rand_bytes_nolock e self st n w)"
| "perform_nolock e self RandUnsigned st w = state_of (ottery_st_rand_unsigned_nolock e self st w)"
| "perform_nolock e self RandUint32 st w = state_of (ottery_st_rand_uint32_nolock e self st w)"
| "perform_nolock e self RandUint64 st w = state_of (ottery_st_rand_uint64_nolock e self st w)"
| "perform_nolock e self (RandRange upper) st w = state_of (ottery_st_rand_range_nolock e self st upper w)"
| "perform_nolock e self (RandRange64 upper) st w = state_of (ottery_st_rand_range64_nolock e self st upper w)"
| "perform_nolock e self (AddSeed seed n) st w = state_of (ottery_st_add_seed_nolock e self st seed n w)"
| "perform_nolock e self PreventBacktracking st w =
     Ret ((), ottery_st_prevent_backtracking_nolock (e_build e) st, w)"

definition perform ::
    "'w env \<Rightarrow> u64 \<Rightarrow> bool \<Rightarrow> call \<Rightarrow> ottery_state \<Rightarrow> 'w \<Rightarrow> (unit \<times> ottery_state \<times> 'w) outcome" where
  "perform e self locking = (if locking then perform_locked e self else perform_nolock e self)"

text \<open>
  \<open>locked\<close> says which of the two initialisation functions made the state: a state of
  \<^verbatim>\<open>ottery_st_init_nolock\<close> has no lock, and only the \<^verbatim>\<open>_nolock\<close> calls may be used on it. Between two
  calls the outside world can change in any way.
\<close>

inductive reachable :: "'w env \<Rightarrow> u64 \<Rightarrow> bool \<Rightarrow> ottery_state \<Rightarrow> 'w \<Rightarrow> bool"
  for e self locked where
  init: "chosen_prf e cfg = Some p \<Longrightarrow> library_prf p F keyed \<Longrightarrow>
    ottery_st_initialize e self st0 cfg locked w = Ret (0, st, w') \<Longrightarrow> reachable e self locked st w'"
| world: "reachable e self locked st w \<Longrightarrow> reachable e self locked st w'"
| call: "reachable e self locked st w \<Longrightarrow> valid_call c \<Longrightarrow> locking \<longrightarrow> locked \<Longrightarrow>
    perform e self locking c st w = Ret ((), st', w') \<Longrightarrow> reachable e self locked st' w'"

inductive_cases reachableE: "reachable e self locked st w"

lemma went_well_state_of [simp]: "went_well self (state_of r) = went_well self r"
proof (cases r)
  case (Ret x)
  then show ?thesis by (cases x) (simp add: state_of_def)
qed (simp_all add: state_of_def)

lemma hung_or_well_state_of [simp]: "hung_or_well self (state_of r) = hung_or_well self r"
proof -
  have "state_of r = Hang \<longleftrightarrow> r = Hang" by (cases r) (auto simp: state_of_def)
  then show ?thesis by (simp add: hung_or_well_def)
qed

lemma perform_went_well:
  assumes st: "sound self st" "\<not> mutex st" and os: "os_contract (e_os e)"
    and c: "valid_call c" "\<not> draws_until_accepted c"
  shows "went_well self (perform e self locking c st w)"
proof -
  have free: "lock_free (e_build e) st" using st(2) by (simp add: lock_free_def)
  have seed: "case s of None \<Rightarrow> True | Some bs \<Rightarrow> n \<le> length bs" if "valid_call (AddSeed s n)" for s n
    using that by (cases s) auto
  show ?thesis
    using c
    by (cases c; cases locking)
       (simp_all add: perform_def ottery_st_rand_unsigned_def ottery_st_rand_uint32_def ottery_st_rand_uint64_def
         ottery_st_rand_unsigned_nolock_def ottery_st_rand_uint32_nolock_def ottery_st_rand_uint64_nolock_def
         ottery_st_add_seed_def ottery_st_add_seed_nolock_def ottery_st_prevent_backtracking_def
         went_well_to_int rand_bytes_went_well rand_bytes_nolock_went_well inttype_went_well
         inttype_nolock_went_well add_seed_went_well prevent_backtracking_sound seed LOCK_free free st os)
qed

lemma perform_hung_or_well:
  assumes st: "sound self st" "\<not> mutex st" and os: "os_contract (e_os e)" and c: "valid_call c"
  shows "hung_or_well self (perform e self locking c st w)"
proof (cases "draws_until_accepted c")
  case True
  have "lock_free (e_build e) st" using st(2) by (simp add: lock_free_def)
  with True st os show ?thesis
    by (cases c) (simp_all add: perform_def range_hung_or_well range_nolock_hung_or_well)
next
  case False
  then show ?thesis using perform_went_well [OF st os c] by (simp add: hung_or_well_def)
qed

lemma rand_bytes_nolock_mutex:
  assumes "ottery_st_rand_bytes_nolock e self st n w = Ret (out, st', w')"
  shows "mutex st' = mutex st"
proof -
  obtain ok s1 w1 where c: "ottery_st_rand_check_nolock e self st w = Ret (ok, s1, w1)"
    using assms by (auto simp: ottery_st_rand_bytes_nolock_def outcome_simps)
  show ?thesis
    using assms c check_nolock_mutex [OF c]
    by (auto simp: ottery_st_rand_bytes_nolock_def outcome_simps dest!: rand_bytes_impl_meta meta_eqD(4)
        split: if_splits)
qed

lemma prevent_backtracking_mutex [simp]:
  "mutex (ottery_st_prevent_backtracking_nolock b st) = mutex st"
  by (simp add: ottery_st_prevent_backtracking_nolock_def)

lemma state_of_Ret_iff [outcome_simps]:
  "state_of r = Ret (u, st, w) \<longleftrightarrow> (\<exists>x. r = Ret (x, st, w))"
  by (auto simp: state_of_def outcome_simps)

lemma perform_nolock_mutex:
  "perform_nolock e self c st w = Ret (u, st', w') \<Longrightarrow> mutex st' = mutex st"
  by (cases c)
     (auto simp: outcome_simps ottery_st_rand_unsigned_nolock_def ottery_st_rand_uint32_nolock_def
       ottery_st_rand_uint64_nolock_def ottery_st_add_seed_nolock_def
       dest: rand_bytes_nolock_mutex inttype_nolock_mutex range_nolock_mutex range64_nolock_mutex
         add_seed_impl_mutex)

lemma perform_locked_mutex:
  assumes "perform_locked e self c st w = Ret (u, st', w')" "lock_free (e_build e) st"
  shows "mutex st' = mutex st"
proof -
  note int = inttype_mutex [OF _ assms(2)]
  show ?thesis
    using assms(1)
  proof (cases c)
    case (RandRange upper)
    then show ?thesis using assms(1) range_mutex [OF _ assms(2)] by (simp add: outcome_simps) metis
  next
    case (RandRange64 upper)
    then show ?thesis using assms(1) range64_mutex [OF _ assms(2)] by (simp add: outcome_simps) metis
  next
    case (AddSeed seed n)
    then show ?thesis
      using assms(1) add_seed_impl_mutex [OF _ impI [OF assms(2)]]
      by (simp add: outcome_simps ottery_st_add_seed_def) metis
  next
    case PreventBacktracking
    then have "st' = UNLOCK (e_build e) (ottery_st_prevent_backtracking_nolock (e_build e)
        (st\<lparr>mutex := \<not> no_locks (e_build e) \<or> mutex st\<rparr>))"
      using assms(1) by (simp add: LOCK_free [OF assms(2)] ottery_st_prevent_backtracking_def)
    then show ?thesis by (simp only:) (rule UNLOCK_mutex [OF assms(2)], simp)
  qed (use int rand_bytes_mutex [OF _ assms(2)] in
      \<open>auto simp: outcome_simps ottery_st_rand_unsigned_def ottery_st_rand_uint32_def ottery_st_rand_uint64_def\<close>)
qed

lemma perform_mutex:
  "perform e self locking c st w = Ret (u, st', w') \<Longrightarrow> \<not> mutex st \<Longrightarrow> \<not> mutex st'"
  using perform_locked_mutex perform_nolock_mutex
  by (metis lock_free_def perform_def)

text \<open>A successful initialisation establishes the invariant.\<close>

lemma initialize_sound:
  assumes "chosen_prf e cfg = Some p" "library_prf p F keyed" "os_contract (e_os e)"
    and run: "ottery_st_initialize e self st0 cfg locked w = Ret (0, st, w')"
  shows "sound self st \<and> \<not> mutex st"
proof -
  note c = library_prf_contract [OF assms(2)]
  have al: "self AND 0xF = 0"
    using run by (auto simp: initialize_eq [OF assms(1)] err_defs split: if_splits)
  define w1 where "w1 = snd (lock_init e locked w)"
  have good: "\<not> fst (lock_init e locked w)" "sizes_ok (e_build e)"
    "seed_buffer_ok e (unseeded_state cfg p) w1" "er_err (seed_request e (unseeded_state cfg p) w1) = 0"
    using initialize_error [OF assms(1) al, of locked w st0] run by (auto simp: w1_def)
  have "lock_init e locked w = (False, w1)" using good(1) by (simp add: w1_def prod_eq_iff)
  from prf_contract.initialize_success [OF c assms(1) al good(2) this assms(3) good(3,4), of st0] run
  have "represents keyed st (spec_construct F (state_bytes p) (entropy_seed (seed_request e (unseeded_state cfg p) w1)))"
    "st_prf st = p" "magic st = MAGIC self" "\<not> mutex st" by auto
  then show ?thesis using soundI [OF assms(2)] by simp
qed

lemma reachable_invariant:
  assumes "reachable e self locked st w" "os_contract (e_os e)"
  shows "sound self st \<and> \<not> mutex st"
  using assms(1)
proof (induction rule: reachable.induct)
  case (init cfg p F keyed st0 w st w')
  then show ?case by (intro initialize_sound [OF _ _ assms(2)])
next
  case (call st w c locking st' w')
  then show ?case
    using perform_hung_or_well [of self st e c locking w] perform_mutex [OF call(4)] assms(2)
    by (simp add: hung_or_well_def)
qed

end
