(* ===== verification/Ottery_Threads.thy ===== *)
theory Ottery_Threads
  imports Ottery_Reach
begin

text \<open>
  Threads of one process that share a state structure. Each locking call of \<^verbatim>\<open>src/ottery_st.h\<close> is
  taken apart where other threads can come in between: the test of the magic number, taking the lock,
  the test of the process identifier, the work on the generator, and releasing the lock. \<open>thread_step\<close>
  lets one thread do one of these; a run is any interleaving. The main result is that the calls are
  atomic: what the threads got is what they would have got by calling one after the other, in the
  order in which they released the lock.

  \<^verbatim>\<open>ottery_st_add_seed\<close> without a seed, which fills the cached inode of the structure while it does not
  hold the lock, is not one of the calls here; \<open>Seed_Threads\<close> has it.
\<close>

section \<open>Calls and replies\<close>

datatype reply =
    GotBytes "bytes option"
  | GotInt nat
  | GotCode u32
  | GotNothing

definition replies :: "('a \<Rightarrow> reply) \<Rightarrow> ('a \<times> ottery_state \<times> 'w) outcome \<Rightarrow> (reply \<times> ottery_state \<times> 'w) outcome" where
  "replies f r = obind r (\<lambda>(x, st, w). Ret (f x, st, w))"

text \<open>The calls of a thread, with the result that the caller sees.\<close>

fun api :: "'w env \<Rightarrow> u64 \<Rightarrow> call \<Rightarrow> ottery_state \<Rightarrow> 'w \<Rightarrow> (reply \<times> ottery_state \<times> 'w) outcome" where
  "api e self (RandBytes n) st w = replies GotBytes (ottery_st_rand_bytes e self st n w)"
| "api e self RandUnsigned st w = replies (\<lambda>v. GotInt (unat v)) (ottery_st_rand_unsigned e self st w)"
| "api e self RandUint32 st w = replies (\<lambda>v. GotInt (unat v)) (ottery_st_rand_uint32 e self st w)"
| "api e self RandUint64 st w = replies (\<lambda>v. GotInt (unat v)) (ottery_st_rand_uint64 e self st w)"
| "api e self (RandRange upper) st w = replies (\<lambda>v. GotInt (unat v)) (ottery_st_rand_range e self st upper w)"
| "api e self (RandRange64 upper) st w = replies (\<lambda>v. GotInt (unat v)) (ottery_st_rand_range64 e self st upper w)"
| "api e self (AddSeed seed n) st w = replies GotCode (ottery_st_add_seed e self st seed n w)"
| "api e self PreventBacktracking st w =
     obind (ottery_st_prevent_backtracking (e_build e) st) (\<lambda>st. Ret (GotNothing, st, w))"

lemma state_of_replies [simp]: "state_of (replies f x) = state_of x"
  by (cases x) (auto simp: state_of_def replies_def)

lemma api_perform: "state_of (api e self c st w) = perform e self True c st w"
  by (cases c) (simp_all add: perform_def state_of_def [of "obind _ _"] obind_assoc)

section \<open>The parts of a call\<close>

fun checks_pid :: "call \<Rightarrow> bool" where
  "checks_pid (RandBytes _) = True"
| "checks_pid RandUnsigned = True"
| "checks_pid RandUint32 = True"
| "checks_pid RandUint64 = True"
| "checks_pid _ = False"

text \<open>Before the lock: everything but \<^verbatim>\<open>ottery_st_prevent_backtracking\<close> looks at the magic number.\<close>

definition before_lock :: "'w env \<Rightarrow> u64 \<Rightarrow> call \<Rightarrow> ottery_state \<Rightarrow> bool" where
  "before_lock e self c st = (c = PreventBacktracking \<or> opt_no_init_check (e_build e) \<or> magic st = MAGIC self)"

text \<open>After the lock: the requests look at the process identifier. (The range functions do so for every draw.)\<close>

definition after_lock ::
    "'w env \<Rightarrow> u64 \<Rightarrow> call \<Rightarrow> ottery_state \<Rightarrow> 'w \<Rightarrow> (bool \<times> ottery_state \<times> 'w) outcome" where
  "after_lock e self c st w =
     (if checks_pid c then ottery_st_rand_check_pid e self st w else Ret (True, st, w))"

definition integer :: "nat \<Rightarrow> bytes \<Rightarrow> reply" where
  "integer k bs = GotInt (if k = 4 then unat (le_word bs :: u32) else unat (le_word bs :: u64))"

fun work :: "'w env \<Rightarrow> u64 \<Rightarrow> call \<Rightarrow> ottery_state \<Rightarrow> 'w \<Rightarrow> (reply \<times> ottery_state \<times> 'w) outcome" where
  "work e self (RandBytes n) st w =
     obind (ottery_st_rand_bytes_impl (e_build e) st n) (\<lambda>(out, st). Ret (GotBytes (Some out), st, w))"
| "work e self RandUnsigned st w =
     (case RAND_INTTYPE_IMPL (e_build e) 4 st of (bs, st) \<Rightarrow> Ret (integer 4 bs, st, w))"
| "work e self RandUint32 st w =
     (case RAND_INTTYPE_IMPL (e_build e) 4 st of (bs, st) \<Rightarrow> Ret (integer 4 bs, st, w))"
| "work e self RandUint64 st w =
     (case RAND_INTTYPE_IMPL (e_build e) 8 st of (bs, st) \<Rightarrow> Ret (integer 8 bs, st, w))"
| "work e self (RandRange upper) st w =
     replies (\<lambda>v. GotInt (unat v)) (ottery_st_rand_range_nolock e self st upper w)"
| "work e self (RandRange64 upper) st w =
     replies (\<lambda>v. GotInt (unat v)) (ottery_st_rand_range64_nolock e self st upper w)"
| "work e self (AddSeed seed n) st w =
     replies GotCode (add_seed_locked (e_build e) st (the seed) n 0 False w)"
| "work e self PreventBacktracking st w =
     Ret (GotNothing, ottery_st_prevent_backtracking_nolock (e_build e) st, w)"

fun refusal :: "call \<Rightarrow> reply" where
  "refusal (RandBytes _) = GotBytes None"
| "refusal _ = GotInt 0"

fun has_seed :: "call \<Rightarrow> bool" where
  "has_seed (AddSeed seed n) = (seed \<noteq> None \<and> n \<noteq> 0)"
| "has_seed _ = True"

definition critical_section ::
    "'w env \<Rightarrow> u64 \<Rightarrow> call \<Rightarrow> ottery_state \<Rightarrow> 'w \<Rightarrow> (reply \<times> ottery_state \<times> 'w) outcome" where
  "critical_section e self c st w =
     obind (after_lock e self c st w) (\<lambda>(ok, st, w).
       if ok then work e self c st w else Ret (refusal c, st, w))"

text \<open>The parts, one after the other, are the call.\<close>

lemma inttype_parts:
  assumes "opt_no_init_check (e_build e) \<or> magic st = MAGIC self"
  shows "RAND_INTTYPE e self k st w = obind (LOCK (e_build e) st) (\<lambda>st.
      obind (ottery_st_rand_check_pid e self st w) (\<lambda>(ok, st, w).
        if ok then (case RAND_INTTYPE_IMPL (e_build e) k st of (bs, st) \<Rightarrow> Ret (Some bs, UNLOCK (e_build e) st, w))
        else Ret (None, UNLOCK (e_build e) st, w)))"
  using assms
  by (auto simp: RAND_INTTYPE_def ottery_st_rand_lock_and_check_def ottery_st_rand_check_init_def obind_assoc
      obind_if split: prod.split intro!: obind_cong)

lemma add_seed_parts:
  "add_seed_locked b st seed n flags True w = obind (LOCK b st) (\<lambda>st.
     obind (add_seed_locked b st seed n flags False w) (\<lambda>(r, st, w). Ret (r, UNLOCK b st, w)))"
  by (auto simp: add_seed_locked_def obind_assoc Let_def intro!: obind_cong)

lemma integer_of [simp]:
  "GotInt (unat (le_word bs :: u32)) = integer 4 bs" "GotInt (unat (le_word bs :: u64)) = integer 8 bs"
  by (simp_all add: integer_def)

lemma api_parts:
  assumes "before_lock e self c st" "has_seed c"
  shows "api e self c st w = obind (LOCK (e_build e) st) (\<lambda>st.
      obind (critical_section e self c st w) (\<lambda>(r, st, w). Ret (r, UNLOCK (e_build e) st, w)))"
proof (cases "c = PreventBacktracking")
  case True
  then show ?thesis
    by (auto simp: critical_section_def after_lock_def ottery_st_prevent_backtracking_def obind_assoc
        intro!: obind_cong)
next
  case False
  then have ready: "opt_no_init_check (e_build e) \<or> magic st = MAGIC self"
    using assms(1) by (simp add: before_lock_def)
  note defs = replies_def critical_section_def after_lock_def obind_assoc obind_if to_int_def
  show ?thesis
  proof (cases c)
    case (RandBytes n)
    with ready show ?thesis
      by (auto simp: defs ottery_st_rand_bytes_def ottery_st_rand_lock_and_check_def
          ottery_st_rand_check_init_def split: prod.split intro!: obind_cong)
  next
    case (AddSeed seed n)
    with ready assms(2) show ?thesis
      by (auto simp: defs ottery_st_add_seed_def ottery_st_add_seed_impl_def add_seed_parts Let_def
          intro!: obind_cong)
  next
    case (RandRange upper)
    with ready show ?thesis
      by (auto simp: defs ottery_st_rand_range_def ottery_st_rand_check_init_def intro!: obind_cong)
  next
    case (RandRange64 upper)
    with ready show ?thesis
      by (auto simp: defs ottery_st_rand_range64_def ottery_st_rand_check_init_def intro!: obind_cong)
  qed (use False in \<open>auto simp: defs ottery_st_rand_unsigned_def ottery_st_rand_uint32_def
        ottery_st_rand_uint64_def inttype_parts [OF ready] split: prod.split intro!: obind_cong\<close>)
qed

section \<open>Interleaving\<close>

datatype pc =
    Idle
  | Checked call
  | Entered call
  | Verified call
  | Finished call reply

fun inside :: "pc \<Rightarrow> bool" where
  "inside (Entered _) = True"
| "inside (Verified _) = True"
| "inside (Finished _ _) = True"
| "inside _ = False"

text \<open>
  The structure and the world are shared; \<open>history\<close> records the calls that have returned, with their
  results, in the order in which they released the lock.
\<close>

record 'w system =
  shared :: ottery_state
  sys_world :: 'w
  pcs :: "nat \<Rightarrow> pc"
  history :: "(nat \<times> call \<times> reply) list"

inductive thread_step :: "'w env \<Rightarrow> u64 \<Rightarrow> nat \<Rightarrow> 'w system \<Rightarrow> 'w system \<Rightarrow> bool"
  for e self i where
  check: "pcs s i = Idle \<Longrightarrow> valid_call c \<Longrightarrow> has_seed c \<Longrightarrow> before_lock e self c (shared s) \<Longrightarrow>
    thread_step e self i s (s\<lparr>pcs := (pcs s)(i := Checked c)\<rparr>)"
| lock: "pcs s i = Checked c \<Longrightarrow> LOCK (e_build e) (shared s) = Ret st \<Longrightarrow>
    thread_step e self i s (s\<lparr>shared := st, pcs := (pcs s)(i := Entered c)\<rparr>)"
| verify: "pcs s i = Entered c \<Longrightarrow> after_lock e self c (shared s) (sys_world s) = Ret (True, st, w) \<Longrightarrow>
    thread_step e self i s (s\<lparr>shared := st, sys_world := w, pcs := (pcs s)(i := Verified c)\<rparr>)"
| refuse: "pcs s i = Entered c \<Longrightarrow> after_lock e self c (shared s) (sys_world s) = Ret (False, st, w) \<Longrightarrow>
    thread_step e self i s (s\<lparr>shared := st, sys_world := w, pcs := (pcs s)(i := Finished c (refusal c))\<rparr>)"
| work: "pcs s i = Verified c \<Longrightarrow> work e self c (shared s) (sys_world s) = Ret (r, st, w) \<Longrightarrow>
    thread_step e self i s (s\<lparr>shared := st, sys_world := w, pcs := (pcs s)(i := Finished c r)\<rparr>)"
| unlock: "pcs s i = Finished c r \<Longrightarrow>
    thread_step e self i s (s\<lparr>shared := UNLOCK (e_build e) (shared s), pcs := (pcs s)(i := Idle),
      history := history s @ [(i, c, r)]\<rparr>)"

definition some_thread :: "'w env \<Rightarrow> u64 \<Rightarrow> 'w system \<Rightarrow> 'w system \<Rightarrow> bool" where
  "some_thread e self s s' = (\<exists>i. thread_step e self i s s')"

definition threads :: "'w env \<Rightarrow> u64 \<Rightarrow> 'w system \<Rightarrow> 'w system \<Rightarrow> bool" where
  "threads e self = (some_thread e self)\<^sup>*\<^sup>*"

lemma threads_none: "threads e self s s"
  by (simp add: threads_def)

lemma threads_more: "threads e self s s' \<Longrightarrow> thread_step e self i s' s'' \<Longrightarrow> threads e self s s''"
  unfolding threads_def some_thread_def by (rule rtranclp.rtrancl_into_rtrancl) blast+

definition at_rest :: "ottery_state \<Rightarrow> 'w \<Rightarrow> 'w system" where
  "at_rest st w = \<lparr>shared = st, sys_world = w, pcs = (\<lambda>_. Idle), history = []\<rparr>"

text \<open>The same calls one after the other, each with the same result.\<close>

fun one_by_one ::
    "'w env \<Rightarrow> u64 \<Rightarrow> (nat \<times> call \<times> reply) list \<Rightarrow> ottery_state \<Rightarrow> 'w \<Rightarrow> (ottery_state \<times> 'w) option" where
  "one_by_one e self [] st w = Some (st, w)"
| "one_by_one e self ((i, c, r) # h) st w =
     (case api e self c st w of
        Ret (r', st', w') \<Rightarrow> if r' = r then one_by_one e self h st' w' else None
      | _ \<Rightarrow> None)"

lemma one_by_one_append:
  "one_by_one e self (h @ h') st w =
     (case one_by_one e self h st w of None \<Rightarrow> None | Some (st, w) \<Rightarrow> one_by_one e self h' st w)"
  by (induction e self h st w rule: one_by_one.induct) (auto split: outcome.split)

section \<open>The lock protects the structure\<close>

lemma work_mutex:
  assumes "work e self c st w = Ret (r, st', w')"
  shows "mutex st' = mutex st"
proof -
  have int: "mutex st' = mutex st" if "RAND_INTTYPE_IMPL b k st = (bs, st')" for b k bs
    using meta_eqD(4) [OF inttype_impl_meta [of b k st]] that by simp
  show ?thesis
    using assms
    by (cases c)
       (auto simp: outcome_simps replies_def split: prod.splits dest: int rand_bytes_impl_meta meta_eqD(4)
         range_nolock_mutex range64_nolock_mutex add_seed_locked_mutex)
qed

lemma after_lock_mutex:
  "after_lock e self c st w = Ret (ok, st', w') \<Longrightarrow> mutex st' = mutex st"
  by (auto simp: after_lock_def dest: check_pid_mutex split: if_splits)

lemma LOCK_Ret:
  assumes "LOCK b st = Ret st'" "\<not> no_locks b"
  shows "st' = st\<lparr>mutex := True\<rparr>" "\<not> mutex st"
  using assms by (auto simp: LOCK_def ACQUIRE_LOCK_def split: if_splits)

section \<open>The invariant\<close>

fun good_pc :: "pc \<Rightarrow> bool" where
  "good_pc Idle = True"
| "good_pc (Checked c) = (valid_call c \<and> has_seed c)"
| "good_pc (Entered c) = (valid_call c \<and> has_seed c)"
| "good_pc (Verified c) = (valid_call c \<and> has_seed c)"
| "good_pc (Finished c r) = (valid_call c \<and> has_seed c)"

text \<open>How far the thread that holds the lock has come with its call on the state \<open>st\<close>.\<close>

fun partway :: "'w env \<Rightarrow> u64 \<Rightarrow> ottery_state \<Rightarrow> 'w \<Rightarrow> pc \<Rightarrow> ottery_state \<Rightarrow> 'w \<Rightarrow> bool" where
  "partway e self st w (Entered c) st' w' = (st' = st\<lparr>mutex := True\<rparr> \<and> w' = w)"
| "partway e self st w (Verified c) st' w' =
     (after_lock e self c (st\<lparr>mutex := True\<rparr>) w = Ret (True, st', w'))"
| "partway e self st w (Finished c r) st' w' =
     (critical_section e self c (st\<lparr>mutex := True\<rparr>) w = Ret (r, st', w'))"
| "partway e self st w _ st' w' = False"

definition nobody_inside :: "'w system \<Rightarrow> ottery_state \<Rightarrow> 'w \<Rightarrow> bool" where
  "nobody_inside s st w = ((\<forall>i. \<not> inside (pcs s i)) \<and> shared s = st \<and> sys_world s = w)"

definition one_inside :: "'w env \<Rightarrow> u64 \<Rightarrow> 'w system \<Rightarrow> nat \<Rightarrow> ottery_state \<Rightarrow> 'w \<Rightarrow> bool" where
  "one_inside e self s h st w = ((\<forall>i. inside (pcs s i) \<longleftrightarrow> i = h) \<and>
     partway e self st w (pcs s h) (shared s) (sys_world s))"

definition consistent :: "'w env \<Rightarrow> u64 \<Rightarrow> ottery_state \<Rightarrow> 'w \<Rightarrow> 'w system \<Rightarrow> bool" where
  "consistent e self st0 w0 s = ((\<forall>i. good_pc (pcs s i)) \<and>
     (\<exists>st w. one_by_one e self (history s) st0 w0 = Some (st, w) \<and> reachable e self True st w \<and>
        (nobody_inside s st w \<or> (\<exists>h. one_inside e self s h st w))))"

lemma critical_section_mutex:
  "critical_section e self c st w = Ret (r, st', w') \<Longrightarrow> mutex st' = mutex st"
  by (auto simp: critical_section_def outcome_simps dest!: after_lock_mutex work_mutex split: if_splits)

lemma partway_mutex: "partway e self st w p st' w' \<Longrightarrow> mutex st'"
  by (cases p) (auto dest: after_lock_mutex critical_section_mutex)

text \<open>The holder goes on inside the critical section.\<close>

lemma one_inside_step:
  assumes "one_inside e self s h st w" "partway e self st w p st' w'" "inside p"
  shows "one_inside e self (s\<lparr>shared := st', sys_world := w', pcs := (pcs s)(h := p)\<rparr>) h st w"
  using assms by (simp add: one_inside_def)

text \<open>A step outside of it disturbs nobody.\<close>

lemma outside_step:
  assumes "\<not> inside (pcs s i)" "\<not> inside p"
  shows "nobody_inside s st w \<Longrightarrow> nobody_inside (s\<lparr>pcs := (pcs s)(i := p)\<rparr>) st w"
    "one_inside e self s h st w \<Longrightarrow> one_inside e self (s\<lparr>pcs := (pcs s)(i := p)\<rparr>) h st w"
  using assms by (auto simp: nobody_inside_def one_inside_def)

text \<open>Releasing the lock completes the call.\<close>

lemma finish_call:
  assumes "reachable e self True st w" "os_contract (e_os e)" "\<not> no_locks (e_build e)"
    and "valid_call c" "has_seed c"
    and "critical_section e self c (st\<lparr>mutex := True\<rparr>) w = Ret (r, st', w')"
  shows "api e self c st w = Ret (r, UNLOCK (e_build e) st', w')"
    "reachable e self True (UNLOCK (e_build e) st') w'"
proof -
  have st: "sound self st" "\<not> mutex st" using reachable_invariant [OF assms(1,2)] by simp_all
  have "before_lock e self c st" using st(1) by (simp add: before_lock_def sound_def)
  moreover have "LOCK (e_build e) st = Ret (st\<lparr>mutex := True\<rparr>)"
    using LOCK_free [of "e_build e" st] st(2) assms(3) by (simp add: lock_free_def)
  ultimately show api: "api e self c st w = Ret (r, UNLOCK (e_build e) st', w')"
    using api_parts [of e self c st w] assms(5,6) by simp
  have "perform e self True c st w = Ret ((), UNLOCK (e_build e) st', w')"
    using api_perform [of e self c st w] api by (simp add: state_of_def)
  then show "reachable e self True (UNLOCK (e_build e) st') w'"
    using reachable.call [OF assms(1,4)] by simp
qed

lemma thread_step_consistent:
  assumes "thread_step e self i s s'" "consistent e self st0 w0 s"
    and "os_contract (e_os e)" "\<not> no_locks (e_build e)"
  shows "consistent e self st0 w0 s'"
proof -
  obtain st w where h: "one_by_one e self (history s) st0 w0 = Some (st, w)" "reachable e self True st w"
    and good: "\<And>i. good_pc (pcs s i)"
    and cs: "nobody_inside s st w \<or> (\<exists>h. one_inside e self s h st w)"
    using assms(2) unfolding consistent_def by blast
  have holder: "one_inside e self s i st w" if "inside (pcs s i)"
    using cs that by (auto simp: nobody_inside_def one_inside_def)
  show ?thesis
    using assms(1)
  proof cases
    case (check c)
    have "nobody_inside s' st w \<or> (\<exists>h. one_inside e self s' h st w)"
      using cs outside_step [of s i "Checked c"] unfolding check(1) by (simp add: check(2)) metis
    then show ?thesis using h good check by (auto simp: consistent_def)
  next
    case (lock c t)
    have free: "\<not> mutex (shared s)" "t = (shared s)\<lparr>mutex := True\<rparr>" using LOCK_Ret [OF lock(3) assms(4)] by simp_all
    then have "nobody_inside s st w" using cs partway_mutex unfolding one_inside_def by metis
    then have "one_inside e self s' i st w" using lock free by (auto simp: nobody_inside_def one_inside_def)
    then show ?thesis using h good [of i] good lock by (auto simp: consistent_def)
  next
    case (verify c t w')
    have "partway e self st w (Verified c) t w'" using holder verify by (simp add: one_inside_def)
    from one_inside_step [OF holder this] have "one_inside e self s' i st w" using verify by simp
    then show ?thesis using h good [of i] good verify by (auto simp: consistent_def)
  next
    case (refuse c t w')
    have "partway e self st w (Finished c (refusal c)) t w'"
      using holder refuse by (simp add: one_inside_def critical_section_def)
    from one_inside_step [OF holder this] have "one_inside e self s' i st w" using refuse by simp
    then show ?thesis using h good [of i] good refuse by (auto simp: consistent_def)
  next
    case (work c r t w')
    have "partway e self st w (Finished c r) t w'"
      using holder work by (simp add: one_inside_def critical_section_def)
    from one_inside_step [OF holder this] have "one_inside e self s' i st w" using work by simp
    then show ?thesis using h good [of i] good work by (auto simp: consistent_def)
  next
    case (unlock c r)
    have c: "valid_call c" "has_seed c" using good [of i] unlock by simp_all
    have "critical_section e self c (st\<lparr>mutex := True\<rparr>) w = Ret (r, shared s, sys_world s)"
      using holder unlock by (simp add: one_inside_def)
    note fin = finish_call [OF h(2) assms(3,4) c this]
    have "one_by_one e self (history s') st0 w0 = Some (shared s', sys_world s')"
      using unlock h(1) fin(1) by (simp add: one_by_one_append)
    moreover have "nobody_inside s' (shared s') (sys_world s')"
      using holder unlock by (auto simp: nobody_inside_def one_inside_def)
    ultimately show ?thesis using fin(2) good unlock by (auto simp: consistent_def)
  qed
qed

interpretation sharing: inductive_invariant "\<lambda>s. s = at_rest st0 w0" "some_thread e self"
  "\<lambda>s. reachable e self True st0 w0 \<and> os_contract (e_os e) \<and> \<not> no_locks (e_build e) \<longrightarrow> consistent e self st0 w0 s"
  for e self st0 w0
proof unfold_locales
  fix s assume "s = at_rest st0 w0"
  then show "reachable e self True st0 w0 \<and> os_contract (e_os e) \<and> \<not> no_locks (e_build e) \<longrightarrow>
      consistent e self st0 w0 s"
    by (auto simp: consistent_def at_rest_def nobody_inside_def)
qed (auto simp: some_thread_def intro: thread_step_consistent)

lemmas threads_consistent = sharing.always [folded threads_def, OF _ refl, rule_format, OF _ conjI [OF _ conjI]]

section \<open>Progress\<close>

text \<open>The process ends in the fatal error path of thread \<open>i\<close>.\<close>

definition dying :: "'w env \<Rightarrow> u64 \<Rightarrow> 'w system \<Rightarrow> nat \<Rightarrow> bool" where
  "dying e self s i = (\<exists>c err. pcs s i = Entered c \<and> after_lock e self c (shared s) (sys_world s) = Abort err \<or>
     pcs s i = Verified c \<and> work e self c (shared s) (sys_world s) = Abort err)"

text \<open>Thread \<open>i\<close> is in the rejection loop and will never draw an integer that it accepts.\<close>

definition drawing_for_ever :: "'w env \<Rightarrow> u64 \<Rightarrow> 'w system \<Rightarrow> nat \<Rightarrow> bool" where
  "drawing_for_ever e self s i = (\<exists>c. pcs s i = Verified c \<and> draws_until_accepted c \<and>
     work e self c (shared s) (sys_world s) = Hang)"

lemma after_lock_went_well:
  "sound self st \<Longrightarrow> os_contract (e_os e) \<Longrightarrow> went_well self (after_lock e self c st w)"
  by (simp add: after_lock_def check_pid_went_well)

lemma work_returns:
  assumes "reachable e self True st w" "os_contract (e_os e)" "\<not> no_locks (e_build e)"
    and "valid_call c" "has_seed c"
    and "after_lock e self c (st\<lparr>mutex := True\<rparr>) w = Ret (True, st', w')"
  shows "work e self c st' w' \<noteq> Crash \<and> (work e self c st' w' = Hang \<longrightarrow> draws_until_accepted c)"
proof -
  have st: "sound self st" "\<not> mutex st" using reachable_invariant [OF assms(1,2)] by simp_all
  have "before_lock e self c st" using st(1) by (simp add: before_lock_def sound_def)
  then have api: "api e self c st w = obind (work e self c st' w') (\<lambda>(r, st, w). Ret (r, UNLOCK (e_build e) st, w))"
    using api_parts [of e self c st w] LOCK_free [of "e_build e" st] st(2) assms(3,5,6)
    by (simp add: lock_free_def critical_section_def)
  have "hung_or_well self (api e self c st w)"
    using perform_hung_or_well [OF st assms(2,4), of True w] api_perform [of e self c st w]
    by (metis hung_or_well_state_of)
  moreover have "draws_until_accepted c \<or> went_well self (api e self c st w)"
    using perform_went_well [OF st assms(2,4), of True w] api_perform [of e self c st w]
    by (metis went_well_state_of)
  ultimately show ?thesis using api by (auto simp: hung_or_well_def)
qed

lemma holder_progress:
  assumes "reachable e self True st w" "os_contract (e_os e)" "\<not> no_locks (e_build e)"
    and "one_inside e self s h st w" "good_pc (pcs s h)"
  shows "(\<exists>s'. thread_step e self h s s') \<or> dying e self s h \<or> drawing_for_ever e self s h"
proof (cases "pcs s h")
  case (Entered c)
  have "sound self (st\<lparr>mutex := True\<rparr>)" using reachable_invariant [OF assms(1,2)] by simp
  then have "went_well self (after_lock e self c (shared s) (sys_world s))"
    using after_lock_went_well [OF _ assms(2), of self "st\<lparr>mutex := True\<rparr>" c w] assms(4) Entered
    by (simp add: one_inside_def)
  then consider ok t w' where "after_lock e self c (shared s) (sys_world s) = Ret (ok, t, w')"
    | err where "after_lock e self c (shared s) (sys_world s) = Abort err"
    by (cases "after_lock e self c (shared s) (sys_world s)") auto
  then show ?thesis
    using Entered thread_step.verify [OF Entered] thread_step.refuse [OF Entered]
    by cases (metis (full_types), auto simp: dying_def)
next
  case (Verified c)
  then have after: "after_lock e self c (st\<lparr>mutex := True\<rparr>) w = Ret (True, shared s, sys_world s)"
    using assms(4) by (simp add: one_inside_def)
  have "work e self c (shared s) (sys_world s) \<noteq> Crash"
    "work e self c (shared s) (sys_world s) = Hang \<longrightarrow> draws_until_accepted c"
    using work_returns [OF assms(1-3) _ _ after] Verified assms(5) by simp_all
  then consider r t w' where "work e self c (shared s) (sys_world s) = Ret (r, t, w')"
    | err where "work e self c (shared s) (sys_world s) = Abort err"
    | "work e self c (shared s) (sys_world s) = Hang" "draws_until_accepted c"
    by (cases "work e self c (shared s) (sys_world s)") auto
  then show ?thesis
    using Verified thread_step.work [OF Verified] by cases (metis, auto simp: dying_def drawing_for_ever_def)
next
  case (Finished c r)
  then show ?thesis using thread_step.unlock by blast
qed (use assms(4) in \<open>auto simp: one_inside_def\<close>)

lemma consistent_progress:
  assumes "consistent e self st0 w0 s" "os_contract (e_os e)" "\<not> no_locks (e_build e)" "pcs s i \<noteq> Idle"
  shows "\<exists>j. (\<exists>s'. thread_step e self j s s') \<or> dying e self s j \<or> drawing_for_ever e self s j"
proof -
  obtain st w where r: "reachable e self True st w" and good: "\<And>i. good_pc (pcs s i)"
    and cs: "nobody_inside s st w \<or> (\<exists>h. one_inside e self s h st w)"
    using assms(1) unfolding consistent_def by blast
  from cs show ?thesis
  proof
    assume n: "nobody_inside s st w"
    then obtain c where c: "pcs s i = Checked c"
      using assms(4) by (cases "pcs s i") (auto simp: nobody_inside_def dest: spec [of _ i])
    have "\<not> mutex (shared s)" using n reachable_invariant [OF r assms(2)] by (simp add: nobody_inside_def)
    then have "LOCK (e_build e) (shared s) = Ret ((shared s)\<lparr>mutex := \<not> no_locks (e_build e) \<or> mutex (shared s)\<rparr>)"
      by (intro LOCK_free) (simp add: lock_free_def)
    from thread_step.lock [OF c this] show ?thesis by blast
  next
    assume "\<exists>h. one_inside e self s h st w"
    then show ?thesis using holder_progress [OF r assms(2,3)] good by blast
  qed
qed

section \<open>A copy of the structure while the lock is held\<close>

lemma holder_keeps_magic:
  assumes "reachable e self True st w" "os_contract (e_os e)" "\<not> no_locks (e_build e)"
    and "partway e self st w p st' w'" "good_pc p"
  shows "magic st' = MAGIC self"
proof -
  have st: "sound self (st\<lparr>mutex := True\<rparr>)" using reachable_invariant [OF assms(1,2)] by simp
  show ?thesis
  proof (cases p)
    case (Finished c r)
    then have "reachable e self True (UNLOCK (e_build e) st') w'"
      using finish_call(2) [OF assms(1-3), of c r st' w'] assms(4,5) by simp
    from reachable_invariant [OF this assms(2)] have "magic (UNLOCK (e_build e) st') = MAGIC self"
      by (simp add: sound_def)
    then show ?thesis by (simp add: UNLOCK_def RELEASE_LOCK_def split: if_splits)
  next
    case (Verified c)
    then have "went_well self (Ret (True, st', w'))"
      using after_lock_went_well [OF st assms(2), of c w] assms(4) by simp
    then show ?thesis by (simp add: sound_def)
  qed (use assms(4) st in \<open>auto simp: sound_def\<close>)
qed

text \<open>A process that gets a copy of the structure at that time has a lock that nobody in it will release.\<close>

lemma copied_while_held:
  assumes "consistent e self st0 w0 s" "os_contract (e_os e)" "\<not> no_locks (e_build e)" "inside (pcs s i)"
  shows "mutex (shared s) \<and> before_lock e self c (shared s)"
proof -
  obtain st v h where r: "reachable e self True st v" "good_pc (pcs s h)"
    and p: "partway e self st v (pcs s h) (shared s) (sys_world s)"
    using assms(1,4) unfolding consistent_def nobody_inside_def one_inside_def by blast
  then show ?thesis
    using holder_keeps_magic [OF r(1) assms(2,3) p r(2)] partway_mutex [OF p] by (simp add: before_lock_def)
qed

end
