(* ===== verification/Global_Threads.thy ===== *)
theory Global_Threads
  imports Ottery_Threads Ottery_Global
begin

text \<open>
  Threads that use the functions of \<^verbatim>\<open>src/ottery_global.c\<close>. Each call first runs \<^verbatim>\<open>CHECK_INIT\<close>, which
  reads the flag \<^verbatim>\<open>ottery_global_state_initialized_\<close> and calls \<^verbatim>\<open>ottery_init\<close> without holding any lock;
  then it goes on as a call on the global state. Other threads can come in between the test of the flag
  and the initialisation.
\<close>

datatype entry =
    Outside
  | Initialising
  | Using

record 'w global_system =
  base :: "'w system"
  flag :: bool
  entries :: "nat \<Rightarrow> entry"

definition the_global :: "'w global_system \<Rightarrow> global" where
  "the_global g = \<lparr>global_initialized = flag g, global_state = shared (base g)\<rparr>"

definition set_global :: "'w global_system \<Rightarrow> global \<Rightarrow> 'w \<Rightarrow> 'w global_system" where
  "set_global g gl w = g\<lparr>base := (base g)\<lparr>shared := global_state gl, sys_world := w\<rparr>,
     flag := global_initialized gl\<rparr>"

inductive global_step :: "'w env \<Rightarrow> u64 \<Rightarrow> nat \<Rightarrow> 'w global_system \<Rightarrow> 'w global_system \<Rightarrow> bool"
  for e GLOBAL i where
  initialised: "entries g i = Outside \<Longrightarrow> flag g \<Longrightarrow>
    global_step e GLOBAL i g (g\<lparr>entries := (entries g)(i := Using)\<rparr>)"
| uninitialised: "entries g i = Outside \<Longrightarrow> \<not> flag g \<Longrightarrow>
    global_step e GLOBAL i g (g\<lparr>entries := (entries g)(i := Initialising)\<rparr>)"
| init: "entries g i = Initialising \<Longrightarrow>
    ottery_init e GLOBAL (the_global g) None (sys_world (base g)) = Ret (0, gl, w) \<Longrightarrow>
    global_step e GLOBAL i g ((set_global g gl w)\<lparr>entries := (entries g)(i := Using)\<rparr>)"
| init_failed: "entries g i = Initialising \<Longrightarrow>
    ottery_init e GLOBAL (the_global g) None (sys_world (base g)) = Ret (err, gl, w) \<Longrightarrow> err \<noteq> 0 \<Longrightarrow>
    ottery_fatal_error e (OTTERY_ERR_FLAG_GLOBAL_PRNG_INIT OR err) w = Ret w' \<Longrightarrow>
    global_step e GLOBAL i g ((set_global g gl w')\<lparr>entries := (entries g)(i := Outside)\<rparr>)"
| use: "entries g i = Using \<Longrightarrow> thread_step e GLOBAL i (base g) s \<Longrightarrow>
    global_step e GLOBAL i g
      (g\<lparr>base := s, entries := (entries g)(i := (if pcs s i = Idle then Outside else Using))\<rparr>)"

definition some_global_thread :: "'w env \<Rightarrow> u64 \<Rightarrow> 'w global_system \<Rightarrow> 'w global_system \<Rightarrow> bool" where
  "some_global_thread e GLOBAL g g' = (\<exists>i. global_step e GLOBAL i g g')"

definition global_threads :: "'w env \<Rightarrow> u64 \<Rightarrow> 'w global_system \<Rightarrow> 'w global_system \<Rightarrow> bool" where
  "global_threads e GLOBAL = (some_global_thread e GLOBAL)\<^sup>*\<^sup>*"

lemma global_threads_none: "global_threads e GLOBAL g g"
  by (simp add: global_threads_def)

lemma global_threads_more:
  "global_threads e GLOBAL g g' \<Longrightarrow> global_step e GLOBAL i g' g'' \<Longrightarrow> global_threads e GLOBAL g g''"
  unfolding global_threads_def some_global_thread_def by (rule rtranclp.rtrancl_into_rtrancl) blast+

definition program_start :: "'w \<Rightarrow> 'w global_system" where
  "program_start w = \<lparr>base = at_rest zero_state w, flag = False, entries = (\<lambda>_. Outside)\<rparr>"

definition after_init :: "ottery_state \<Rightarrow> 'w \<Rightarrow> 'w global_system" where
  "after_init st w = \<lparr>base = at_rest st w, flag = True, entries = (\<lambda>_. Outside)\<rparr>"

text \<open>Once the state is initialised, the threads only do what threads do on any state.\<close>

interpretation global_sharing: inductive_invariant "\<lambda>g. g = after_init st w" "some_global_thread e GLOBAL"
  "\<lambda>g. flag g \<and> (\<forall>i. entries g i \<noteq> Initialising) \<and> threads e GLOBAL (at_rest st w) (base g)"
  for e GLOBAL st w
proof unfold_locales
  fix g g'
  assume I: "flag g \<and> (\<forall>i. entries g i \<noteq> Initialising) \<and> threads e GLOBAL (at_rest st w) (base g)"
    and "some_global_thread e GLOBAL g g'"
  then obtain i where "global_step e GLOBAL i g g'" by (auto simp: some_global_thread_def)
  then show "flag g' \<and> (\<forall>i. entries g' i \<noteq> Initialising) \<and> threads e GLOBAL (at_rest st w) (base g')"
    by cases (use I in \<open>auto intro: threads_more\<close>)
qed (simp add: after_init_def threads_none)

lemmas global_threads_initialised = global_sharing.always [folded global_threads_def, OF _ refl]

text \<open>The initialisation clears the structure first: what was in it, a lock that is held included, is lost.\<close>

lemma initialize_forgets:
  assumes "chosen_prf e cfg = Some p" "self AND 0xF = 0"
  shows "ottery_st_initialize e self st cfg locked w = ottery_st_initialize e self st' cfg locked w"
  using assms(2) by (simp add: initialize_eq [OF assms(1)])

text \<open>A thread that has passed \<^verbatim>\<open>CHECK_INIT\<close> enters the critical section when the lock is free.\<close>

lemma enter:
  assumes "global_threads e G g0 g" "entries g i = Using" "pcs (base g) i = Idle"
    and "magic (shared (base g)) = MAGIC G" "\<not> mutex (shared (base g))" "\<not> no_locks (e_build e)"
  shows "global_threads e G g0 (g\<lparr>base := (base g)\<lparr>shared := (shared (base g))\<lparr>mutex := True\<rparr>,
    pcs := (pcs (base g))(i := Entered RandUint32)\<rparr>\<rparr>)"
proof -
  let ?s1 = "(base g)\<lparr>pcs := (pcs (base g))(i := Checked RandUint32)\<rparr>"
  let ?g1 = "g\<lparr>base := ?s1\<rparr>"
  have "thread_step e G i (base g) ?s1"
    using assms(3,4) by (intro thread_step.check) (simp_all add: before_lock_def)
  from global_step.use [OF assms(2) this] have step: "global_step e G i g ?g1"
    using assms(2) fun_upd_triv [of "entries g" i] by simp
  have "LOCK (e_build e) (shared ?s1) = Ret ((shared (base g))\<lparr>mutex := True\<rparr>)"
    using LOCK_free [of "e_build e" "shared (base g)"] assms(5,6) by (simp add: lock_free_def)
  from thread_step.lock [OF _ this, of i RandUint32 G]
  have "thread_step e G i (base ?g1) ((base g)\<lparr>shared := (shared (base g))\<lparr>mutex := True\<rparr>,
      pcs := (pcs (base g))(i := Entered RandUint32)\<rparr>)" by simp
  from global_step.use [OF _ this] show ?thesis
    using global_threads_more [OF global_threads_more [OF assms(1) step]] assms(2)
      fun_upd_triv [of "entries g" i] by simp
qed

lemma both_uninitialised:
  "global_threads e G (program_start w)
     ((program_start w)\<lparr>entries := (\<lambda>_. Outside)(0 := Initialising, 1 := Initialising)\<rparr>)"
proof -
  let ?g1 = "(program_start w)\<lparr>entries := (\<lambda>_. Outside)(0 := Initialising)\<rparr>"
  have "global_step e G 0 (program_start w) ?g1"
    using global_step.uninitialised [of "program_start w" 0 e G] by (simp add: program_start_def)
  moreover have "global_step e G 1 ?g1 (?g1\<lparr>entries := (entries ?g1)(1 := Initialising)\<rparr>)"
    by (rule global_step.uninitialised) (simp_all add: program_start_def)
  ultimately show ?thesis
    using global_threads_more [OF global_threads_more [OF global_threads_none]] by simp
qed

text \<open>Two threads that both find the flag not set: the second initialisation frees the lock that the first thread holds.\<close>

lemma init_race:
  assumes G: "G AND 0xF = 0" "chosen_prf e None = Some p" and locks: "\<not> no_locks (e_build e)"
    and first: "ottery_st_initialize e G zero_state None True w = Ret (0, st1, w1)"
    and second: "ottery_st_initialize e G zero_state None True w1 = Ret (0, st2, w2)"
    and ok: "magic st1 = MAGIC G" "\<not> mutex st1" "magic st2 = MAGIC G" "\<not> mutex st2"
  shows "\<exists>g. global_threads e G (program_start w) g \<and> inside (pcs (base g) 0) \<and> inside (pcs (base g) 1)"
proof -
  have init: "ottery_init e G (the_global g) None (sys_world (base g)) = Ret (0, \<lparr>global_initialized = True,
      global_state = st\<rparr>, w')" if "ottery_st_initialize e G zero_state None True (sys_world (base g)) = Ret (0, st, w')"
    for g :: "'a global_system" and st w'
    using that initialize_forgets [OF G(2,1), of "shared (base g)" True "sys_world (base g)" zero_state]
    by (simp add: ottery_init_def ottery_st_init_def the_global_def)
  define g2 where "g2 = (program_start w)\<lparr>entries := (\<lambda>_. Outside)(0 := Initialising, 1 := Initialising)\<rparr>"
  have r2: "global_threads e G (program_start w) g2" unfolding g2_def by (rule both_uninitialised)
  define g3 where "g3 = (set_global g2 \<lparr>global_initialized = True, global_state = st1\<rparr> w1)
    \<lparr>entries := (entries g2)(0 := Using)\<rparr>"
  have "global_step e G 0 g2 g3"
    unfolding g3_def
    by (rule global_step.init [OF _ init]) (simp_all add: g2_def program_start_def at_rest_def first)
  then have r3: "global_threads e G (program_start w) g3" using global_threads_more r2 by metis
  note f3 = g3_def g2_def program_start_def at_rest_def set_global_def
  define g5 where "g5 = g3\<lparr>base := (base g3)\<lparr>shared := (shared (base g3))\<lparr>mutex := True\<rparr>,
    pcs := (pcs (base g3))(0 := Entered RandUint32)\<rparr>\<rparr>"
  have r5: "global_threads e G (program_start w) g5"
    unfolding g5_def by (rule enter [OF r3]) (simp_all add: f3 ok locks)
  define g6 where "g6 = (set_global g5 \<lparr>global_initialized = True, global_state = st2\<rparr> w2)
    \<lparr>entries := (entries g5)(1 := Using)\<rparr>"
  have "global_step e G 1 g5 g6"
    unfolding g6_def by (rule global_step.init [OF _ init]) (simp_all add: g5_def f3 second)
  then have r6: "global_threads e G (program_start w) g6" using global_threads_more r5 by metis
  define g8 where "g8 = g6\<lparr>base := (base g6)\<lparr>shared := (shared (base g6))\<lparr>mutex := True\<rparr>,
    pcs := (pcs (base g6))(1 := Entered RandUint32)\<rparr>\<rparr>"
  have "global_threads e G (program_start w) g8"
    unfolding g8_def by (rule enter [OF r6]) (simp_all add: g6_def g5_def f3 ok locks)
  moreover have "inside (pcs (base g8) 0)" "inside (pcs (base g8) 1)" by (simp_all add: g8_def g6_def g5_def f3)
  ultimately show ?thesis by blast
qed

end
