(* ===== verification/Prng_Trace.thy ===== *)
theory Prng_Trace
  imports Ottery_Threads
begin

text \<open>
  Sequences of calls against the reference generator. \<open>spec_call\<close> says what each call of the library asks
  of the PRNG of \<open>Prng_Spec\<close> and what it replies; \<open>spec_run\<close> is a sequence of calls. The calls of the
  library, made one after the other, reply what the reference generator replies, and hang only where the
  reference generator has no reply: when a range function never draws an integer that it accepts.

  Calls of \<^verbatim>\<open>ottery_st_add_seed\<close> without a seed are not in here: their seed is that of the entropy
  sources. \<open>Seed_Threads\<close> turns them into calls with a seed.
\<close>

section \<open>The reference generator\<close>

partial_function (option) spec_until :: "('s \<Rightarrow> 'a \<times> 's) \<Rightarrow> ('a \<Rightarrow> bool) \<Rightarrow> 's \<Rightarrow> ('a \<times> 's) option" where
  "spec_until draw ok s = (if ok (fst (draw s)) then Some (draw s) else spec_until draw ok (snd (draw s)))"

definition spec_draw :: "(bytes \<Rightarrow> u32 \<Rightarrow> bytes) \<Rightarrow> nat \<Rightarrow> nat \<Rightarrow> prng \<Rightarrow> 'a::len word \<times> prng" where
  "spec_draw F kl k s = map_prod le_word id (spec_tiny F kl k s)"

text \<open>An integer up to \<open>upper\<close>: the quotient of the first draw of \<open>k\<close> bytes whose quotient is in range.\<close>

definition spec_range ::
    "(bytes \<Rightarrow> u32 \<Rightarrow> bytes) \<Rightarrow> nat \<Rightarrow> nat \<Rightarrow> 'a::len word \<Rightarrow> prng \<Rightarrow> ('a word \<times> prng) option" where
  "spec_range F kl k upper s =
     map_option (map_prod (\<lambda>x. x div range_divisor upper) id)
       (spec_until (spec_draw F kl k) (\<lambda>x. x div range_divisor upper \<le> upper) s)"

fun spec_call :: "(bytes \<Rightarrow> u32 \<Rightarrow> bytes) \<Rightarrow> nat \<Rightarrow> nat \<Rightarrow> call \<Rightarrow> prng \<Rightarrow> (reply \<times> prng) option" where
  "spec_call F kl ol (RandBytes n) s = Some (map_prod (\<lambda>out. GotBytes (Some out)) id (spec_get F kl ol n s))"
| "spec_call F kl ol RandUnsigned s = Some (map_prod (integer 4) id (spec_tiny F kl 4 s))"
| "spec_call F kl ol RandUint32 s = Some (map_prod (integer 4) id (spec_tiny F kl 4 s))"
| "spec_call F kl ol RandUint64 s = Some (map_prod (integer 8) id (spec_tiny F kl 8 s))"
| "spec_call F kl ol (RandRange upper) s =
     map_option (map_prod (\<lambda>v. GotInt (unat v)) id) (spec_range F kl 4 upper s)"
| "spec_call F kl ol (RandRange64 upper) s =
     map_option (map_prod (\<lambda>v. GotInt (unat v)) id) (spec_range F kl 8 upper s)"
| "spec_call F kl ol (AddSeed seed n) s =
     Some (GotCode 0, spec_add F kl (take n (case seed of Some bs \<Rightarrow> bs | None \<Rightarrow> [])) (fst s))"
| "spec_call F kl ol PreventBacktracking s = Some (GotNothing, s)"

fun spec_run ::
    "(bytes \<Rightarrow> u32 \<Rightarrow> bytes) \<Rightarrow> nat \<Rightarrow> nat \<Rightarrow> call list \<Rightarrow> prng \<Rightarrow> (reply list \<times> prng) option" where
  "spec_run F kl ol [] s = Some ([], s)"
| "spec_run F kl ol (c # cs) s =
     (case spec_call F kl ol c s of None \<Rightarrow> None
      | Some (r, s) \<Rightarrow> map_option (map_prod (Cons r) id) (spec_run F kl ol cs s))"

text \<open>A sequence of calls of the library, with all its replies.\<close>

fun api_run ::
    "'w env \<Rightarrow> u64 \<Rightarrow> call list \<Rightarrow> ottery_state \<Rightarrow> 'w \<Rightarrow> (reply list \<times> ottery_state \<times> 'w) outcome" where
  "api_run e self [] st w = Ret ([], st, w)"
| "api_run e self (c # cs) st w =
     obind (api e self c st w) (\<lambda>(r, st, w).
     obind (api_run e self cs st w) (\<lambda>(rs, st, w). Ret (r # rs, st, w)))"

section \<open>The rejection loop\<close>

text \<open>Draws that match those of the reference generator step by step, along a relation of the states.\<close>

locale matching_draws =
  fixes draw :: "'s \<Rightarrow> ('a::len word \<times> 's) outcome" and D :: "'t \<Rightarrow> 'a word \<times> 't" and R :: "'s \<Rightarrow> 't \<Rightarrow> bool"
  assumes match: "R s t \<Longrightarrow> \<exists>s'. draw s = Ret (fst (D t), s') \<and> R s' (snd (D t))"
begin

lemma loop_of_until:
  assumes "spec_until D (\<lambda>x. x div d \<le> u) t = Some (x, t')" "R s t"
  shows "\<exists>s'. range_loop draw d u s = Some (Ret (x div d, s')) \<and> R s' t'"
proof -
  have "D0 = D \<longrightarrow> ok = (\<lambda>x. x div d \<le> u) \<longrightarrow>
      (\<forall>s. R s t \<longrightarrow> (\<exists>s'. range_loop draw d u s = Some (Ret (fst y div d, s')) \<and> R s' (snd y)))"
    if "spec_until D0 ok t = Some y" for D0 ok t y
  proof (rule spec_until.raw_induct [OF _ that], intro impI allI)
    fix loop D0 ok t y s
    assume IH: "\<And>D0 ok t y. loop D0 ok t = Some y \<Longrightarrow> D0 = D \<longrightarrow> ok = (\<lambda>x. x div d \<le> u) \<longrightarrow>
        (\<forall>s. R s t \<longrightarrow> (\<exists>s'. range_loop draw d u s = Some (Ret (fst y div d, s')) \<and> R s' (snd y)))"
      and body: "(if ok (fst (D0 t)) then Some (D0 t) else loop D0 ok (snd (D0 t))) = Some y"
      and eqs: "D0 = D" "ok = (\<lambda>x. x div d \<le> u)" and "R s t"
    obtain s1 where s1: "draw s = Ret (fst (D t), s1)" "R s1 (snd (D t))" using match [OF \<open>R s t\<close>] by blast
    show "\<exists>s'. range_loop draw d u s = Some (Ret (fst y div d, s')) \<and> R s' (snd y)"
    proof (cases "fst (D t) div d \<le> u")
      case True
      then show ?thesis using s1 body eqs by (subst range_loop.simps) auto
    next
      case False
      then obtain s' where "range_loop draw d u s1 = Some (Ret (fst y div d, s'))" "R s' (snd y)"
        using IH [of D0 ok "snd (D t)" y] body eqs s1(2) by auto
      then show ?thesis using s1(1) False by (subst range_loop.simps) auto
    qed
  qed
  from this [OF assms(1)] assms(2) show ?thesis by simp
qed

lemma until_of_loop:
  assumes "range_loop draw d u s = Some r" "R s t"
  shows "\<exists>y. spec_until D (\<lambda>x. x div d \<le> u) t = Some y"
proof -
  have "dr = draw \<longrightarrow> d' = d \<longrightarrow> u' = u \<longrightarrow>
      (\<forall>t. R s t \<longrightarrow> (\<exists>y. spec_until D (\<lambda>x. x div d \<le> u) t = Some y))"
    if "range_loop dr d' u' s = Some r" for dr d' u' s r
  proof (rule range_loop.raw_induct [OF _ that], intro impI allI)
    fix loop dr d' u' s r t
    assume IH: "\<And>dr d' u' s r. loop dr d' u' s = Some r \<Longrightarrow> dr = draw \<longrightarrow> d' = d \<longrightarrow> u' = u \<longrightarrow>
        (\<forall>t. R s t \<longrightarrow> (\<exists>y. spec_until D (\<lambda>x. x div d \<le> u) t = Some y))"
      and body: "(case dr s of Ret r \<Rightarrow> if u' < fst r div d' then loop dr d' u' (snd r)
          else Some (Ret (fst r div d', snd r))
        | Abort err \<Rightarrow> Some (Abort err) | Crash \<Rightarrow> Some Crash | Hang \<Rightarrow> Some Hang) = Some r"
      and eqs: "dr = draw" "d' = d" "u' = u" and "R s t"
    obtain s1 where s1: "draw s = Ret (fst (D t), s1)" "R s1 (snd (D t))" using match [OF \<open>R s t\<close>] by blast
    show "\<exists>y. spec_until D (\<lambda>x. x div d \<le> u) t = Some y"
    proof (cases "u < fst (D t) div d")
      case True
      then have "loop dr d' u' s1 = Some r" using s1(1) body eqs by simp
      from IH [OF this] eqs s1(2) True show ?thesis by (subst spec_until.simps) auto
    next
      case False
      then show ?thesis by (subst spec_until.simps) auto
    qed
  qed
  from this [OF assms(1)] assms(2) show ?thesis by simp
qed

text \<open>So the loop of the code is that of the reference generator, returning or not.\<close>

lemma loop_refines:
  assumes "R s t"
  shows "case spec_until D (\<lambda>x. x div d \<le> u) t of
      None \<Rightarrow> run_loop (range_loop draw d u s) = Hang
    | Some (x, t') \<Rightarrow> \<exists>s'. run_loop (range_loop draw d u s) = Ret (x div d, s') \<and> R s' t'"
proof (cases "spec_until D (\<lambda>x. x div d \<le> u) t")
  case None
  then have "range_loop draw d u s = None"
    using until_of_loop [OF _ assms] by (metis option.distinct(1) not_None_eq)
  with None show ?thesis by (simp add: run_loop_def)
next
  case (Some y)
  then show ?thesis
    using loop_of_until [OF _ assms, of d u "fst y" "snd y"] by (auto simp: run_loop_def)
qed

end

text \<open>
  The states of a loop on the structure: it represents the state of the reference generator, and the
  fields beside the generator are those of the structure \<open>st0\<close> that the loop began with.
\<close>

definition drawing :: "'w env \<Rightarrow> u64 \<Rightarrow> ottery_state \<Rightarrow> (bytes \<Rightarrow> u32 \<Rightarrow> bytes) \<Rightarrow> (bytes \<Rightarrow> bytes \<Rightarrow> bool)
    \<Rightarrow> 'w \<Rightarrow> ottery_state \<times> 'w \<Rightarrow> prng \<Rightarrow> bool" where
  "drawing e self st0 F keyed w0 sw s = (case sw of (st, w) \<Rightarrow>
     library_prf (st_prf st0) F keyed \<and> represents keyed st s \<and> meta st = meta st0 \<and>
     ready e self st0 \<and> same_process e st0 w0 \<and> w = w0)"

lemma drawing_inttype:
  assumes "drawing e self st0 F keyed w0 sw s" "0 < k" "k \<le> 8"
  shows "\<exists>sw'. (case sw of (st, w) \<Rightarrow> to_int (RAND_INTTYPE_NOLOCK e self k st w)) =
      Ret (fst (spec_draw F 40 k s), sw') \<and> drawing e self st0 F keyed w0 sw' (snd (spec_draw F 40 k s))"
proof -
  obtain st where sw: "sw = (st, w0)" and st: "library_prf (st_prf st0) F keyed" "represents keyed st s"
      "meta st = meta st0" "ready e self st0" "same_process e st0 w0"
    using assms(1) by (auto simp: drawing_def)
  have ok: "ready e self st" "same_process e st w0" "st_prf st = st_prf st0"
    using st meta_eqD [OF st(3)] by (simp_all add: ready_def same_process_def)
  show ?thesis
    using prf_contract.inttype_nolock_same [OF library_prf_contract [OF st(1)] st(2) ok(3) assms(2,3) ok(1,2)]
      st sw library_prf_sizes [OF st(1)]
    by (auto simp: to_int_def spec_draw_def drawing_def)
qed

interpretation draw32: matching_draws "\<lambda>(st, w). ottery_st_rand_unsigned_nolock e self st w"
  "spec_draw F 40 4 :: prng \<Rightarrow> u32 \<times> prng" "drawing e self st0 F keyed w0"
  for e self F st0 keyed w0
  by (unfold_locales, unfold ottery_st_rand_unsigned_nolock_def) (rule drawing_inttype, simp_all)

interpretation draw64: matching_draws "\<lambda>(st, w). ottery_st_rand_uint64_nolock e self st w"
  "spec_draw F 40 8 :: prng \<Rightarrow> u64 \<times> prng" "drawing e self st0 F keyed w0"
  for e self F st0 keyed w0
  by (unfold_locales, unfold ottery_st_rand_uint64_nolock_def) (rule drawing_inttype, simp_all)

section \<open>One call\<close>

text \<open>The fields of the structure that say whose it is and in what condition.\<close>

definition standing where
  "standing st = (st_prf st, magic st, pid st, entropy_config st, entropy_state st, mutex st)"

lemma standing_meta: "meta st = meta st' \<Longrightarrow> standing st = standing st'"
  by (simp add: meta_def standing_def)

lemma drawing_standing:
  "drawing e self st0 F keyed w0 (st, w) s \<Longrightarrow> represents keyed st s \<and> meta st = meta st0 \<and> w = w0"
  by (simp add: drawing_def)

definition matches ::
    "(bytes \<Rightarrow> bytes \<Rightarrow> bool) \<Rightarrow> ottery_state \<Rightarrow> 'w \<Rightarrow> ('r \<times> prng) option
      \<Rightarrow> ('r \<times> ottery_state \<times> 'w) outcome \<Rightarrow> bool" where
  "matches keyed st w spec r = (case spec of None \<Rightarrow> r = Hang
     | Some (x, s) \<Rightarrow> \<exists>st'. r = Ret (x, st', w) \<and> represents keyed st' s \<and> standing st' = standing st)"

lemma matches_replies:
  "matches keyed st w spec r \<Longrightarrow> matches keyed st w (map_option (map_prod f id) spec) (replies f r)"
  by (auto simp: matches_def replies_def split: option.splits)

text \<open>The calls that take bytes out of the generator; these are the ones that look at the process identifier.\<close>

definition draws :: "call \<Rightarrow> bool" where
  "draws c = (checks_pid c \<or> draws_until_accepted c)"

text \<open>The work inside the lock is what the reference generator asks for.\<close>

lemma range_matches:
  assumes "drawing e self st F keyed w (st, w) s"
  shows "matches keyed st w (spec_range F 40 4 upper s) (ottery_st_rand_range_nolock e self st upper w)"
    "matches keyed st w (spec_range F 40 8 upper64 s) (ottery_st_rand_range64_nolock e self st upper64 w)"
  using draw32.loop_refines [OF assms, of "range_divisor upper" upper]
    draw64.loop_refines [OF assms, of "range_divisor upper64" upper64]
  by (auto simp: matches_def spec_range_def ottery_st_rand_range_nolock_def ottery_st_rand_range64_nolock_def
      split: option.splits dest!: drawing_standing intro: standing_meta)

lemma work_matches:
  assumes l: "library_prf (st_prf st) F keyed" and rep: "represents keyed st s"
    and ok: "ready e self st" "draws c \<longrightarrow> same_process e st w" and c: "valid_call c" "has_seed c"
  shows "matches keyed st w (spec_call F 40 (output_len (st_prf st)) c s) (work e self c st w)"
proof -
  note p = library_prf_contract [OF l] and size = library_prf_sizes(1) [OF l]
  have int: "matches keyed st w (Some (map_prod (integer k) id (spec_tiny F 40 k s)))
      (case RAND_INTTYPE_IMPL (e_build e) k st of (bs, st) \<Rightarrow> Ret (integer k bs, st, w))"
    if "0 < k" "k \<le> 8" for k
  proof -
    obtain out st' where r: "RAND_INTTYPE_IMPL (e_build e) k st = (out, st')" by fastforce
    show ?thesis
      using prf_contract.inttype_represents [OF p rep refl that r] size
      by (auto simp: matches_def r map_prod_def case_prod_unfold intro: standing_meta)
  qed
  have d: "drawing e self st F keyed w (st, w) s" if "draws_until_accepted c"
    using that l rep ok by (simp add: drawing_def draws_def)
  show ?thesis
  proof (cases c)
    case (RandBytes n)
    then show ?thesis
      using prf_contract.rand_bytes_impl_represents [OF p rep refl, of n "e_build e"] c size
      by (auto simp: matches_def map_prod_def case_prod_unfold intro: standing_meta)
  next
    case (AddSeed seed n)
    then obtain bs where bs: "seed = Some bs" "0 < n" "n \<le> length bs" using c by auto
    note f = prf_contract.represents_facts [OF p rep refl]
    show ?thesis
      using prf_contract.add_seed_locked_represents [OF p refl f(7,2,6) bs(3), of False "e_build e" 0 w] size AddSeed bs
      by (auto simp: matches_def replies_def standing_def meta_def)
  next
    case PreventBacktracking
    then show ?thesis
      using prf_contract.prevent_backtracking_represents(1) [OF p rep refl]
      by (auto simp: matches_def standing_def ottery_st_prevent_backtracking_nolock_def)
  qed (use int range_matches [OF d] in \<open>simp_all add: matches_replies\<close>)
qed

lemma api_matches:
  assumes l: "library_prf (st_prf st) F keyed" and rep: "represents keyed st s"
    and ok: "ready e self st" "draws c \<longrightarrow> same_process e st w" "lock_free (e_build e) st"
    and c: "valid_call c" "has_seed c"
  shows "matches keyed st w (spec_call F 40 (output_len (st_prf st)) c s) (api e self c st w)"
proof -
  define s1 where "s1 = st\<lparr>mutex := \<not> no_locks (e_build e) \<or> mutex st\<rparr>"
  have s1: "library_prf (st_prf s1) F keyed" "represents keyed s1 s" "ready e self s1" "draws c \<longrightarrow> same_process e s1 w"
    using l rep ok by (simp_all add: s1_def ready_def)
  have before: "before_lock e self c st" using ok(1) by (simp add: before_lock_def ready_def)
  have "api e self c st w = obind (critical_section e self c s1 w) (\<lambda>(r, st, w). Ret (r, UNLOCK (e_build e) st, w))"
    by (simp add: api_parts [OF before c(2)] LOCK_free [OF ok(3)] s1_def)
  moreover have "critical_section e self c s1 w = work e self c s1 w"
    using s1(4) check_pid_same [of e s1 w self] by (simp add: critical_section_def after_lock_def draws_def)
  ultimately have eq: "api e self c st w = obind (work e self c s1 w) (\<lambda>(r, st, w). Ret (r, UNLOCK (e_build e) st, w))"
    by simp
  have un: "standing (UNLOCK (e_build e) st') = standing st" if "standing st' = standing s1" for st'
    using that ok(3) by (auto simp: standing_def s1_def UNLOCK_def RELEASE_LOCK_def lock_free_def)
  have "st_prf s1 = st_prf st" by (simp add: s1_def)
  with work_matches [OF s1 c] show ?thesis
    by (auto simp: matches_def eq un split: option.splits)
qed

section \<open>Sequences of calls\<close>

lemma standing_eqD:
  assumes "standing st' = standing st"
  shows "st_prf st' = st_prf st" "ready e self st' = ready e self st"
    "same_process e st' w = same_process e st w" "lock_free b st' = lock_free b st"
  using assms by (simp_all add: standing_def ready_def same_process_def lock_free_def)

lemma api_run_matches:
  assumes "library_prf (st_prf st) F keyed" "represents keyed st s"
    and "ready e self st" "same_process e st w" "lock_free (e_build e) st"
    and "\<forall>c \<in> set cs. valid_call c \<and> has_seed c"
  shows "matches keyed st w (spec_run F 40 (output_len (st_prf st)) cs s) (api_run e self cs st w)"
  using assms
proof (induction cs arbitrary: st s)
  case Nil
  then show ?case by (simp add: matches_def)
next
  case (Cons c cs)
  then have m: "matches keyed st w (spec_call F 40 (output_len (st_prf st)) c s) (api e self c st w)"
    by (intro api_matches) simp_all
  show ?case
  proof (cases "spec_call F 40 (output_len (st_prf st)) c s")
    case None
    with m show ?thesis by (simp add: matches_def)
  next
    case (Some rs)
    obtain r s1 where "rs = (r, s1)" by (cases rs)
    with m Some obtain st1 where st1: "api e self c st w = Ret (r, st1, w)" "represents keyed st1 s1"
      "standing st1 = standing st" by (auto simp: matches_def)
    note eq = standing_eqD [OF st1(3)]
    have "matches keyed st1 w (spec_run F 40 (output_len (st_prf st)) cs s1) (api_run e self cs st1 w)"
      using Cons.IH [OF _ st1(2)] Cons.prems by (simp add: eq)
    then show ?thesis
      using Some \<open>rs = (r, s1)\<close> st1 by (auto simp: matches_def split: option.splits)
  qed
qed

end
