(* ===== verification/Seed_Threads.thy ===== *)
theory Seed_Threads
  imports Prng_Trace
begin

text \<open>
  Threads of one process again, now with \<^verbatim>\<open>ottery_st_add_seed\<close> without a seed among their calls. Such a
  call asks the entropy sources before it takes the lock: it reads the cached inode of the structure, and
  writes it back, while other threads work on the structure under the lock, and two such calls can
  overwrite each other's value. \<open>crowd_step\<close> interleaves the steps of all calls, the unlocked
  ones included. What the threads get is still what the reference generator gives for the calls in
  the order in which they released the lock, with the gathered bytes as seed.
\<close>

section \<open>Jobs\<close>

text \<open>What a thread does under the lock: a call that needs nothing else, or mixing in gathered seed.\<close>

datatype job =
    Plain call
  | Seeding bytes nat u32

fun job_call :: "job \<Rightarrow> call" where
  "job_call (Plain c) = c"
| "job_call (Seeding bs n flags) = AddSeed (Some bs) n"

fun job_work :: "'w env \<Rightarrow> u64 \<Rightarrow> job \<Rightarrow> ottery_state \<Rightarrow> 'w \<Rightarrow> (reply \<times> ottery_state \<times> 'w) outcome" where
  "job_work e self (Plain c) st w = work e self c st w"
| "job_work e self (Seeding bs n flags) st w =
     replies GotCode (add_seed_locked (e_build e) st bs n flags False w)"

text \<open>The parts of a call without a seed, one after the other, are the call.\<close>

lemma add_seed_os_parts:
  assumes "before_lock e self c st" "c = AddSeed seed n" "\<not> has_seed c"
  shows "api e self c st w =
    (if \<not> seed_buffer_ok e st w then Ret (GotCode OTTERY_ERR_INIT_STRONG_RNG, st, w)
     else let r = seed_request e st w; st = stored_entropy_state st (er_state r)
          in if er_err r \<noteq> 0 then Ret (GotCode (er_err r), st, er_world r)
             else if er_buflen r < state_bytes (st_prf st)
             then Ret (GotCode OTTERY_ERR_ACCESS_STRONG_RNG, st, er_world r)
             else obind (LOCK (e_build e) st) (\<lambda>st.
                  obind (job_work e self (Seeding (er_bytes r) (er_buflen r) (er_flags r)) st (er_world r))
                    (\<lambda>(r, st, w). Ret (r, UNLOCK (e_build e) st, w))))"
  using assms
  by (auto simp: before_lock_def ottery_st_add_seed_def ottery_st_add_seed_impl_def seed_buffer_ok_def
      seed_request_def replies_def add_seed_parts obind_assoc Let_def intro!: obind_cong)

text \<open>
  A call on a structure whose lock is held for ever. Only a call without a seed can return, if the entropy sources
  fail before it comes to the lock.
\<close>

definition comes_to_lock :: "'w env \<Rightarrow> call \<Rightarrow> ottery_state \<Rightarrow> 'w \<Rightarrow> bool" where
  "comes_to_lock e c st w = (has_seed c \<or> seed_buffer_ok e st w \<and> er_err (seed_request e st w) = 0 \<and>
     state_bytes (st_prf st) \<le> er_buflen (seed_request e st w))"

lemma api_while_held:
  assumes "before_lock e self c st" "mutex st" "\<not> no_locks (e_build e)"
  shows "if comes_to_lock e c st w then api e self c st w = Hang
    else \<exists>err st' w'. err \<noteq> 0 \<and> api e self c st w = Ret (GotCode err, st', w') \<and> mutex st'"
proof (cases "has_seed c")
  case True
  then show ?thesis
    using assms by (simp add: comes_to_lock_def api_parts LOCK_held lock_free_def)
next
  case False
  then obtain seed n where c: "c = AddSeed seed n" by (cases c) auto
  have "LOCK (e_build e) (stored_entropy_state st x) = Hang" for x
    using assms(2,3) by (simp add: LOCK_held lock_free_def)
  then show ?thesis
    using False assms(2) add_seed_os_parts [OF assms(1) c False, of w]
    by (simp add: comes_to_lock_def Let_def err_defs)
qed

section \<open>Interleaving\<close>

datatype 'w phase =
    Resting
  | Gathering "'w entropy_result"
  | Waiting job
  | Locked job
  | Current job
  | Done job reply

fun working :: "'w phase \<Rightarrow> bool" where
  "working (Locked _) = True"
| "working (Current _) = True"
| "working (Done _ _) = True"
| "working _ = False"

record 'w crowd =
  struct :: ottery_state
  outside :: 'w
  phases :: "nat \<Rightarrow> 'w phase"
  journal :: "(nat \<times> job \<times> reply) list"

text \<open>
  \<open>gather\<close> runs the sources with the inode cached at that time, \<open>store\<close> writes the cache. A call whose
  sources fail returns the error without taking the lock, and is not in the journal.
\<close>

inductive crowd_step :: "'w env \<Rightarrow> u64 \<Rightarrow> nat \<Rightarrow> 'w crowd \<Rightarrow> 'w crowd \<Rightarrow> bool"
  for e self i where
  begin_call: "phases s i = Resting \<Longrightarrow> valid_call c \<Longrightarrow> has_seed c \<Longrightarrow> before_lock e self c (struct s) \<Longrightarrow>
    crowd_step e self i s (s\<lparr>phases := (phases s)(i := Waiting (Plain c))\<rparr>)"
| gather: "phases s i = Resting \<Longrightarrow> before_lock e self (AddSeed None 0) (struct s) \<Longrightarrow>
    seed_buffer_ok e (struct s) (outside s) \<Longrightarrow> r = seed_request e (struct s) (outside s) \<Longrightarrow>
    crowd_step e self i s (s\<lparr>outside := er_world r, phases := (phases s)(i := Gathering r)\<rparr>)"
| store: "phases s i = Gathering r \<Longrightarrow> er_err r = 0 \<Longrightarrow> state_bytes (st_prf (struct s)) \<le> er_buflen r \<Longrightarrow>
    crowd_step e self i s (s\<lparr>struct := stored_entropy_state (struct s) (er_state r),
      phases := (phases s)(i := Waiting (Seeding (er_bytes r) (er_buflen r) (er_flags r)))\<rparr>)"
| give_up: "phases s i = Gathering r \<Longrightarrow> er_err r \<noteq> 0 \<or> er_buflen r < state_bytes (st_prf (struct s)) \<Longrightarrow>
    crowd_step e self i s (s\<lparr>struct := stored_entropy_state (struct s) (er_state r),
      phases := (phases s)(i := Resting)\<rparr>)"
| lock: "phases s i = Waiting j \<Longrightarrow> LOCK (e_build e) (struct s) = Ret st \<Longrightarrow>
    crowd_step e self i s (s\<lparr>struct := st, phases := (phases s)(i := Locked j)\<rparr>)"
| verify: "phases s i = Locked j \<Longrightarrow>
    after_lock e self (job_call j) (struct s) (outside s) = Ret (True, st, w) \<Longrightarrow>
    crowd_step e self i s (s\<lparr>struct := st, outside := w, phases := (phases s)(i := Current j)\<rparr>)"
| refuse: "phases s i = Locked j \<Longrightarrow>
    after_lock e self (job_call j) (struct s) (outside s) = Ret (False, st, w) \<Longrightarrow>
    crowd_step e self i s
      (s\<lparr>struct := st, outside := w, phases := (phases s)(i := Done j (refusal (job_call j)))\<rparr>)"
| work: "phases s i = Current j \<Longrightarrow> job_work e self j (struct s) (outside s) = Ret (r, st, w) \<Longrightarrow>
    crowd_step e self i s (s\<lparr>struct := st, outside := w, phases := (phases s)(i := Done j r)\<rparr>)"
| unlock: "phases s i = Done j r \<Longrightarrow>
    crowd_step e self i s (s\<lparr>struct := UNLOCK (e_build e) (struct s), phases := (phases s)(i := Resting),
      journal := journal s @ [(i, j, r)]\<rparr>)"

definition someone :: "'w env \<Rightarrow> u64 \<Rightarrow> 'w crowd \<Rightarrow> 'w crowd \<Rightarrow> bool" where
  "someone e self s s' = (\<exists>i. crowd_step e self i s s')"

definition crowd :: "'w env \<Rightarrow> u64 \<Rightarrow> 'w crowd \<Rightarrow> 'w crowd \<Rightarrow> bool" where
  "crowd e self = (someone e self)\<^sup>*\<^sup>*"

definition gathered_around :: "ottery_state \<Rightarrow> 'w \<Rightarrow> 'w crowd" where
  "gathered_around st w = \<lparr>struct = st, outside = w, phases = (\<lambda>_. Resting), journal = []\<rparr>"

lemma crowd_none: "crowd e self s s"
  by (simp add: crowd_def)

lemma crowd_more: "crowd e self s s' \<Longrightarrow> crowd_step e self i s' s'' \<Longrightarrow> crowd e self s s''"
  unfolding crowd_def someone_def by (rule rtranclp.rtrancl_into_rtrancl) blast+

section \<open>The invariant\<close>

text \<open>
  The run takes place in the process that seeded the state, and asking the entropy sources does not
  make it another one; the build has locks.
\<close>

definition one_process :: "'w env \<Rightarrow> u64 \<Rightarrow> ottery_state \<Rightarrow> (bytes \<Rightarrow> u32 \<Rightarrow> bytes) \<Rightarrow> (bytes \<Rightarrow> bytes \<Rightarrow> bool) \<Rightarrow> bool" where
  "one_process e self st0 F keyed = (library_prf (st_prf st0) F keyed \<and> ready e self st0 \<and>
     (\<forall>st w. st_prf st = st_prf st0 \<and> entropy_config st = entropy_config st0 \<longrightarrow>
        os_getpid (e_os e) (er_world (seed_request e st w)) = os_getpid (e_os e) w) \<and>
     os_contract (e_os e) \<and> \<not> no_locks (e_build e))"

definition identity where
  "identity st = (st_prf st, magic st, pid st, entropy_config st)"

fun phase_ok :: "'w phase \<Rightarrow> bool" where
  "phase_ok Resting = True"
| "phase_ok (Gathering r) = (er_err r = 0 \<longrightarrow> er_buflen r \<le> length (er_bytes r))"
| "phase_ok (Waiting j) = (valid_call (job_call j) \<and> has_seed (job_call j))"
| "phase_ok (Locked j) = (valid_call (job_call j) \<and> has_seed (job_call j))"
| "phase_ok (Current j) = (valid_call (job_call j) \<and> has_seed (job_call j))"
| "phase_ok (Done j r) = (valid_call (job_call j) \<and> has_seed (job_call j))"

text \<open>The structure in the hands of the thread that holds the lock, on the state \<open>t\<close> of the reference generator.\<close>

fun in_hand ::
    "(bytes \<Rightarrow> u32 \<Rightarrow> bytes) \<Rightarrow> nat \<Rightarrow> (bytes \<Rightarrow> bytes \<Rightarrow> bool) \<Rightarrow> prng \<Rightarrow> 'w phase \<Rightarrow> ottery_state \<Rightarrow> bool" where
  "in_hand F ol keyed t (Locked j) st = represents keyed st t"
| "in_hand F ol keyed t (Current j) st = represents keyed st t"
| "in_hand F ol keyed t (Done j r) st =
     (\<exists>t'. spec_call F 40 ol (job_call j) t = Some (r, t') \<and> represents keyed st t')"
| "in_hand F ol keyed t _ st = False"

definition all_out :: "(bytes \<Rightarrow> bytes \<Rightarrow> bool) \<Rightarrow> prng \<Rightarrow> 'w crowd \<Rightarrow> bool" where
  "all_out keyed t s = ((\<forall>i. \<not> working (phases s i)) \<and> \<not> mutex (struct s) \<and> represents keyed (struct s) t)"

definition one_in ::
    "(bytes \<Rightarrow> u32 \<Rightarrow> bytes) \<Rightarrow> nat \<Rightarrow> (bytes \<Rightarrow> bytes \<Rightarrow> bool) \<Rightarrow> prng \<Rightarrow> 'w crowd \<Rightarrow> nat \<Rightarrow> bool" where
  "one_in F ol keyed t s h = ((\<forall>i. working (phases s i) \<longleftrightarrow> i = h) \<and> mutex (struct s) \<and>
     in_hand F ol keyed t (phases s h) (struct s))"

definition journal_calls where
  "journal_calls s = map (\<lambda>(i, j, r). job_call j) (journal s)"

definition journal_replies where
  "journal_replies s = map (\<lambda>(i, j, r). r) (journal s)"

definition following ::
    "'w env \<Rightarrow> ottery_state \<Rightarrow> (bytes \<Rightarrow> u32 \<Rightarrow> bytes) \<Rightarrow> (bytes \<Rightarrow> bytes \<Rightarrow> bool) \<Rightarrow> prng \<Rightarrow> 'w crowd \<Rightarrow> bool" where
  "following e st0 F keyed s0 s = ((\<forall>i. phase_ok (phases s i)) \<and> identity (struct s) = identity st0 \<and>
     same_process e st0 (outside s) \<and> (\<exists>t. spec_run F 40 (output_len (st_prf st0)) (journal_calls s) s0 = Some (journal_replies s, t) \<and>
        (all_out keyed t s \<or> (\<exists>h. one_in F (output_len (st_prf st0)) keyed t s h))))"

lemma spec_run_snoc:
  assumes "spec_run F kl ol cs s = Some (rs, t)" "spec_call F kl ol c t = Some (r, t')"
  shows "spec_run F kl ol (cs @ [c]) s = Some (rs @ [r], t')"
  using assms
  by (induction cs arbitrary: s rs) (auto simp: prod_eq_iff split: option.splits)

lemma identity_simps [simp]:
  "identity (st\<lparr>mutex := m\<rparr>) = identity st" "identity (UNLOCK b st) = identity st"
  "identity (stored_entropy_state st x) = identity st"
  by (simp_all add: identity_def UNLOCK_def)

lemma in_hand_stored [simp]:
  "in_hand F ol keyed t p (stored_entropy_state st x) = in_hand F ol keyed t p st"
  by (cases p) simp_all

text \<open>A step outside of the lock, with or without a write to the cached inode.\<close>

lemma outside_keeps:
  fixes s :: "'w crowd" and x w
  assumes "\<not> working (phases s i)" "\<not> working p"
  defines "s' \<equiv> s\<lparr>struct := stored_entropy_state (struct s) x, outside := w, phases := (phases s)(i := p)\<rparr>"
  shows "all_out keyed t s \<Longrightarrow> all_out keyed t s'"
    "one_in F ol keyed t s h \<Longrightarrow> one_in F ol keyed t s' h"
proof -
  have w: "working (phases s' k) = working (phases s k)" for k using assms(1,2) by (simp add: s'_def)
  show "all_out keyed t s'" if "all_out keyed t s"
    using that by (simp add: all_out_def w) (simp add: s'_def)
  show "one_in F ol keyed t s' h" if o: "one_in F ol keyed t s h"
  proof -
    have "h \<noteq> i" using o assms(1) unfolding one_in_def by metis
    then have "phases s' h = phases s h" by (simp add: s'_def)
    then show ?thesis using o by (simp add: one_in_def w) (simp add: s'_def)
  qed
qed

lemma following_outside:
  assumes "following e st0 F keyed s0 s" "\<not> working (phases s i)" "\<not> working p" "phase_ok p"
    and "same_process e st0 w"
  shows "following e st0 F keyed s0
    (s\<lparr>struct := stored_entropy_state (struct s) x, outside := w, phases := (phases s)(i := p)\<rparr>)"
proof -
  define s' where
    "s' = s\<lparr>struct := stored_entropy_state (struct s) x, outside := w, phases := (phases s)(i := p)\<rparr>"
  have keep: "(\<forall>i. phase_ok (phases s' i)) \<and> identity (struct s') = identity st0 \<and> same_process e st0 (outside s')"
    using assms(1,4,5) by (simp add: following_def s'_def)
  obtain t where t: "spec_run F 40 (output_len (st_prf st0)) (journal_calls s') s0 = Some (journal_replies s', t)"
    and "all_out keyed t s \<or> (\<exists>h. one_in F (output_len (st_prf st0)) keyed t s h)"
    using assms(1) by (auto simp: following_def s'_def journal_calls_def journal_replies_def)
  then have "all_out keyed t s' \<or> (\<exists>h. one_in F (output_len (st_prf st0)) keyed t s' h)"
    using outside_keeps [OF assms(2,3)] unfolding s'_def by metis
  with keep t show ?thesis unfolding following_def s'_def [symmetric] by blast
qed

lemma job_work_matches:
  assumes "library_prf (st_prf st) F keyed" "represents keyed st s"
    and "ready e self st" "same_process e st w" "valid_call (job_call j)" "has_seed (job_call j)"
  shows "matches keyed st w (spec_call F 40 (output_len (st_prf st)) (job_call j) s) (job_work e self j st w)"
proof (cases j)
  case (Plain c)
  then show ?thesis using work_matches [OF assms(1-3)] assms(4-6) by simp
next
  case (Seeding bs n flags)
  note p = library_prf_contract [OF assms(1)]
  note f = prf_contract.represents_facts [OF p assms(2) refl]
  have "n \<le> length bs" using assms(5) Seeding by simp
  from prf_contract.add_seed_locked_represents [OF p refl f(7,2,6) this, of False "e_build e" flags w]
  show ?thesis
    using library_prf_sizes(1) [OF assms(1)] Seeding
    by (auto simp: matches_def replies_def standing_def meta_def)
qed

text \<open>The thread that holds the lock goes on.\<close>

lemma following_inside:
  assumes "following e st0 F keyed s0 s" "working (phases s i)" "working p" "phase_ok p"
    and "identity st = identity st0" "mutex st" "same_process e st0 w"
    and "\<And>t. in_hand F (output_len (st_prf st0)) keyed t (phases s i) (struct s) \<Longrightarrow>
      in_hand F (output_len (st_prf st0)) keyed t p st"
  shows "following e st0 F keyed s0 (s\<lparr>struct := st, outside := w, phases := (phases s)(i := p)\<rparr>)"
proof -
  define s' where "s' = s\<lparr>struct := st, outside := w, phases := (phases s)(i := p)\<rparr>"
  obtain t h where t: "spec_run F 40 (output_len (st_prf st0)) (journal_calls s') s0 = Some (journal_replies s', t)"
    and h: "all_out keyed t s \<or> one_in F (output_len (st_prf st0)) keyed t s h"
    using assms(1) by (auto simp: following_def s'_def journal_calls_def journal_replies_def)
  have "one_in F (output_len (st_prf st0)) keyed t s i"
    using h assms(2) unfolding all_out_def one_in_def by metis
  then have "one_in F (output_len (st_prf st0)) keyed t s' i"
    using assms(3,6,8) by (simp add: one_in_def s'_def)
  moreover have "(\<forall>i. phase_ok (phases s' i)) \<and> identity (struct s') = identity st0 \<and> same_process e st0 (outside s')"
    using assms(1,4,5,7) by (simp add: following_def s'_def)
  ultimately show ?thesis using t unfolding following_def s'_def [symmetric] by blast
qed

lemma following_held: "following e st0 F keyed s0 s \<Longrightarrow> working (phases s i) \<Longrightarrow> mutex (struct s)"
  unfolding following_def all_out_def one_in_def by blast

lemma one_processD:
  assumes "one_process e self st0 F keyed" "identity st = identity st0"
  shows "library_prf (st_prf st) F keyed" "ready e self st" "same_process e st w = same_process e st0 w"
    "st_prf st = st_prf st0"
  using assms by (auto simp: one_process_def identity_def ready_def same_process_def)

text \<open>Taking the lock, working, and releasing it.\<close>

lemma following_lock:
  assumes inv: "following e st0 F keyed s0 s" and env: "one_process e self st0 F keyed"
    and pc: "phases s i = Waiting j" and LOCK: "LOCK (e_build e) (struct s) = Ret st"
  shows "following e st0 F keyed s0 (s\<lparr>struct := st, phases := (phases s)(i := Locked j)\<rparr>)" (is "following _ _ _ _ _ ?s")
proof -
  have st: "st = (struct s)\<lparr>mutex := True\<rparr>" "\<not> mutex (struct s)"
    using LOCK_Ret [OF LOCK] env by (simp_all add: one_process_def)
  obtain t where t: "spec_run F 40 (output_len (st_prf st0)) (journal_calls ?s) s0 = Some (journal_replies ?s, t)"
    and "all_out keyed t s"
    using inv st(2) by (auto simp: following_def one_in_def journal_calls_def journal_replies_def)
  then have "one_in F (output_len (st_prf st0)) keyed t ?s i"
    using st pc by (simp add: all_out_def one_in_def)
  moreover have "(\<forall>k. phase_ok (phases ?s k)) \<and> identity (struct ?s) = identity st0 \<and> same_process e st0 (outside ?s)"
  proof -
    have "phase_ok (phases s k)" for k using inv by (simp add: following_def)
    from this [of i] this pc st inv show ?thesis by (simp add: following_def)
  qed
  ultimately show ?thesis using t unfolding following_def by blast
qed

lemma following_work:
  assumes inv: "following e st0 F keyed s0 s" and env: "one_process e self st0 F keyed"
    and pc: "phases s i = Current j" and run: "job_work e self j (struct s) (outside s) = Ret (r, st, w)"
  shows "following e st0 F keyed s0 (s\<lparr>struct := st, outside := w, phases := (phases s)(i := Done j r)\<rparr>)"
proof -
  have id: "identity (struct s) = identity st0" and ok: "phase_ok (phases s i)" and same: "same_process e st0 (outside s)"
    using inv by (simp_all add: following_def)
  note d = one_processD [OF env id]
  have held: "mutex (struct s)" using following_held [OF inv, of i] pc by simp
  obtain t where "represents keyed (struct s) t"
    using inv pc unfolding following_def all_out_def one_in_def by (metis in_hand.simps(2) working.simps(2))
  have m: "\<exists>t'. spec_call F 40 (output_len (st_prf st0)) (job_call j) t = Some (r, t') \<and> represents keyed st t' \<and>
      standing st = standing (struct s) \<and> w = outside s" if "represents keyed (struct s) t" for t
    using job_work_matches [OF d(1) that d(2), of "outside s" j] same ok pc run d(4)
    by (auto simp: matches_def d(3) split: option.splits)
  have "standing st = standing (struct s)" "w = outside s" using m [OF \<open>represents keyed (struct s) t\<close>] by blast+
  then have "identity st = identity st0" "mutex st" "same_process e st0 w"
    using id held same by (simp_all add: standing_def identity_def)
  moreover have "in_hand F (output_len (st_prf st0)) keyed t (Done j r) st"
    if "in_hand F (output_len (st_prf st0)) keyed t (phases s i) (struct s)" for t
    using m [of t] that pc by auto
  ultimately show ?thesis
    using following_inside [OF inv, of i "Done j r" st w] ok pc by simp
qed

lemma following_unlock:
  assumes inv: "following e st0 F keyed s0 s" and env: "one_process e self st0 F keyed" and pc: "phases s i = Done j r"
  shows "following e st0 F keyed s0 (s\<lparr>struct := UNLOCK (e_build e) (struct s), phases := (phases s)(i := Resting),
    journal := journal s @ [(i, j, r)]\<rparr>)" (is "following _ _ _ _ _ ?s")
proof -
  obtain t where t: "spec_run F 40 (output_len (st_prf st0)) (journal_calls s) s0 = Some (journal_replies s, t)"
    and o: "one_in F (output_len (st_prf st0)) keyed t s i"
    using inv pc unfolding following_def all_out_def one_in_def by (metis working.simps(3))
  then obtain t' where t': "spec_call F 40 (output_len (st_prf st0)) (job_call j) t = Some (r, t')"
    "represents keyed (struct s) t'"
    using pc by (auto simp: one_in_def)
  have "spec_run F 40 (output_len (st_prf st0)) (journal_calls ?s) s0 = Some (journal_replies ?s, t')"
    using spec_run_snoc [OF t t'(1)] by (simp add: journal_calls_def journal_replies_def)
  moreover have "all_out keyed t' ?s"
  proof -
    have "\<not> mutex (UNLOCK (e_build e) (struct s))"
      using env by (simp add: one_process_def UNLOCK_def RELEASE_LOCK_def)
    then show ?thesis using o t'(2) pc by (simp add: all_out_def one_in_def)
  qed
  moreover have "(\<forall>k. phase_ok (phases ?s k)) \<and> identity (struct ?s) = identity st0 \<and> same_process e st0 (outside ?s)"
    using inv by (simp add: following_def)
  ultimately show ?thesis unfolding following_def by blast
qed

lemma following_step:
  assumes "crowd_step e self i s s'" and inv: "following e st0 F keyed s0 s" and env: "one_process e self st0 F keyed"
  shows "following e st0 F keyed s0 s'"
proof -
  have id: "identity (struct s) = identity st0" and same: "same_process e st0 (outside s)"
    using inv by (simp_all add: following_def)
  have here: "same_process e (struct s) (outside s)" using one_processD(3) [OF env id] same by simp
  show ?thesis
    using assms(1)
  proof cases
    case (begin_call c)
    show ?thesis
      using following_outside [OF inv, of i "Waiting (Plain c)" "outside s" None] begin_call same
      by (simp add: stored_entropy_state_def)
  next
    case (gather r)
    have "er_err r = 0 \<longrightarrow> er_buflen r \<le> length (er_bytes r)"
      using seed_request_gathered [of e "struct s" "outside s"] env gather(5) unfolding one_process_def by metis
    moreover have "same_process e st0 (er_world r)"
      using env same id gather(5) by (simp add: one_process_def identity_def same_process_def)
    ultimately show ?thesis
      using following_outside [OF inv, of i "Gathering r" "er_world r" None] gather
      by (simp add: stored_entropy_state_def)
  next
    case (store r)
    have ok: "phase_ok (phases s i)" using inv by (simp add: following_def)
    have "state_bytes (st_prf (struct s)) = 40" by (rule library_prf_sizes(1) [OF one_processD(1) [OF env id]])
    then have "phase_ok (Waiting (Seeding (er_bytes r) (er_buflen r) (er_flags r)))" using ok store by auto
    from following_outside [OF inv _ _ this, of i "outside s" "er_state r"] store same show ?thesis by simp
  next
    case (give_up r)
    show ?thesis
      using following_outside [OF inv, of i Resting "outside s" "er_state r"] give_up same by simp
  next
    case (lock j st)
    then show ?thesis using following_lock [OF inv env] by simp
  next
    case (verify j st w)
    have "phase_ok (phases s i)" using inv by (simp add: following_def)
    moreover have "st = struct s" "w = outside s"
      using check_pid_same [OF here] verify(3) by (simp_all add: after_lock_def split: if_splits)
    moreover have "mutex (struct s)" using following_held [OF inv, of i] verify by simp
    ultimately show ?thesis
      using following_inside [OF inv, of i "Current j" st w] id same verify by simp
  next
    case (refuse j st w)
    have False
      using check_pid_same [OF here] refuse(3) by (simp add: after_lock_def split: if_splits)
    then show ?thesis ..
  next
    case (work j r st w)
    then show ?thesis using following_work [OF inv env] by simp
  next
    case (unlock j r)
    then show ?thesis using following_unlock [OF inv env] by simp
  qed
qed

interpretation crowding: inductive_invariant "\<lambda>s. s = gathered_around st0 w0" "someone e self"
  "\<lambda>s. one_process e self st0 F keyed \<and> represents keyed st0 s0 \<and> \<not> mutex st0 \<and> same_process e st0 w0 \<longrightarrow>
     following e st0 F keyed s0 s"
  for e self st0 w0 F keyed s0
proof unfold_locales
  fix s assume "s = gathered_around st0 w0"
  then show "one_process e self st0 F keyed \<and> represents keyed st0 s0 \<and> \<not> mutex st0 \<and> same_process e st0 w0 \<longrightarrow>
     following e st0 F keyed s0 s"
    by (auto simp: following_def gathered_around_def all_out_def journal_calls_def journal_replies_def)
qed (auto simp: someone_def intro: following_step)

lemmas crowd_following = crowding.always [folded crowd_def, OF _ refl, rule_format, OF _ conjI [OF _ conjI [OF _ conjI]]]

section \<open>Progress\<close>

text \<open>
  When nobody holds the lock, a waiting thread can take it, work and release it, unless the
  reference generator has no reply.
\<close>

lemma waiting_can_finish:
  assumes inv: "following e st0 F keyed s0 s" and env: "one_process e self st0 F keyed"
    and all: "all_out keyed t s" and i: "phases s i = Waiting j"
    and spec: "spec_call F 40 (output_len (st_prf st0)) (job_call j) t = Some (r, t')"
  shows "\<exists>s'. crowd e self s s' \<and> all_out keyed t' s' \<and> phases s' = (phases s)(i := Resting) \<and>
    journal s' = journal s @ [(i, j, r)]"
proof -
  define st where "st = (struct s)\<lparr>mutex := True\<rparr>"
  have id: "identity st = identity st0" and same: "same_process e st0 (outside s)"
    and "phase_ok (phases s i)"
    using inv by (simp_all add: following_def st_def)
  then have j: "valid_call (job_call j)" "has_seed (job_call j)" using i by simp_all
  note d = one_processD [OF env id]
  have here: "same_process e st (outside s)" using d(3) same by simp
  define s1 where "s1 = s\<lparr>struct := st, phases := (phases s)(i := Locked j)\<rparr>"
  have "LOCK (e_build e) (struct s) = Ret st"
    using all env by (simp add: all_out_def LOCK_free lock_free_def one_process_def st_def)
  then have 1: "crowd_step e self i s s1" using crowd_step.lock [OF i] by (simp add: s1_def)
  define s2 where "s2 = s1\<lparr>struct := st, outside := outside s, phases := (phases s1)(i := Current j)\<rparr>"
  have "after_lock e self (job_call j) (struct s1) (outside s1) = Ret (True, st, outside s)"
    using check_pid_same [OF here] by (simp add: after_lock_def s1_def)
  then have 2: "crowd_step e self i s1 s2"
    using crowd_step.verify [of s1 i j e self st "outside s"] by (simp add: s2_def s1_def)
  have rep: "represents keyed st t" using all by (simp add: all_out_def st_def)
  obtain st' where st': "job_work e self j st (outside s) = Ret (r, st', outside s)" "represents keyed st' t'"
    using job_work_matches [OF d(1) rep d(2) here j] spec d(4) by (auto simp: matches_def)
  define s3 where "s3 = s2\<lparr>struct := st', outside := outside s, phases := (phases s2)(i := Done j r)\<rparr>"
  have 3: "crowd_step e self i s2 s3"
    unfolding s3_def using st'(1) by (intro crowd_step.work) (simp_all add: s2_def s1_def)
  define s4 where "s4 = s3\<lparr>struct := UNLOCK (e_build e) (struct s3), phases := (phases s3)(i := Resting),
    journal := journal s3 @ [(i, j, r)]\<rparr>"
  have 4: "crowd_step e self i s3 s4"
    unfolding s4_def by (rule crowd_step.unlock) (simp add: s3_def)
  note defs = s4_def s3_def s2_def s1_def
  have "crowd e self s s4" by (meson 1 2 3 4 crowd_none crowd_more)
  moreover have "all_out keyed t' s4"
    using all st'(2) env
    by (auto simp: all_out_def defs one_process_def UNLOCK_def RELEASE_LOCK_def)
  ultimately show ?thesis by (intro exI [of _ s4]) (simp add: defs)
qed

end
