(* ===== verification/Demo_Threads.thy ===== *)
theory Demo_Threads
  imports Ottery_Demo Global_Threads Seed_Threads
begin

text \<open>
  The example system of \<open>Ottery_Demo\<close> as a reachable state, and runs of two threads on it.
\<close>

lemma demo_reachable: "reachable demo_env 16 True demo_state w"
  using reachable.world [OF reachable.init [OF demo_prf library_prf.merged20]]
    demo_state_ok(1) [unfolded ottery_st_init_def] by blast

text \<open>A run on the example system: thread 1 has begun a call when thread 0 makes one and returns from it.\<close>

lemma demo_run:
  "\<exists>s r. threads demo_env 16 (at_rest demo_state 7) s \<and> history s = [(0, RandUint32, r)] \<and>
     pcs s = (\<lambda>_. Idle)(1 := Checked RandUint64)"
proof -
  have st: "magic demo_state = MAGIC 16" "\<not> mutex demo_state"
    using reachable_invariant [OF demo_reachable [of 7]] demo_os_contract by (simp_all add: sound_def)
  define s1 where "s1 = (at_rest demo_state (7 :: int))\<lparr>pcs := (\<lambda>_. Idle)(1 := Checked RandUint64)\<rparr>"
  define s2 where "s2 = s1\<lparr>pcs := (pcs s1)(0 := Checked RandUint32)\<rparr>"
  define s3 where "s3 = s2\<lparr>shared := demo_state\<lparr>mutex := True\<rparr>, pcs := (pcs s2)(0 := Entered RandUint32)\<rparr>"
  define s4 where "s4 = s3\<lparr>shared := demo_state\<lparr>mutex := True\<rparr>, sys_world := 7,
    pcs := (pcs s3)(0 := Verified RandUint32)\<rparr>"
  obtain bs st where r: "RAND_INTTYPE_IMPL demo_build 4 (demo_state\<lparr>mutex := True\<rparr>) = (bs, st)" by fastforce
  define s5 where "s5 = s4\<lparr>shared := st, sys_world := 7, pcs := (pcs s4)(0 := Finished RandUint32 (integer 4 bs))\<rparr>"
  define s6 where "s6 = s5\<lparr>shared := UNLOCK demo_build (shared s5), pcs := (pcs s5)(0 := Idle),
    history := history s5 @ [(0, RandUint32, integer 4 bs)]\<rparr>"
  note defs = s1_def s2_def s3_def s4_def s5_def s6_def at_rest_def
  have "thread_step demo_env 16 1 (at_rest demo_state 7) s1"
    using thread_step.check [of "at_rest demo_state 7" 1 RandUint64 demo_env 16] st
    by (simp add: defs before_lock_def)
  moreover have "thread_step demo_env 16 0 s1 s2"
    unfolding s2_def by (rule thread_step.check) (simp_all add: defs before_lock_def st)
  moreover have "thread_step demo_env 16 0 s2 s3"
    unfolding s3_def
    by (rule thread_step.lock) (simp_all add: defs LOCK_free lock_free_def st demo_locks)
  moreover have "thread_step demo_env 16 0 s3 s4"
    unfolding s4_def using demo_state_ok(5)
    by (intro thread_step.verify) (auto simp: defs after_lock_def ottery_st_rand_check_pid_def same_process_def)
  moreover have "thread_step demo_env 16 0 s4 s5"
    unfolding s5_def by (rule thread_step.work) (simp_all add: defs r)
  moreover have "thread_step demo_env 16 0 s5 s6"
    using thread_step.unlock [of s5 0 RandUint32 "integer 4 bs" demo_env 16] by (simp add: defs)
  ultimately have "threads demo_env 16 (at_rest demo_state 7) s6"
    by (meson threads_none threads_more)
  then show ?thesis
    by (intro exI [of _ s6] exI [of _ "integer 4 bs"] conjI) (simp_all add: defs fun_eq_iff)
qed

text \<open>One in which thread 0 holds the lock.\<close>

lemma demo_holding: "\<exists>s. threads demo_env 16 (at_rest demo_state 7) s \<and> pcs s 0 = Entered RandUint32"
proof -
  have st: "magic demo_state = MAGIC 16" "\<not> mutex demo_state"
    using reachable_invariant [OF demo_reachable [of 7]] demo_os_contract by (simp_all add: sound_def)
  define s1 where "s1 = (at_rest demo_state (7 :: int))\<lparr>pcs := (\<lambda>_. Idle)(0 := Checked RandUint32)\<rparr>"
  define s2 where "s2 = s1\<lparr>shared := demo_state\<lparr>mutex := True\<rparr>, pcs := (pcs s1)(0 := Entered RandUint32)\<rparr>"
  have "thread_step demo_env 16 0 (at_rest demo_state 7) s1"
    using thread_step.check [of "at_rest demo_state 7" 0 RandUint32 demo_env 16] st
    by (simp add: s1_def at_rest_def before_lock_def)
  moreover have "thread_step demo_env 16 0 s1 s2"
    unfolding s2_def
    by (rule thread_step.lock) (simp_all add: s1_def at_rest_def LOCK_free lock_free_def st demo_locks)
  ultimately have "threads demo_env 16 (at_rest demo_state 7) s2" by (meson threads_none threads_more)
  then show ?thesis by (intro exI [of _ s2]) (simp add: s2_def)
qed

text \<open>Another one, in which thread 1 asks the entropy sources while thread 0 has begun a call.\<close>

lemma demo_one_process: "one_process demo_env 16 demo_state (merged_F 20) merged_keyed"
proof -
  have "er_world (seed_request demo_env st w) = w"
    if "st_prf st = ottery_prf_chacha20_merged" "entropy_config st = demo_config" for st w
    using that demo_entropy_world [of 40 120] by (simp add: seed_request_def st_get_entropy_def demo_bufsize)
  then show ?thesis
    by (simp add: one_process_def demo_state_ok library_prf.merged20 demo_os_contract demo_locks)
qed

lemma demo_crowd:
  "\<exists>s r. crowd demo_env 16 (gathered_around demo_state 7) s \<and> phases s = (\<lambda>_. Resting) \<and>
     journal s = [(0, Plain RandUint32, r),
       (1, Seeding (replicate 40 165 @ replicate 80 0) 40 0x10101, GotCode 0)]"
proof -
  define s0 where "s0 = gathered_around demo_state (7 :: int)"
  have magic: "magic demo_state = MAGIC 16"
    using reachable_invariant [OF demo_reachable [of 7]] demo_os_contract by (simp add: sound_def)
  define s1 where "s1 = s0\<lparr>phases := (phases s0)(0 := Waiting (Plain RandUint32))\<rparr>"
  have 1: "crowd_step demo_env 16 0 s0 s1"
    unfolding s1_def by (rule crowd_step.begin_call) (simp_all add: s0_def gathered_around_def before_lock_def magic)
  define s2 where "s2 = s1\<lparr>outside := er_world (demo_seed 7), phases := (phases s1)(1 := Gathering (demo_seed 7))\<rparr>"
  have 2: "crowd_step demo_env 16 1 s1 s2"
    unfolding s2_def
    by (rule crowd_step.gather)
       (simp_all add: s1_def s0_def gathered_around_def before_lock_def magic demo_state_ok)
  let ?seeding = "Seeding (replicate 40 165 @ replicate 80 0) 40 0x10101"
  define s3 where "s3 = s2\<lparr>struct := stored_entropy_state (struct s2) (er_state (demo_seed 7)),
    phases := (phases s2)(1 := Waiting ?seeding)\<rparr>"
  have 3: "crowd_step demo_env 16 1 s2 s3"
    using crowd_step.store [of s2 1 "demo_seed 7" demo_env 16] demo_state_ok(3)
    by (simp add: s3_def s2_def s1_def s0_def gathered_around_def demo_seed_def)
  have run3: "crowd demo_env 16 s0 s3" by (meson 1 2 3 crowd_none crowd_more)
  note follows = crowd_following [OF _ demo_one_process demo_state_ok(2,11,5), folded s0_def]
  have "all_out merged_keyed demo_prng s3"
    by (simp add: all_out_def s3_def s2_def s1_def s0_def gathered_around_def demo_state_ok)
  moreover obtain r t where "spec_call (merged_F 20) 40 1024 RandUint32 demo_prng = Some (r, t)"
    by (simp add: map_prod_def case_prod_unfold)
  ultimately obtain s4 where s4: "crowd demo_env 16 s3 s4" "all_out merged_keyed t s4"
    "phases s4 = (phases s3)(0 := Resting)" "journal s4 = journal s3 @ [(0, Plain RandUint32, r)]"
    using waiting_can_finish [OF follows [OF run3] demo_one_process, of demo_prng 0 "Plain RandUint32" r t]
    by (auto simp: s3_def s2_def s1_def demo_state_ok)
  have run4: "crowd demo_env 16 s0 s4" using run3 s4(1) unfolding crowd_def by (rule rtranclp_trans)
  obtain t' where "spec_call (merged_F 20) 40 1024 (job_call ?seeding) t = Some (GotCode 0, t')" by simp
  then obtain s5 where s5: "crowd demo_env 16 s4 s5" "phases s5 = (phases s4)(1 := Resting)"
    "journal s5 = journal s4 @ [(1, ?seeding, GotCode 0)]"
    using waiting_can_finish [OF follows [OF run4] demo_one_process s4(2), of 1 ?seeding "GotCode 0" t'] s4(3)
    by (auto simp: s3_def demo_state_ok)
  have "crowd demo_env 16 s0 s5" using run4 s5(1) unfolding crowd_def by (rule rtranclp_trans)
  moreover have "phases s5 = (\<lambda>_. Resting)" "journal s5 = [(0, Plain RandUint32, r), (1, ?seeding, GotCode 0)]"
    using s5 s4 by (simp_all add: s3_def s2_def s1_def s0_def gathered_around_def fun_eq_iff)
  ultimately show ?thesis unfolding s0_def by blast
qed

end
