(* ===== verification/Prng_Life.thy ===== *)
theory Prng_Life
  imports Prng_Trace Ottery_Global
begin

text \<open>
  Sequences of calls across the events in the life of a generator. In a child process the calls up to
  the first one that takes bytes work on the copy of the parent's state, and that one starts again from
  fresh entropy: whatever seed the child has added before is lost. A program that uses the functions of
  \<^verbatim>\<open>src/ottery_global.c\<close> gets what the reference generator gives, from the first call on.
\<close>

section \<open>The first request in a child\<close>

lemma inttype_nolock_moved:
  assumes "ready e self st" "ready e self st'" "same_process e st' w'"
    and "ottery_st_rand_check_pid e self st w = Ret (True, st', w')"
  shows "RAND_INTTYPE_NOLOCK e self k st w = RAND_INTTYPE_NOLOCK e self k st' w'"
  using assms(4) check_nolock_same [OF assms(2,3)]
  by (simp add: RAND_INTTYPE_NOLOCK_def ottery_st_rand_check_nolock_def check_init_ready [OF assms(1)])

text \<open>A loop only sees the state through its draws.\<close>

lemma range_loop_moved: "draw s = draw s' \<Longrightarrow> range_loop draw d u s = range_loop draw d u s'"
  by (simp add: range_loop.simps [of draw d u s] range_loop.simps [of draw d u s'])

lemma critical_section_moved:
  assumes "ready e self st" "ready e self st'" "same_process e st' w'"
    and "ottery_st_rand_check_pid e self st w = Ret (True, st', w')" "draws c"
  shows "critical_section e self c st w = work e self c st' w'"
proof (cases "checks_pid c")
  case True
  then show ?thesis using assms(4) by (simp add: critical_section_def after_lock_def)
next
  case False
  note int = inttype_nolock_moved [OF assms(1-4)]
  from False have "critical_section e self c st w = work e self c st w"
    by (simp add: critical_section_def after_lock_def)
  also from False assms(5) have "work e self c st w = work e self c st' w'"
    by (cases c)
       (simp_all add: draws_def ottery_st_rand_range_nolock_def ottery_st_rand_range64_nolock_def
         ottery_st_rand_unsigned_nolock_def ottery_st_rand_uint64_nolock_def
         range_loop_moved [of _ "(st, w)" "(st', w')"] int)
  finally show ?thesis .
qed

text \<open>What stays of a state when it changes hands, and what becomes of it.\<close>

definition inherited :: "'w env \<Rightarrow> ottery_state \<Rightarrow> ottery_state \<Rightarrow> 'w \<Rightarrow> bool" where
  "inherited e st st' w = (st_prf st' = st_prf st \<and> magic st' = magic st \<and> mutex st' = mutex st \<and>
     pid st' = os_getpid (e_os e) w)"

lemma inherited_usable:
  assumes "inherited e st st' w"
  shows "same_process e st' w" "ready e self st' = ready e self st" "lock_free b st' = lock_free b st"
  using assms by (simp_all add: inherited_def same_process_def ready_def lock_free_def)

lemma api_in_child:
  assumes l: "library_prf (st_prf st) F keyed" and st: "generator_ok st" "\<not> same_process e st w"
    and ok: "ready e self st" "lock_free (e_build e) st" and c: "valid_call c" "has_seed c" "draws c"
    and os: "os_contract (e_os e)" "seed_buffer_ok e st w" "er_err (seed_request e st w) = 0"
  defines "r \<equiv> seed_request e st w"
  shows "case spec_call F 40 (output_len (st_prf st)) c (spec_construct F 40 (entropy_seed r)) of
      None \<Rightarrow> api e self c st w = Hang
    | Some (x, s') \<Rightarrow> \<exists>st'. api e self c st w = Ret (x, st', er_world r) \<and> represents keyed st' s' \<and>
        inherited e st st' (er_world r)"
proof -
  define s0 where "s0 = st\<lparr>mutex := \<not> no_locks (e_build e) \<or> mutex st\<rparr>"
  have eq: "seed_request e s0 w = r" "seed_buffer_ok e s0 w"
    using os(2) by (simp_all add: s0_def r_def seed_request_def seed_buffer_ok_def st_get_entropy_def)
  have s0: "generator_ok s0" "st_prf s0 = st_prf st" "\<not> same_process e s0 w" "ready e self s0"
    using st ok by (simp_all add: s0_def generator_ok_def mem_ok_def ready_def)
  obtain s1 where s1: "ottery_st_rand_check_pid e self s0 w = Ret (True, s1, er_world r)"
    "represents keyed s1 (spec_construct F 40 (entropy_seed r))" "st_prf s1 = st_prf st"
    "pid s1 = os_getpid (e_os e) (er_world r)" "magic s1 = magic s0" "mutex s1 = mutex s0"
    using prf_contract.check_pid_fork [OF library_prf_contract [OF l] s0(1-3) os(1) eq(2), of self] os(3) eq(1)
      library_prf_sizes(1) [OF l] by (auto simp: r_def)
  have s1': "library_prf (st_prf s1) F keyed" "ready e self s1" "same_process e s1 (er_world r)"
    using l s1 s0(4) by (simp_all add: ready_def same_process_def)
  have before: "before_lock e self c st" using ok(1) by (simp add: before_lock_def ready_def)
  have api: "api e self c st w = obind (work e self c s1 (er_world r)) (\<lambda>(r, st, w). Ret (r, UNLOCK (e_build e) st, w))"
    using critical_section_moved [OF s0(4) s1'(2,3) s1(1) c(3)]
    by (simp add: api_parts [OF before c(2)] LOCK_free [OF ok(2)] s0_def)
  have un: "inherited e st (UNLOCK (e_build e) st') (er_world r)" if "standing st' = standing s1" for st'
    using that ok(2) s1(3-6)
    by (auto simp: inherited_def standing_def s0_def UNLOCK_def RELEASE_LOCK_def lock_free_def)
  show ?thesis
    using work_matches [OF s1'(1) s1(2) s1'(2) _ c(1,2), of "er_world r"] s1'(3) s1(3)
    by (auto simp: matches_def api un split: option.splits)
qed

section \<open>Sequences in a child\<close>

lemma api_run_append:
  "api_run e self (xs @ ys) st w = obind (api_run e self xs st w) (\<lambda>(rs, st, w).
     obind (api_run e self ys st w) (\<lambda>(rs', st, w). Ret (rs @ rs', st, w)))"
  by (induction xs arbitrary: st w) (auto simp: obind_assoc intro!: obind_cong split: prod.split)

text \<open>Calls that take no bytes reply at once and leave a generator that belongs to the same process as before.\<close>

fun quiet_reply :: "call \<Rightarrow> reply" where
  "quiet_reply (AddSeed _ _) = GotCode 0"
| "quiet_reply _ = GotNothing"

lemma quiet_spec_call: "\<not> draws c \<Longrightarrow> \<exists>s'. spec_call F kl ol c s = Some (quiet_reply c, s')"
  by (cases c) (simp_all add: draws_def)

lemma quiet_run:
  assumes "library_prf (st_prf st) F keyed" "represents keyed st s" "ready e self st" "lock_free (e_build e) st"
    and "\<forall>c \<in> set cs. valid_call c \<and> has_seed c \<and> \<not> draws c"
  shows "\<exists>st' s'. api_run e self cs st w = Ret (map quiet_reply cs, st', w) \<and> represents keyed st' s' \<and>
    standing st' = standing st"
  using assms
proof (induction cs arbitrary: st s)
  case (Cons c cs)
  then have "matches keyed st w (spec_call F 40 (output_len (st_prf st)) c s) (api e self c st w)"
    by (intro api_matches) simp_all
  moreover obtain s1 where "spec_call F 40 (output_len (st_prf st)) c s = Some (quiet_reply c, s1)"
    using quiet_spec_call [of c F 40 "output_len (st_prf st)" s] Cons.prems(5) by auto
  ultimately obtain st1 where st1: "api e self c st w = Ret (quiet_reply c, st1, w)" "represents keyed st1 s1"
    "standing st1 = standing st" by (auto simp: matches_def)
  note eq = standing_eqD [OF st1(3)]
  obtain st' s' where "api_run e self cs st1 w = Ret (map quiet_reply cs, st', w)" "represents keyed st' s'"
    "standing st' = standing st1"
    using Cons.IH [OF _ st1(2)] Cons.prems by (auto simp: eq)
  with st1 show ?case by (intro exI [of _ st'] exI [of _ s']) simp
qed auto

lemma standing_seed_request:
  "standing st' = standing st \<Longrightarrow> seed_request e st' w = seed_request e st w"
  "standing st' = standing st \<Longrightarrow> seed_buffer_ok e st' w = seed_buffer_ok e st w"
  by (simp_all add: standing_def seed_request_def seed_buffer_ok_def st_get_entropy_def)

text \<open>A request followed by any other calls, in the child.\<close>

lemma requests_in_child:
  assumes l: "library_prf (st_prf st) F keyed" and st: "generator_ok st" "\<not> same_process e st w"
    and ok: "ready e self st" "lock_free (e_build e) st"
    and c: "\<forall>c \<in> set (c # cs). valid_call c \<and> has_seed c" "draws c"
    and os: "os_contract (e_os e)" "seed_buffer_ok e st w" "er_err (seed_request e st w) = 0"
  defines "r \<equiv> seed_request e st w"
  shows "case spec_run F 40 (output_len (st_prf st)) (c # cs) (spec_construct F 40 (entropy_seed r)) of
      None \<Rightarrow> api_run e self (c # cs) st w = Hang
    | Some (rs, s') \<Rightarrow> \<exists>st'. api_run e self (c # cs) st w = Ret (rs, st', er_world r) \<and> represents keyed st' s' \<and>
        inherited e st st' (er_world r)"
proof -
  let ?s = "spec_construct F 40 (entropy_seed r)" and ?ol = "output_len (st_prf st)"
  note first = api_in_child [OF l st ok _ _ c(2) os, folded r_def]
  show ?thesis
  proof (cases "spec_call F 40 ?ol c ?s")
    case None
    with first c(1) show ?thesis by simp
  next
    case (Some xs)
    obtain x s1 where xs: "xs = (x, s1)" by (cases xs)
    with first c(1) Some obtain st1 where st1: "api e self c st w = Ret (x, st1, er_world r)"
      "represents keyed st1 s1" "inherited e st st1 (er_world r)" by auto
    note use = inherited_usable [OF st1(3)]
    have p: "st_prf st1 = st_prf st" using st1(3) by (simp add: inherited_def)
    have "matches keyed st1 (er_world r) (spec_run F 40 ?ol cs s1) (api_run e self cs st1 (er_world r))"
      using api_run_matches [OF _ st1(2) _ use(1), of F self cs] l ok c(1) p by (simp add: use)
    then show ?thesis
      using Some xs st1
      by (auto simp: matches_def standing_def inherited_def split: option.splits)
  qed
qed

lemma calls_in_child:
  assumes l: "library_prf (st_prf st) F keyed" and rep: "represents keyed st s" and fork: "\<not> same_process e st w"
    and ok: "ready e self st" "lock_free (e_build e) st"
    and pre: "\<forall>c \<in> set pre. valid_call c \<and> has_seed c \<and> \<not> draws c"
    and c: "\<forall>c \<in> set (c # cs). valid_call c \<and> has_seed c" "draws c"
    and os: "os_contract (e_os e)" "seed_buffer_ok e st w" "er_err (seed_request e st w) = 0"
  defines "r \<equiv> seed_request e st w"
  shows "case spec_run F 40 (output_len (st_prf st)) (c # cs) (spec_construct F 40 (entropy_seed r)) of
      None \<Rightarrow> api_run e self (pre @ c # cs) st w = Hang
    | Some (rs, s') \<Rightarrow> \<exists>st'. api_run e self (pre @ c # cs) st w = Ret (map quiet_reply pre @ rs, st', er_world r) \<and>
        represents keyed st' s' \<and> inherited e st st' (er_world r)"
proof -
  obtain st1 s1 where st1: "api_run e self pre st w = Ret (map quiet_reply pre, st1, w)"
    "represents keyed st1 s1" "standing st1 = standing st"
    using quiet_run [OF l rep ok pre, of w] by blast
  note eq = standing_eqD [OF st1(3)] standing_seed_request [OF st1(3)]
  have "generator_ok st1" using st1(2) by (simp add: represents_def)
  moreover have "inherited e st1 st' w' = inherited e st st' w'" for st' w'
    using st1(3) by (simp add: inherited_def standing_def)
  ultimately show ?thesis
    using requests_in_child [of st1 F keyed e w self c cs] l fork ok c os
    by (auto simp: api_run_append st1(1) eq r_def simp del: api_run.simps spec_run.simps split: option.splits)
qed

section \<open>The global generator\<close>

definition global_replies :: "('a \<Rightarrow> reply) \<Rightarrow> ('a \<times> global \<times> 'w) outcome \<Rightarrow> (reply \<times> global \<times> 'w) outcome" where
  "global_replies f r = obind r (\<lambda>(x, g, w). Ret (f x, g, w))"

text \<open>The calls of \<^verbatim>\<open>src/ottery.h\<close>, with the result that the caller sees.\<close>

fun global_api :: "'w env \<Rightarrow> u64 \<Rightarrow> call \<Rightarrow> global \<Rightarrow> 'w \<Rightarrow> (reply \<times> global \<times> 'w) outcome" where
  "global_api e GLOBAL (RandBytes n) g w = global_replies GotBytes (ottery_rand_bytes e GLOBAL g n w)"
| "global_api e GLOBAL RandUnsigned g w =
     global_replies (\<lambda>v. GotInt (unat v)) (ottery_rand_unsigned e GLOBAL g w)"
| "global_api e GLOBAL RandUint32 g w =
     global_replies (\<lambda>v. GotInt (unat v)) (ottery_rand_uint32 e GLOBAL g w)"
| "global_api e GLOBAL RandUint64 g w =
     global_replies (\<lambda>v. GotInt (unat v)) (ottery_rand_uint64 e GLOBAL g w)"
| "global_api e GLOBAL (RandRange upper) g w =
     global_replies (\<lambda>v. GotInt (unat v)) (ottery_rand_range e GLOBAL g upper w)"
| "global_api e GLOBAL (RandRange64 upper) g w =
     global_replies (\<lambda>v. GotInt (unat v)) (ottery_rand_range64 e GLOBAL g upper w)"
| "global_api e GLOBAL (AddSeed seed n) g w = global_replies GotCode (ottery_add_seed e GLOBAL g seed n w)"
| "global_api e GLOBAL PreventBacktracking g w =
     global_replies (\<lambda>_. GotNothing) (ottery_prevent_backtracking e GLOBAL g w)"

fun global_run :: "'w env \<Rightarrow> u64 \<Rightarrow> call list \<Rightarrow> global \<Rightarrow> 'w \<Rightarrow> (reply list \<times> global \<times> 'w) outcome" where
  "global_run e GLOBAL [] g w = Ret ([], g, w)"
| "global_run e GLOBAL (c # cs) g w =
     obind (global_api e GLOBAL c g w) (\<lambda>(r, g, w).
     obind (global_run e GLOBAL cs g w) (\<lambda>(rs, g, w). Ret (r # rs, g, w)))"

lemma CHECK_INIT_done [simp]: "global_initialized g \<Longrightarrow> CHECK_INIT e GLOBAL g w rv f = f g w"
  by (simp add: CHECK_INIT_def)

lemma CHECK_INIT_now:
  "\<not> global_initialized g \<Longrightarrow> ottery_init e GLOBAL g None w = Ret (0, g', w') \<Longrightarrow>
     CHECK_INIT e GLOBAL g w rv f = f g' w'"
  by (simp add: CHECK_INIT_def)

lemmas global_fn_defs = ottery_rand_bytes_def ottery_rand_unsigned_def ottery_rand_uint32_def
  ottery_rand_uint64_def ottery_rand_range_def ottery_rand_range64_def ottery_add_seed_def
  ottery_prevent_backtracking_def

text \<open>Once initialised, a call is a call on the global state; the first call initialises it.\<close>

lemma global_api_done:
  assumes "global_initialized g"
  shows "global_api e GLOBAL c g w = on_global g (api e GLOBAL c (global_state g) w)"
  using assms
  by (cases c) (auto simp: global_fn_defs global_replies_def replies_def on_global_def obind_assoc intro!: obind_cong)

lemma global_api_first:
  assumes "\<not> global_initialized g" "ottery_init e GLOBAL g None w = Ret (0, g', w')"
  shows "global_api e GLOBAL c g w = global_api e GLOBAL c g' w'"
proof -
  have "global_initialized g'" using assms by (auto simp: ottery_init_def outcome_simps Let_def)
  then show ?thesis
    by (cases c) (simp_all add: global_fn_defs CHECK_INIT_now [OF assms])
qed

lemma global_run_done:
  assumes "global_initialized g"
  shows "global_run e GLOBAL cs g w = on_global g (api_run e GLOBAL cs (global_state g) w)"
  using assms
  by (induction cs arbitrary: g w)
     (auto simp: global_api_done on_global_def obind_assoc intro!: obind_cong)

lemma global_program:
  assumes l: "library_prf p F keyed" "chosen_prf e None = Some p" "G AND 0xF = 0" "sizes_ok (e_build e)"
    and init: "lock_init e True w = (False, w1)" "os_contract (e_os e)"
    and seed: "seed_buffer_ok e (unseeded_state None p) w1" "er_err (seed_request e (unseeded_state None p) w1) = 0"
    and g: "\<not> global_initialized g" and cs: "\<forall>c \<in> set cs. valid_call c \<and> has_seed c" "cs \<noteq> []"
  defines "r \<equiv> seed_request e (unseeded_state None p) w1"
  shows "case spec_run F 40 (output_len p) cs (spec_construct F 40 (entropy_seed r)) of
      None \<Rightarrow> global_run e G cs g w = Hang
    | Some (rs, s') \<Rightarrow> \<exists>g'. global_run e G cs g w = Ret (rs, g', er_world r) \<and> global_initialized g' \<and>
        represents keyed (global_state g') s'"
proof -
  obtain st where st: "ottery_st_initialize e G (global_state g) None True w = Ret (0, st, er_world r)"
    "represents keyed st (spec_construct F 40 (entropy_seed r))" "st_prf st = p" "magic st = MAGIC G"
    "pid st = os_getpid (e_os e) (er_world r)" "\<not> mutex st"
    using prf_contract.initialize_success [OF library_prf_contract [OF l(1)] l(2-4) init seed]
      library_prf_sizes [OF l(1)] by (auto simp: r_def)
  define g1 where "g1 = g\<lparr>global_state := st, global_initialized := True\<rparr>"
  have g1: "global_initialized g1" "global_state g1 = st" by (simp_all add: g1_def)
  have i: "ottery_init e G g None w = Ret (0, g1, er_world r)"
    using st(1) by (simp add: ottery_init_def ottery_st_init_def g1_def)
  have "global_run e G cs g w = global_run e G cs g1 (er_world r)"
    using cs(2) by (cases cs) (simp_all add: global_api_first [OF g i])
  also have "\<dots> = on_global g1 (api_run e G cs st (er_world r))"
    using global_run_done [OF g1(1), of e G cs] g1(2) by simp
  finally have run: "global_run e G cs g w = on_global g1 (api_run e G cs st (er_world r))" .
  have "ready e G st" "same_process e st (er_world r)" "lock_free (e_build e) st"
    using st(4-6) by (simp_all add: ready_def same_process_def lock_free_def)
  then have "matches keyed st (er_world r) (spec_run F 40 (output_len p) cs (spec_construct F 40 (entropy_seed r)))
      (api_run e G cs st (er_world r))"
    using api_run_matches [OF _ st(2) _ _ _ cs(1), of F] l(1) st(3) by simp
  then show ?thesis by (auto simp: matches_def run on_global_def g1 split: option.splits)
qed

end
