(* ===== verification/Chacha_Vectors.thy ===== *)
theory Chacha_Vectors
  imports Chacha_Merged
begin

text \<open>
  A published test vector: ChaCha20 with a key, a nonce and a counter of zeros. The ten double rounds are
  evaluated one by one; together they show that the reference definition of \<open>Chacha_Core\<close>, to which
  the implementations are compared, is the ChaCha20 of the literature.
\<close>

lemma vector_round_1:
  "double_round
     [0x61707865, 0x3320646E, 0x79622D32, 0x6B206574, 0, 0, 0, 0,
      0, 0, 0, 0, 0, 0, 0, 0] =
     [0xE45FD249, 0x1BB820A6, 0xE31A88EA, 0xE667A9FE, 0x2A3BF673, 0x86BF4098, 0x460B500A, 0xFA169886,
      0x538DCA0E, 0x0C439641, 0x00FA16BC, 0x8A08812A, 0x6BBF8B09, 0xC33013D6, 0xBB9F9849, 0x87C62165]"
  by code_simp

lemma vector_round_2:
  "double_round
     [0xE45FD249, 0x1BB820A6, 0xE31A88EA, 0xE667A9FE, 0x2A3BF673, 0x86BF4098, 0x460B500A, 0xFA169886,
      0x538DCA0E, 0x0C439641, 0x00FA16BC, 0x8A08812A, 0x6BBF8B09, 0xC33013D6, 0xBB9F9849, 0x87C62165] =
     [0xB20E0DA6, 0x21219E43, 0x79C69196, 0x8EB9D107, 0x28BFA54E, 0x0E8A389F, 0x7919A4B4, 0x323F2639,
      0x69727D19, 0x12E796EC, 0xD1875D88, 0x602BB1EC, 0x601C8A8D, 0x18CF3767, 0x60D10EBC, 0x17AA36CA]"
  by code_simp

lemma vector_round_3:
  "double_round
     [0xB20E0DA6, 0x21219E43, 0x79C69196, 0x8EB9D107, 0x28BFA54E, 0x0E8A389F, 0x7919A4B4, 0x323F2639,
      0x69727D19, 0x12E796EC, 0xD1875D88, 0x602BB1EC, 0x601C8A8D, 0x18CF3767, 0x60D10EBC, 0x17AA36CA] =
     [0x0287A2A1, 0xD2DC39EF, 0xF2ECF51E, 0xC3876AFE, 0x9276B821, 0x37CCB7A7, 0x1FE6C459, 0xE5F95617,
      0xD7B18523, 0xA0952FF2, 0x131F6FF5, 0x6F38A9CC, 0x5C427A5F, 0x1D928D7B, 0xF4D2B4DA, 0x1A640884]"
  by code_simp

lemma vector_round_4:
  "double_round
     [0x0287A2A1, 0xD2DC39EF, 0xF2ECF51E, 0xC3876AFE, 0x9276B821, 0x37CCB7A7, 0x1FE6C459, 0xE5F95617,
      0xD7B18523, 0xA0952FF2, 0x131F6FF5, 0x6F38A9CC, 0x5C427A5F, 0x1D928D7B, 0xF4D2B4DA, 0x1A640884] =
     [0xCE7E87D9, 0xA31FFB1B, 0x6F562E4D, 0x3684A3AB, 0xC30E842C, 0x3B7F9ACE, 0x88E11B18, 0x1E1A71EF,
      0x72E14C98, 0x416F21B9, 0x6753449F, 0x19566D45, 0xA3424A31, 0x01B086DA, 0xB8FD7B38, 0x42FE0C0E]"
  by code_simp

lemma vector_round_5:
  "double_round
     [0xCE7E87D9, 0xA31FFB1B, 0x6F562E4D, 0x3684A3AB, 0xC30E842C, 0x3B7F9ACE, 0x88E11B18, 0x1E1A71EF,
      0x72E14C98, 0x416F21B9, 0x6753449F, 0x19566D45, 0xA3424A31, 0x01B086DA, 0xB8FD7B38, 0x42FE0C0E] =
     [0x4E03490C, 0x97EEBEF9, 0xF682BB04, 0x2F47E3B0, 0x50B4761B, 0xEA7C9CF0, 0xB3A3E583, 0xE5BAD8A8,
      0x4F9F9D79, 0x44F52393, 0xABBFAF66, 0x5EFD347A, 0xB1F55CB5, 0x05110AED, 0x561C5907, 0xD41D25B4]"
  by code_simp

lemma vector_round_6:
  "double_round
     [0x4E03490C, 0x97EEBEF9, 0xF682BB04, 0x2F47E3B0, 0x50B4761B, 0xEA7C9CF0, 0xB3A3E583, 0xE5BAD8A8,
      0x4F9F9D79, 0x44F52393, 0xABBFAF66, 0x5EFD347A, 0xB1F55CB5, 0x05110AED, 0x561C5907, 0xD41D25B4] =
     [0x092A7C36, 0x20D8F099, 0x996BF24F, 0x6A62C0EB, 0xBBC32904, 0x1474E049, 0xA589007E, 0x5F15AE2E,
      0x79F86405, 0xC0E37AD2, 0x3428E82C, 0x798CFAAC, 0x2C9F623A, 0x1969DEA0, 0x2FE80B61, 0xBE261341]"
  by code_simp

lemma vector_round_7:
  "double_round
     [0x092A7C36, 0x20D8F099, 0x996BF24F, 0x6A62C0EB, 0xBBC32904, 0x1474E049, 0xA589007E, 0x5F15AE2E,
      0x79F86405, 0xC0E37AD2, 0x3428E82C, 0x798CFAAC, 0x2C9F623A, 0x1969DEA0, 0x2FE80B61, 0xBE261341] =
     [0x6DDF4B98, 0x5FDE0110, 0xD9DDB632, 0x7418250B, 0xDDA3EA19, 0x46DA35F5, 0x31FB36CA, 0x70E56323,
      0x46D58770, 0xC0C8E4E6, 0xBA4B1657, 0xC4702B5E, 0xAF4AD6E3, 0xE6947902, 0x2681E5BB, 0x28344E52]"
  by code_simp

lemma vector_round_8:
  "double_round
     [0x6DDF4B98, 0x5FDE0110, 0xD9DDB632, 0x7418250B, 0xDDA3EA19, 0x46DA35F5, 0x31FB36CA, 0x70E56323,
      0x46D58770, 0xC0C8E4E6, 0xBA4B1657, 0xC4702B5E, 0xAF4AD6E3, 0xE6947902, 0x2681E5BB, 0x28344E52] =
     [0xF6EB4385, 0x0F5070CF, 0x824AC4D4, 0xFF026184, 0x71DB97DD, 0x60CD994D, 0xAD805036, 0x89D591CE,
      0x9E5243F3, 0x16D0EE25, 0x82E92B96, 0xD0DA8654, 0x6B96A006, 0x477A37F7, 0xD244FA8C, 0xB24C5C63]"
  by code_simp

lemma vector_round_9:
  "double_round
     [0xF6EB4385, 0x0F5070CF, 0x824AC4D4, 0xFF026184, 0x71DB97DD, 0x60CD994D, 0xAD805036, 0x89D591CE,
      0x9E5243F3, 0x16D0EE25, 0x82E92B96, 0xD0DA8654, 0x6B96A006, 0x477A37F7, 0xD244FA8C, 0xB24C5C63] =
     [0x0A49D0BB, 0xFD73BFEB, 0xC24392D4, 0xE110766D, 0x7C188159, 0x390F8B4D, 0x0A23271F, 0x0E051682,
      0x5B48A341, 0x0861DFF7, 0x5D33CDBB, 0x17D4372D, 0xC5D89A0B, 0x9DF1402C, 0xB08AB5E0, 0x85488580]"
  by code_simp

lemma vector_round_10:
  "double_round
     [0x0A49D0BB, 0xFD73BFEB, 0xC24392D4, 0xE110766D, 0x7C188159, 0x390F8B4D, 0x0A23271F, 0x0E051682,
      0x5B48A341, 0x0861DFF7, 0x5D33CDBB, 0x17D4372D, 0xC5D89A0B, 0x9DF1402C, 0xB08AB5E0, 0x85488580] =
     [0x4C704011, 0x5D1D8D32, 0x6C08300E, 0xBD9D20DF, 0xB819D2BD, 0x1AED8DA0, 0xCCEF36A8, 0xC70D778B,
      0x7C5941DA, 0x8D485751, 0x3FE02477, 0x374AD8B8, 0xF4B8436A, 0x1CA11815, 0x69B687C3, 0x8665EEB2]"
  by code_simp

lemma funpow_10: "(f ^^ 10) x = f (f (f (f (f (f (f (f (f (f x)))))))))"
  by (simp add: eval_nat_numeral)

lemmas vector_rounds = vector_round_1 vector_round_2 vector_round_3 vector_round_4 vector_round_5
  vector_round_6 vector_round_7 vector_round_8 vector_round_9 vector_round_10

lemma chacha20_vector:
  "chacha_prf 20 (replicate 40 0) 0 =
     [0x76, 0xB8, 0xE0, 0xAD, 0xA0, 0xF1, 0x3D, 0x90, 0x40, 0x5D, 0x6A, 0xE5, 0x53, 0x86, 0xBD, 0x28,
      0xBD, 0xD2, 0x19, 0xB8, 0xA0, 0x8D, 0xED, 0x1A, 0xA8, 0x36, 0xEF, 0xCC, 0x8B, 0x77, 0x0D, 0xC7,
      0xDA, 0x41, 0x59, 0x7C, 0x51, 0x57, 0x48, 0x8D, 0x77, 0x24, 0xE0, 0x3F, 0xB8, 0xD8, 0x4A, 0x37,
      0x6A, 0x43, 0xB8, 0xF4, 0x15, 0x18, 0xA1, 0x1C, 0xC3, 0x87, 0xB6, 0x69, 0xB2, 0xEE, 0x65, 0x86]"
proof -
  have inp: "chacha_input (replicate 40 0) 0 =
     [0x61707865, 0x3320646E, 0x79622D32, 0x6B206574, 0, 0, 0, 0,
      0, 0, 0, 0, 0, 0, 0, 0]"
    by code_simp
  have half: "20 div 2 = (10 :: nat)" by simp
  show ?thesis
    unfolding chacha_prf_def inp chacha_words_def half funpow_10 vector_rounds by code_simp
qed

text \<open>The portable code produces it.\<close>

lemma merged_first_block:
  assumes "STATE_LEN \<le> length m" "STATE_BYTES \<le> length bs" "OUTPUT_LEN \<le> length out"
  shows "take 64 (snd (chacha20_merged_generate (chacha_merged_state_setup m bs) out 0)) =
    chacha_prf 20 (take 40 bs) 0"
proof -
  have "snd (chacha20_merged_generate (chacha_merged_state_setup m bs) out 0) =
      mem_write out 0 (chacha_stream 20 (Suc 15) (take 40 bs) 0)"
    using merged_generate_stream [OF _ merged_setup_keyed [OF assms(1,2)] assms(3), of 20 0]
    by (simp add: chacha20_merged_generate_def IDX_STEP_def STATE_BYTES_def)
  also have "\<dots> = chacha_stream 20 (Suc 15) (take 40 bs) 0 @ drop 1024 out"
    using assms(3) by (simp add: mem_write_start OUTPUT_LEN_def IDX_STEP_def)
  finally show ?thesis by (simp only: chacha_stream_Cons append.assoc) simp
qed

lemma merged_chacha20_vector:
  "take 16 (snd (chacha20_merged_generate (chacha_merged_state_setup (replicate 256 0) (replicate 40 0))
      (replicate 1024 0) 0)) =
     [0x76, 0xB8, 0xE0, 0xAD, 0xA0, 0xF1, 0x3D, 0x90, 0x40, 0x5D, 0x6A, 0xE5, 0x53, 0x86, 0xBD, 0x28]"
proof -
  have "take 16 (snd (chacha20_merged_generate (chacha_merged_state_setup (replicate 256 0) (replicate 40 0))
      (replicate 1024 0) 0)) = take 16 (chacha_prf 20 (replicate 40 0) 0)"
    using arg_cong [OF merged_first_block [of "replicate 256 0" "replicate 40 0" "replicate 1024 0"], of "take 16"]
    by (simp add: STATE_LEN_def STATE_BYTES_def OUTPUT_LEN_def IDX_STEP_def)
  then show ?thesis by (simp only: chacha20_vector) simp
qed

end
