(* ===== verification/Prng_Document.thy ===== *)
theory Prng_Document
  imports Prng_Trace Chacha_Vectors
begin

text \<open>
  The PRNG layer as \<^verbatim>\<open>doc/specification.txt\<close> writes it, beside the reference generator of \<open>Prng_Spec\<close>, and
  where the two agree. The document differs from the code, which the reference generator follows, in three ways.

  \<^item> ``Big Request'' computes \<open>N' = N - Len(B) - Len(A)\<close>, which is negative when the bytes that are left over
    after the last whole block are more than a buffer holds; then it describes no request at all.
  \<^item> ``Tiny Request'' leaves a buffer that it empties exactly empty; the code stirs it at once. A big request or
    an ``Add'' that follows gives something else; other requests give the same.
  \<^item> ``Construct'' stirs once; the code stirs once more when there is more than one source.

  Two slips of the document are corrected here, as \<^verbatim>\<open>test/hs/Ottery.hs\<close> does: \<open>B\<close> is as long as the blocks needed
  but the last (the document has \<open>N_BLOCKS\<close> for \<open>BLOCKS_NEEDED\<close>), and the loop of ``Add'' makes \<open>X\<close> the key.
\<close>

section \<open>The document's operations\<close>

text \<open>\<open>kl\<close> is \<open>KEY_LEN\<close>, \<open>ol\<close> is \<open>BLOCK_LEN\<close>, and \<open>ol - kl\<close> is \<open>BUF_LEN\<close>. ``Stir'', ``Remove'' and ``Small
  Request'' are those of the reference generator.\<close>

definition doc_tiny :: "(bytes \<Rightarrow> u32 \<Rightarrow> bytes) \<Rightarrow> nat \<Rightarrow> nat \<Rightarrow> prng \<Rightarrow> bytes \<times> prng" where
  "doc_tiny F kl n s = spec_remove n (if length (snd s) < n then spec_stir F kl (fst s) else s)"

text \<open>\<open>None\<close>: a negative number of bytes is to be removed.\<close>

definition doc_big :: "(bytes \<Rightarrow> u32 \<Rightarrow> bytes) \<Rightarrow> nat \<Rightarrow> nat \<Rightarrow> nat \<Rightarrow> prng \<Rightarrow> (bytes \<times> prng) option" where
  "doc_big F kl ol n s =
     (let a = snd s;
          bytes_needed = n + kl - length a;
          blocks_needed = (bytes_needed + ol - 1) div ol;
          output = spec_blocks F (fst s) blocks_needed;
          b = take ((blocks_needed - 1) * ol) output;
          rest = drop ((blocks_needed - 1) * ol) output
      in if n < length b + length a then None
         else (let (c, s') = spec_remove (n - length b - length a) (take kl rest, drop kl rest)
               in Some (a @ b @ c, if snd s' = [] then spec_stir F kl (fst s') else s')))"

definition doc_get :: "(bytes \<Rightarrow> u32 \<Rightarrow> bytes) \<Rightarrow> nat \<Rightarrow> nat \<Rightarrow> nat \<Rightarrow> prng \<Rightarrow> (bytes \<times> prng) option" where
  "doc_get F kl ol n s =
     (if n < (ol - kl) + length (snd s) then Some (spec_small F kl n s) else doc_big F kl ol n s)"

text \<open>The seed is padded with zeros to a multiple of half a key.\<close>

definition doc_pad :: "nat \<Rightarrow> bytes \<Rightarrow> bytes" where
  "doc_pad kl seed = seed @ replicate ((kl div 2 - length seed mod (kl div 2)) mod (kl div 2)) 0"

definition doc_add :: "(bytes \<Rightarrow> u32 \<Rightarrow> bytes) \<Rightarrow> nat \<Rightarrow> bytes \<Rightarrow> bytes \<Rightarrow> prng" where
  "doc_add F kl seed key = spec_stir F kl (spec_absorb F kl key (doc_pad kl seed))"

definition doc_construct :: "(bytes \<Rightarrow> u32 \<Rightarrow> bytes) \<Rightarrow> nat \<Rightarrow> bytes \<Rightarrow> prng" where
  "doc_construct F kl seed = doc_add F kl (drop kl seed) (take kl seed)"

text \<open>The calls of the library in terms of the document's requests.\<close>

definition doc_draw :: "(bytes \<Rightarrow> u32 \<Rightarrow> bytes) \<Rightarrow> nat \<Rightarrow> nat \<Rightarrow> prng \<Rightarrow> 'a::len word \<times> prng" where
  "doc_draw F kl k s = map_prod le_word id (doc_tiny F kl k s)"

definition doc_range ::
    "(bytes \<Rightarrow> u32 \<Rightarrow> bytes) \<Rightarrow> nat \<Rightarrow> nat \<Rightarrow> 'a::len word \<Rightarrow> prng \<Rightarrow> ('a word \<times> prng) option" where
  "doc_range F kl k upper s =
     map_option (map_prod (\<lambda>x. x div range_divisor upper) id)
       (spec_until (doc_draw F kl k) (\<lambda>x. x div range_divisor upper \<le> upper) s)"

fun doc_call :: "(bytes \<Rightarrow> u32 \<Rightarrow> bytes) \<Rightarrow> nat \<Rightarrow> nat \<Rightarrow> call \<Rightarrow> prng \<Rightarrow> (reply \<times> prng) option" where
  "doc_call F kl ol (RandBytes n) s = map_option (map_prod (\<lambda>out. GotBytes (Some out)) id) (doc_get F kl ol n s)"
| "doc_call F kl ol RandUnsigned s = Some (map_prod (integer 4) id (doc_tiny F kl 4 s))"
| "doc_call F kl ol RandUint32 s = Some (map_prod (integer 4) id (doc_tiny F kl 4 s))"
| "doc_call F kl ol RandUint64 s = Some (map_prod (integer 8) id (doc_tiny F kl 8 s))"
| "doc_call F kl ol (RandRange upper) s =
     map_option (map_prod (\<lambda>v. GotInt (unat v)) id) (doc_range F kl 4 upper s)"
| "doc_call F kl ol (RandRange64 upper) s =
     map_option (map_prod (\<lambda>v. GotInt (unat v)) id) (doc_range F kl 8 upper s)"
| "doc_call F kl ol (AddSeed seed n) s =
     Some (GotCode 0, doc_add F kl (take n (case seed of Some bs \<Rightarrow> bs | None \<Rightarrow> [])) (fst s))"
| "doc_call F kl ol PreventBacktracking s = Some (GotNothing, s)"

fun doc_run ::
    "(bytes \<Rightarrow> u32 \<Rightarrow> bytes) \<Rightarrow> nat \<Rightarrow> nat \<Rightarrow> call list \<Rightarrow> prng \<Rightarrow> (reply list \<times> prng) option" where
  "doc_run F kl ol [] s = Some ([], s)"
| "doc_run F kl ol (c # cs) s =
     (case doc_call F kl ol c s of None \<Rightarrow> None
      | Some (r, s) \<Rightarrow> map_option (map_prod (Cons r) id) (doc_run F kl ol cs s))"

text \<open>
  The calls that give the same on an empty buffer and on the stirred one, and the runs of the document in which no
  other call comes upon an empty buffer.
\<close>

fun indifferent :: "nat \<Rightarrow> call \<Rightarrow> bool" where
  "indifferent bl (RandBytes n) = (n \<le> bl)"
| "indifferent bl (AddSeed _ _) = False"
| "indifferent bl _ = True"

fun settled :: "(bytes \<Rightarrow> u32 \<Rightarrow> bytes) \<Rightarrow> nat \<Rightarrow> nat \<Rightarrow> call list \<Rightarrow> prng \<Rightarrow> bool" where
  "settled F kl ol [] s = True"
| "settled F kl ol (c # cs) s = ((snd s = [] \<longrightarrow> indifferent (ol - kl) c) \<and>
     (case doc_call F kl ol c s of None \<Rightarrow> True | Some (_, s) \<Rightarrow> settled F kl ol cs s))"

section \<open>Requests\<close>

lemma blocks_needed:
  assumes "0 < kl" "kl < ol" "0 < m"
  shows "(m + kl + ol - 1) div ol = (if m mod ol \<le> ol - kl then Suc (m div ol) else Suc (Suc (m div ol)))"
proof -
  have "(a + ol + q * ol) div ol = Suc (a div ol + q)" for a q using assms by (simp add: div_add_self2)
  moreover have "(m mod ol + kl - 1) + ol + (m div ol) * ol = m + kl + ol - 1" using assms by simp
  ultimately have "(m + kl + ol - 1) div ol = Suc ((m mod ol + kl - 1) div ol + m div ol)" by metis
  moreover have "(r + kl - 1) div ol = (if r \<le> ol - kl then 0 else 1)" if "r < ol" for r
  proof (cases "r \<le> ol - kl")
    case True
    then have "r + kl - 1 < ol" using assms by linarith
    with True show ?thesis by simp
  next
    case False
    then have "ol \<le> r + kl - 1" "r + kl - 1 < 2 * ol" using that assms by linarith+
    with False show ?thesis using div_nat_eqI [of ol 1 "r + kl - 1"] by simp
  qed
  moreover have "m mod ol < ol" using assms by simp
  ultimately show ?thesis by simp
qed

text \<open>
  ``Get N Random Bytes'' is that of the reference generator, except where the document asks for a negative number
  of bytes.
\<close>

lemma document_get:
  assumes F: "\<And>k i. length (F k i) = ol" and kl: "0 < kl" "2 * kl \<le> ol"
  shows "doc_get F kl ol n s =
    (if ol - kl + length (snd s) \<le> n \<and> ol - kl < (n - length (snd s)) mod ol then None
     else Some (spec_get F kl ol n s))"
proof (cases "n < (ol - kl) + length (snd s)")
  case True
  then show ?thesis using spec_small_eq_get [OF F, of n s kl] by (simp add: doc_get_def add.commute)
next
  case False
  define m where "m = n - length (snd s)"
  have m: "n = length (snd s) + m" "0 < m" using False kl by (auto simp: m_def)
  have len: "length (spec_blocks F (fst s) q) = q * ol" for q by (rule length_spec_blocks) (rule F)
  have bn: "(n + kl - length (snd s) + ol - 1) div ol = (if m mod ol \<le> ol - kl then Suc (m div ol) else Suc (Suc (m div ol)))"
    using blocks_needed [of kl ol m] kl m by simp
  show ?thesis
  proof (cases "m mod ol \<le> ol - kl")
    case True
    define q blk where "q = m div ol" and "blk = F (fst s) (of_nat q)"
    have blk: "length blk = ol" by (simp add: blk_def F)
    have parts: "take (q * ol) (spec_blocks F (fst s) (Suc q)) = spec_blocks F (fst s) q"
      "drop (q * ol) (spec_blocks F (fst s) (Suc q)) = blk"
      by (simp_all add: spec_blocks_Suc len blk_def)
    have r: "n - q * ol - length (snd s) = m mod ol" "\<not> n < q * ol + length (snd s)"
      using m by (simp_all add: q_def minus_div_mult_eq_mod not_less)
    let ?small = "spec_small F kl (m mod ol) (take kl blk, drop kl blk)"
    have small: "?small = (take (m mod ol) (drop kl blk), if drop (m mod ol) (drop kl blk) = []
        then spec_stir F kl (take kl blk) else (take kl blk, drop (m mod ol) (drop kl blk)))"
      using True blk by (auto simp: spec_small_def spec_remove_def)
    have "spec_get F kl ol n s = (snd s @ spec_blocks F (fst s) q @ fst ?small, snd ?small)"
      using False by (simp add: spec_get_def spec_stir_at_def m_def [symmetric] q_def [symmetric] blk_def [symmetric]
          Let_def case_prod_unfold)
    moreover have "doc_big F kl ol n s = Some (snd s @ spec_blocks F (fst s) q @ fst ?small, snd ?small)"
      unfolding doc_big_def Let_def bn if_P [OF True] q_def [symmetric] diff_Suc_1 parts len r(1) small
      using r(2) by (simp add: spec_remove_def)
    ultimately have "doc_big F kl ol n s = Some (spec_get F kl ol n s)" by simp
    then show ?thesis using False True by (simp add: doc_get_def m_def)
  next
    case big: False
    have "m < Suc (m div ol) * ol" using kl by (simp add: dividend_less_div_times)
    then have "n < (m div ol + 1) * ol + length (snd s)" using m by simp
    then have "doc_big F kl ol n s = None"
      unfolding doc_big_def Let_def bn if_not_P [OF big] by (simp add: len)
    then show ?thesis using False big by (simp add: doc_get_def m_def)
  qed
qed

section \<open>Seed\<close>

lemma mix_padded:
  assumes "length (F key 0) = ol" "kl \<le> ol" "length y + p \<le> kl"
  shows "spec_mix F kl key (y @ replicate p 0) = spec_mix F kl key y"
proof -
  define x where "x = take kl (F key 0)"
  have x: "length y + p \<le> length x" using assms by (simp add: x_def)
  have zero: "map2 (XOR) zs (replicate (length zs) 0) = zs" for zs :: bytes
    by (induction zs) simp_all
  have "map2 (XOR) (take (length y + p) x) (y @ replicate p 0) =
      map2 (XOR) (take (length y) x) y @ take p (drop (length y) x)"
    using zero [of "take p (drop (length y) x)"] x by (simp add: take_add)
  moreover have "take p (drop (length y) x) @ drop (length y + p) x = drop (length y) x"
    using append_take_drop_id [of p "drop (length y) x"] by (simp add: add.commute)
  ultimately show ?thesis by (simp add: spec_mix_def x_def [symmetric] Let_def)
qed

lemma doc_pad_step:
  assumes "kl div 2 \<le> length seed" "0 < kl div 2"
  shows "take (kl div 2) (doc_pad kl seed) = take (kl div 2) seed"
    "drop (kl div 2) (doc_pad kl seed) = doc_pad kl (drop (kl div 2) seed)"
  using assms le_mod_geq [of "kl div 2" "length seed"] by (simp_all add: doc_pad_def)

lemma absorb_padded:
  assumes F: "\<And>k i. length (F k i) = ol" and kl: "kl \<le> ol"
  shows "spec_absorb F kl key (doc_pad kl seed) = spec_absorb F kl key seed"
proof (induction "length seed" arbitrary: key seed rule: less_induct)
  case less
  define h where "h = kl div 2"
  consider "h = 0" | "seed = []" | "0 < h" "h \<le> length seed" | "0 < length seed" "length seed < h"
    by fastforce
  then show ?case
  proof cases
    case 1
    then show ?thesis by (simp add: h_def spec_absorb.simps [of F kl])
  next
    case 2
    then show ?thesis by (simp add: doc_pad_def)
  next
    case 3
    then have "doc_pad kl seed \<noteq> []" "seed \<noteq> []" by (auto simp: doc_pad_def)
    then show ?thesis
      using 3 less [of "drop h seed"] doc_pad_step [of kl seed] F
      by (simp add: spec_absorb.simps [of F kl key] h_def)
  next
    case 4
    define p where "p = h - length seed"
    have pad: "doc_pad kl seed = seed @ replicate p 0" using 4 by (simp add: doc_pad_def p_def h_def)
    have "spec_mix F kl key (seed @ replicate p 0) = spec_mix F kl key seed"
      using 4 kl by (intro mix_padded [where ol = ol]) (simp_all add: p_def h_def F)
    then show ?thesis
      using 4 by (simp add: spec_absorb.simps [of F kl] pad p_def h_def)
  qed
qed

lemma document_add:
  "(\<And>k i. length (F k i) = ol) \<Longrightarrow> kl \<le> ol \<Longrightarrow> doc_add F kl seed key = spec_add F kl seed key"
  by (simp add: doc_add_def spec_add_def absorb_padded)

text \<open>The generator is constructed with one more stir than in the document when there is more than one source.\<close>

lemma document_construct:
  assumes "\<And>k i. length (F k i) = ol" "kl \<le> ol"
  shows "spec_construct F kl seed =
    (if drop kl seed = [] then doc_construct F kl seed else spec_stir F kl (fst (doc_construct F kl seed)))"
  by (auto simp: document_add [OF assms] spec_construct_def doc_construct_def Let_def spec_add_def spec_absorb.simps [of F kl _ "[]"])

section \<open>Runs\<close>

text \<open>The document's state is that of the reference generator, or an empty buffer that the latter has stirred.\<close>

definition trails :: "(bytes \<Rightarrow> u32 \<Rightarrow> bytes) \<Rightarrow> nat \<Rightarrow> prng \<Rightarrow> prng \<Rightarrow> bool" where
  "trails F kl d s = (d = s \<or> snd d = [] \<and> s = spec_stir F kl (fst d))"

lemma trails_refl [simp]: "trails F kl s s"
  by (simp add: trails_def)

definition refill :: "(bytes \<Rightarrow> u32 \<Rightarrow> bytes) \<Rightarrow> nat \<Rightarrow> prng \<Rightarrow> prng" where
  "refill F kl d = (if snd d = [] then spec_stir F kl (fst d) else d)"

lemma document_tiny: "spec_tiny F kl n s = map_prod id (refill F kl) (doc_tiny F kl n s)"
  by (simp add: spec_tiny_def doc_tiny_def refill_def map_prod_def case_prod_unfold Let_def)

lemma trails_tiny:
  assumes F: "\<And>k i. length (F k i) = ol" and n: "0 < n" "n \<le> ol - kl" and "trails F kl d s"
  shows "fst (doc_tiny F kl n d) = fst (spec_tiny F kl n s) \<and>
    trails F kl (snd (doc_tiny F kl n d)) (snd (spec_tiny F kl n s))"
proof -
  have "doc_tiny F kl n d = doc_tiny F kl n s"
    using assms by (auto simp: trails_def doc_tiny_def spec_stir_def spec_stir_at_def)
  then show ?thesis by (simp add: document_tiny refill_def trails_def)
qed

lemma until_trails:
  assumes step: "\<And>d s. R d s \<Longrightarrow> fst (D d) = fst (E s) \<and> R (snd (D d)) (snd (E s))"
    and "spec_until D ok d = Some y" "R d s"
  shows "\<exists>t. spec_until E ok s = Some (fst y, t) \<and> R (snd y) t"
proof -
  have "D0 = D \<longrightarrow> ok0 = ok \<longrightarrow> (\<forall>s. R d s \<longrightarrow> (\<exists>t. spec_until E ok s = Some (fst y, t) \<and> R (snd y) t))"
    if "spec_until D0 ok0 d = Some y" for D0 ok0 d y
  proof (rule spec_until.raw_induct [OF _ that], intro impI allI)
    fix loop D0 ok0 d y s
    assume IH: "\<And>D0 ok0 d y. loop D0 ok0 d = Some y \<Longrightarrow> D0 = D \<longrightarrow> ok0 = ok \<longrightarrow>
        (\<forall>s. R d s \<longrightarrow> (\<exists>t. spec_until E ok s = Some (fst y, t) \<and> R (snd y) t))"
      and body: "(if ok0 (fst (D0 d)) then Some (D0 d) else loop D0 ok0 (snd (D0 d))) = Some y"
      and eqs: "D0 = D" "ok0 = ok" and "R d s"
    note s = step [OF \<open>R d s\<close>]
    show "\<exists>t. spec_until E ok s = Some (fst y, t) \<and> R (snd y) t"
    proof (cases "ok (fst (D d))")
      case True
      then show ?thesis using s body eqs by (subst spec_until.simps) (auto simp: prod_eq_iff)
    next
      case False
      then show ?thesis using IH [of D0 ok0 "snd (D d)" y] s body eqs by (subst spec_until.simps) auto
    qed
  qed
  from this [OF assms(2)] assms(3) show ?thesis by blast
qed

text \<open>A request for no more than a buffer gives the same on an empty buffer and on the stirred one.\<close>

lemma get_from_empty:
  assumes F: "\<And>k i. length (F k i) = ol" and kl: "0 < kl" "kl < ol" and n: "n \<le> ol - kl"
  shows "spec_get F kl ol n (k, []) = spec_get F kl ol n (spec_stir F kl k)"
proof -
  have "n < ol" using kl n by linarith
  then show ?thesis
    using n kl
    by (auto simp: spec_get_def spec_small_def spec_remove_def spec_blocks_def spec_stir_def spec_stir_at_def F Let_def)
qed

lemma trails_get:
  assumes F: "\<And>k i. length (F k i) = ol" and kl: "0 < kl" "2 * kl \<le> ol" and "trails F kl d s"
    and "snd d = [] \<longrightarrow> n \<le> ol - kl" "doc_get F kl ol n d = Some y"
  shows "spec_get F kl ol n s = y"
proof -
  have "y = spec_get F kl ol n d"
    using assms(6) document_get [OF F kl] by (simp split: if_splits)
  moreover have "spec_get F kl ol n d = spec_get F kl ol n s"
    using assms(4,5) get_from_empty [where ol = ol and F = F and k = "fst d", OF F, of kl n] kl
    by (cases d) (auto simp: trails_def)
  ultimately show ?thesis by simp
qed

lemma trails_range:
  fixes upper :: "'a::len word"
  assumes F: "\<And>k i. length (F k i) = ol" and k: "0 < k" "k \<le> ol - kl" and "trails F kl d s"
    and "doc_range F kl k upper d = Some (v, d')"
  shows "\<exists>s'. spec_range F kl k upper s = Some (v, s') \<and> trails F kl d' s'"
proof -
  have step: "fst (doc_draw F kl k d :: 'a word \<times> prng) = fst (spec_draw F kl k s :: 'a word \<times> prng) \<and>
      trails F kl (snd (doc_draw F kl k d :: 'a word \<times> prng)) (snd (spec_draw F kl k s :: 'a word \<times> prng))"
    if "trails F kl d s" for d s
    using trails_tiny [where ol = ol, OF F k that] by (simp add: doc_draw_def spec_draw_def)
  show ?thesis
    using assms(5) until_trails [of "trails F kl", OF step _ assms(4)]
    by (fastforce simp: doc_range_def spec_range_def)
qed

lemma trails_call:
  assumes F: "\<And>k i. length (F k i) = ol" and kl: "8 \<le> kl" "2 * kl \<le> ol" and t: "trails F kl d s"
    and ok: "snd d = [] \<longrightarrow> indifferent (ol - kl) c" and d': "doc_call F kl ol c d = Some (r, d')"
  shows "\<exists>s'. spec_call F kl ol c s = Some (r, s') \<and> trails F kl d' s'"
proof -
  note tiny = trails_tiny [where ol = ol, OF F _ _ t]
  note range = trails_range [where ol = ol, OF F _ _ t]
  show ?thesis
  proof (cases c)
    case (RandBytes n)
    then obtain y where "doc_get F kl ol n d = Some y" "r = GotBytes (Some (fst y))" "d' = snd y"
      using d' by (auto simp: map_prod_def case_prod_unfold)
    then show ?thesis using trails_get [where ol = ol, OF F _ kl(2) t, of n y] RandBytes ok kl
      by (auto simp: map_prod_def case_prod_unfold)
  next
    case (AddSeed seed n)
    then have "d = s" using ok t by (auto simp: trails_def)
    then show ?thesis using AddSeed d' kl by (auto simp: document_add [where ol = ol, OF F])
  next
    case (RandRange upper)
    then show ?thesis using d' kl range [of 4 upper] by fastforce
  next
    case (RandRange64 upper)
    then show ?thesis using d' kl range [of 8 upper] by fastforce
  qed (use d' kl t tiny [of 4] tiny [of 8] in \<open>auto simp: map_prod_def case_prod_unfold\<close>)
qed

text \<open>
  Wherever the document describes what is asked for, and no call other than those comes upon an empty buffer,
  the replies of the reference generator are the document's.
\<close>

lemma document_run:
  assumes F: "\<And>k i. length (F k i) = ol" and kl: "8 \<le> kl" "2 * kl \<le> ol" and "trails F kl d s"
    and "doc_run F kl ol cs d = Some (rs, d')" "settled F kl ol cs d"
  shows "\<exists>s'. spec_run F kl ol cs s = Some (rs, s') \<and> trails F kl d' s'"
  using assms(4-6)
proof (induction cs arbitrary: d s rs)
  case (Cons c cs)
  then obtain r d1 rs1 where d1: "doc_call F kl ol c d = Some (r, d1)" "doc_run F kl ol cs d1 = Some (rs1, d')"
    "rs = r # rs1" by (auto split: option.splits)
  obtain s1 where "spec_call F kl ol c s = Some (r, s1)" "trails F kl d1 s1"
    using trails_call [where ol = ol, OF F kl Cons.prems(1) _ d1(1)] Cons.prems(3) by auto
  then show ?case using Cons.IH [of d1 s1 rs1] Cons.prems(3) d1 by auto
qed simp

section \<open>The difference\<close>

text \<open>
  With the zero key and four bytes left, an integer and then 1024 bytes: the document gives the block under the
  zero key from its first byte on, the reference generator from the byte after the new key on.
\<close>

lemma length_merged_F [simp]: "length (merged_F r k i) = 1024"
  by (simp add: merged_F_def IDX_STEP_def)

lemma merged_F_first: "take 64 (merged_F 20 k 0) = chacha_prf 20 k 0"
proof -
  have "merged_F 20 k 0 = chacha_stream 20 (Suc 15) k 0" by (simp add: merged_F_def IDX_STEP_def)
  then show ?thesis by (simp only: chacha_stream_Cons) simp
qed

lemma tiny_then_big_differs:
  fixes s :: prng and cs :: "call list"
  defines "s \<equiv> (replicate 40 0, [1, 2, 3, 4])" and "cs \<equiv> [RandUint32, RandBytes 1024]"
  shows "\<exists>rs d rs' s'. doc_run (merged_F 20) 40 1024 cs s = Some (rs, d) \<and>
    spec_run (merged_F 20) 40 1024 cs s = Some (rs', s') \<and> rs \<noteq> rs'"
proof -
  define k :: bytes where "k = replicate 40 0"
  define blk where "blk = merged_F 20 k 0"
  have hd: "blk ! 0 = 0x76" "blk ! 40 = 0x77"
    using arg_cong [OF merged_F_first [of k], of "\<lambda>xs. xs ! 0"] arg_cong [OF merged_F_first [of k], of "\<lambda>xs. xs ! 40"]
    by (simp_all add: blk_def k_def chacha20_vector)
  have len: "length blk = 1024" by (simp add: blk_def)
  have doc: "doc_get (merged_F 20) 40 1024 1024 (k, []) = Some (spec_get (merged_F 20) 40 1024 1024 (k, []))"
    by (subst document_get) simp_all
  have "fst (spec_get (merged_F 20) 40 1024 1024 (k, [])) = blk"
    by (simp add: spec_get_def spec_small_def spec_remove_def spec_blocks_def spec_stir_at_def blk_def Let_def)
  moreover have "\<exists>rest. fst (spec_get (merged_F 20) 40 1024 1024 (spec_stir (merged_F 20) 40 k)) = drop 40 blk @ rest"
    by (simp add: spec_get_def spec_stir_def spec_stir_at_def blk_def Let_def case_prod_unfold)
  moreover have "blk \<noteq> drop 40 blk @ rest" for rest
  proof
    assume "blk = drop 40 blk @ rest"
    from arg_cong [OF this, of "\<lambda>xs. xs ! 0"] have "blk ! 0 = blk ! 40" using len by (simp add: nth_append)
    with hd show False by simp
  qed
  ultimately have "fst (spec_get (merged_F 20) 40 1024 1024 (k, [])) \<noteq>
      fst (spec_get (merged_F 20) 40 1024 1024 (spec_stir (merged_F 20) 40 k))" by metis
  then show ?thesis
    by (simp add: s_def cs_def k_def [symmetric] doc doc_tiny_def spec_tiny_def spec_remove_def map_prod_def
        case_prod_unfold Let_def)
qed

section \<open>The PRFs of the library\<close>

lemma library_document:
  assumes "library_prf p F keyed"
  shows "doc_get F 40 (output_len p) n s =
      (if output_len p - 40 + length (snd s) \<le> n \<and> output_len p - 40 < (n - length (snd s)) mod output_len p then None
       else Some (spec_get F 40 (output_len p) n s))"
    and "spec_construct F 40 seed =
      (if drop 40 seed = [] then doc_construct F 40 seed else spec_stir F 40 (fst (doc_construct F 40 seed)))"
    and "doc_run F 40 (output_len p) cs s = Some (rs, d) \<Longrightarrow> settled F 40 (output_len p) cs s \<Longrightarrow>
      \<exists>s'. spec_run F 40 (output_len p) cs s = Some (rs, s') \<and> trails F 40 d s'"
proof -
  have F: "\<And>k i. length (F k i) = output_len p"
    by (rule prf_contract.length_F [OF library_prf_contract [OF assms]])
  have ol: "8 \<le> (40 :: nat)" "2 * 40 \<le> output_len p" "0 < (40 :: nat)" "40 \<le> output_len p"
    using library_prf_sizes(2) [OF assms] by auto
  show "doc_get F 40 (output_len p) n s =
      (if output_len p - 40 + length (snd s) \<le> n \<and> output_len p - 40 < (n - length (snd s)) mod output_len p then None
       else Some (spec_get F 40 (output_len p) n s))"
    by (rule document_get [OF F ol(3,2)])
  show "spec_construct F 40 seed =
      (if drop 40 seed = [] then doc_construct F 40 seed else spec_stir F 40 (fst (doc_construct F 40 seed)))"
    by (rule document_construct [where ol = "output_len p", OF F ol(4)])
  show "\<exists>s'. spec_run F 40 (output_len p) cs s = Some (rs, s') \<and> trails F 40 d s'"
    if "doc_run F 40 (output_len p) cs s = Some (rs, d)" "settled F 40 (output_len p) cs s"
    by (rule document_run [OF F ol(1,2) trails_refl that])
qed

text \<open>So what is shown of the replies of the reference generator holds of the document's.\<close>

lemma document_case:
  assumes "library_prf p F keyed"
    and "case spec_run F 40 (output_len p) cs s of None \<Rightarrow> X | Some (rs, s') \<Rightarrow> P rs s'"
    and "doc_run F 40 (output_len p) cs s = Some (rs, d)" "settled F 40 (output_len p) cs s"
  shows "\<exists>s'. P rs s' \<and> trails F 40 d s'"
proof -
  obtain s' where s': "spec_run F 40 (output_len p) cs s = Some (rs, s')" "trails F 40 d s'"
    using library_document(3) [OF assms(1,3,4)] by blast
  then have "P rs s'" using assms(2) by simp
  with s'(2) show ?thesis by blast
qed

end
