(* ===== verification/Ottery_Corners.thy ===== *)
theory Ottery_Corners
  imports Ottery_Demo Seed_Threads
begin

text \<open>
  Corner cases in which the code does not do what it is meant to, shown on the model: what the
  device test of \<^verbatim>\<open>ottery_entropy_urandom.c\<close> lets pass and which descriptor it closes, PRF sizes
  that pass the checks of \<^verbatim>\<open>ottery_st_initialize\<close> and make the generator run for ever, and the write
  to the structure that the lock does not protect.
\<close>

section \<open>The device test\<close>

text \<open>A block device passes for a character device.\<close>

lemma block_device_passes:
  "ottery_get_entropy_urandom (demo_os\<lparr>os_fstat := (\<lambda>_ w. (Some \<lparr>st_mode = 0x6180, st_ino = 5\<rparr>, w))\<rparr>)
     (Some demo_config) (Some \<lparr>urandom_fd_inode = 0\<rparr>) 40 w =
   (0, Some \<lparr>urandom_fd_inode = 5\<rparr>, replicate 40 165, w)"
proof -
  have "ottery_read_n_bytes_from_file (demo_os\<lparr>os_fstat := f\<rparr>) fd n w = (n, replicate n 165, w)" for f fd n w
    by (simp add: ottery_read_n_bytes_from_file_def read_n_loop.simps)
  then show ?thesis
    by (simp add: ottery_get_entropy_urandom_def demo_config_def ottery_config_init_def blank_config_def
        zero_entropy_config_def S_IFCHR_def)
qed

text \<open>
  When the inode is not the remembered one, the descriptor is closed, even one that the caller
  supplied with \<^verbatim>\<open>ottery_config_set_urandom_fd\<close> and may go on using.
\<close>

lemma caller_descriptor_closed:
  assumes "urandom_fd_is_set c" "0 \<le> urandom_fd c" "\<not> allow_nondev_urandom c"
    and "os_fstat os (urandom_fd c) w = (Some st, w')" "st_mode st AND S_IFCHR \<noteq> 0"
    and "urandom_fd_inode s \<noteq> 0" "st_ino st \<noteq> urandom_fd_inode s"
  shows "ottery_get_entropy_urandom os (Some c) (Some s) n w =
    (OTTERY_ERR_ACCESS_STRONG_RNG, Some s, [], os_close os (urandom_fd c) w')"
  using assms by (auto simp: ottery_get_entropy_urandom_def)

section \<open>Two tests for the same processor\<close>

text \<open>A 64-bit build with Microsoft's compiler detects RDRAND and has no source that uses it.\<close>

lemma rdrand_forgotten:
  "predefined b = [''_MSC_VER'', ''_M_AMD64''] \<Longrightarrow> X86 b \<and> \<not> rdrand_built b"
  by (simp add: X86_def rdrand_built_def)

section \<open>PRFs with unusual sizes\<close>

text \<open>With a key of less than two bytes adding seed never ends.\<close>

lemma add_seed_endless:
  assumes "state_bytes (st_prf st) < 2" "0 < n"
  shows "add_seed_loop st seed n = None"
proof -
  have "state_bytes (st_prf st) < 2 \<longrightarrow> n = 0" if "add_seed_loop st seed n = Some st'" for st seed n st'
  proof (rule add_seed_loop.raw_induct [OF _ that])
    fix loop and st seed n st'
    assume IH: "\<And>st seed n st'. loop st seed n = Some st' \<Longrightarrow> state_bytes (st_prf st) < 2 \<longrightarrow> n = 0"
      and body: "(if n = 0 then Some st else
        let half = state_bytes (st_prf st) div 2; m = if half < n then half else n
        in loop (add_seed_block st seed m) (drop m seed) (n - m)) = Some st'"
    show "state_bytes (st_prf st) < 2 \<longrightarrow> n = 0"
    proof (intro impI, rule ccontr)
      assume small: "state_bytes (st_prf st) < 2" and "n \<noteq> 0"
      then have "loop (add_seed_block st seed 0) seed n = Some st'" using body by (simp add: Let_def)
      from IH [OF this] small \<open>n \<noteq> 0\<close> show False by (simp add: add_seed_block_def Let_def)
    qed
  qed
  with assms show ?thesis by (cases "add_seed_loop st seed n") auto
qed

lemma tiny_key_hangs:
  assumes "state_bytes (st_prf st) < 2" "0 < n" "ready e self st"
  shows "ottery_st_add_seed_nolock e self st (Some seed) n w = Hang"
  using assms add_seed_endless [OF assms(1,2)]
  by (auto simp: ottery_st_add_seed_nolock_def ottery_st_add_seed_impl_def add_seed_locked_def ready_def
      Let_def)

text \<open>With a key as long as the output there are no bytes left to give out.\<close>

lemma no_room_for_output:
  "state_bytes (st_prf st) = output_len (st_prf st) \<Longrightarrow>
     \<not> pos (ottery_st_nextblock_nolock b st) < output_len (st_prf (ottery_st_nextblock_nolock b st))"
  by (simp add: ottery_st_nextblock_nolock_def ottery_st_nextblock_nolock_norekey_def Let_def case_prod_unfold)

section \<open>The cached inode\<close>

text \<open>A thread writes the cached inode while another one holds the lock.\<close>

lemma cache_written_without_lock:
  assumes "phases s i = Gathering r" "er_err r = 0" "state_bytes (st_prf (struct s)) \<le> er_buflen r"
    and "er_state r = Some x" "x \<noteq> entropy_state (struct s)" "mutex (struct s)"
  shows "\<exists>s'. crowd_step e self i s s' \<and> mutex (struct s') \<and> entropy_state (struct s') \<noteq> entropy_state (struct s)"
  using crowd_step.store [OF assms(1-3), of e self] assms(4-6)
  by (auto simp: stored_entropy_state_def)

end
