(* ===== verification/Prng_Erasure.thy ===== *)
theory Prng_Erasure
  imports Prng_Api
begin

text \<open>
  What the PRFs write to memory, and what is left of old secrets. \<open>prf_memory\<close> extends the contract of a
  PRF: it writes no further than the sizes in its table entry, and setting up a new key overwrites
  everything that the old one and its counter had left in the state memory. Starting a new block then makes the whole structure a function of that block. The second part follows the local
  buffers in which the seed is collected, which \<open>Ottery_State\<close> leaves out because nothing reads
  them again.
\<close>

section \<open>The old key\<close>

locale prf_memory = prf_contract +
  assumes setup_again: "\<lbrakk>length m = MAX_STATE_LEN; state_bytes p \<le> length k; state_bytes p \<le> length bs\<rbrakk>
      \<Longrightarrow> setup_fn p (fst (generate_fn p (setup_fn p m k) out i)) bs = setup_fn p m bs"
    and setup_front: "state_bytes p \<le> length bs \<Longrightarrow> length m = MAX_STATE_LEN \<Longrightarrow>
      setup_fn p m (bs @ rest) = setup_fn p m bs"
    and setup_within: "state_bytes p \<le> length bs \<Longrightarrow> length m = MAX_STATE_LEN \<Longrightarrow>
      drop (state_len p) (setup_fn p m bs) = drop (state_len p) m"
    and generate_within: "length m = MAX_STATE_LEN \<Longrightarrow>
      drop (state_len p) (fst (generate_fn p m out i)) = drop (state_len p) m"
begin

lemma writes_within:
  fixes i
  assumes "length m = MAX_STATE_LEN" "state_bytes p \<le> length k" "output_len p \<le> length out"
  defines "g \<equiv> generate_fn p (setup_fn p m k) out i"
  shows "length (fst g) = MAX_STATE_LEN \<and> drop (state_len p) (fst g) = drop (state_len p) m \<and>
    length (snd g) = length out \<and> drop (output_len p) (snd g) = drop (output_len p) out"
  using assms(1,3) generate_out [OF _ setup_keyed [OF assms(1,2)] assms(3)]
  by (simp add: g_def length_generate length_setup generate_within setup_within [OF assms(2,1)] drop_mem_write
      length_F)

lemma nextblock_forgets:
  assumes st: "st_prf st = p" "length m = MAX_STATE_LEN" "length buf = MAX_OUTPUT_LEN"
    and k: "state_bytes p \<le> length k"
  defines "block \<equiv> F (take (state_bytes p) k) (block_counter st)"
  shows "ottery_st_nextblock_nolock b (st\<lparr>state_mem := setup_fn p m k, buffer := buf\<rparr>) =
    st\<lparr>state_mem := setup_fn p m block, buffer := CLEARBUF b (block @ drop (output_len p) buf) 0 (state_bytes p),
      block_counter := 0, pos := state_bytes p\<rparr>"
proof -
  note bnd = output_len_bounds
  obtain m' buf' where g: "generate_fn p (setup_fn p m k) buf (block_counter st) = (m', buf')" by fastforce
  have buf': "buf' = block @ drop (output_len p) buf"
    using generate_out [OF _ setup_keyed [OF st(2) k], of buf "block_counter st"] g st bnd
    by (simp add: block_def length_setup mem_write_start length_F output_len_max)
  have "state_bytes p \<le> length block" using bnd by (simp add: block_def length_F)
  then have "setup_fn p m' buf' = setup_fn p m block"
    using setup_again [OF st(2) k, of buf' buf "block_counter st"] setup_front [OF _ st(2)] g by (simp add: buf')
  then show ?thesis
    using st(1) g
    by (simp add: ottery_st_nextblock_nolock_def ottery_st_nextblock_nolock_norekey_def Let_def buf')
qed

end

text \<open>Neither state layout keeps anything of an old key.\<close>

lemma merged_setup_bytes:
  assumes "STATE_LEN \<le> length m" "STATE_BYTES \<le> length bs"
  shows "chacha_merged_state_setup m bs = words_bytes (chacha_input (take STATE_BYTES bs) 0) @ drop STATE_LEN m"
  using assms by (simp add: merged_setup_eq ctx_to_mem_def mem_write_start STATE_LEN_def)

lemma merged_generate_tail: "STATE_LEN \<le> length m \<Longrightarrow> drop STATE_LEN (fst (merged_generate r m out i)) = drop STATE_LEN m"
  by (simp add: merged_generate_def ctx_to_mem_def ctx_of_mem_def mem_write_start STATE_LEN_def Let_def)

lemma prf_memory_merged:
  assumes "even r"
  shows "prf_memory (PRF_CHACHA_merged s (merged_generate r)) (merged_F r) merged_keyed"
proof (intro prf_memory.intro prf_memory_axioms.intro prf_contract_merged [OF assms])
  fix m k bs rest out :: bytes and i
  let ?p = "PRF_CHACHA_merged s (merged_generate r)"
  have p: "setup_fn ?p = chacha_merged_state_setup" "generate_fn ?p = merged_generate r" "state_bytes ?p = STATE_BYTES" "state_len ?p = STATE_LEN"
    by (simp_all add: PRF_CHACHA_merged_def)
  assume m: "length m = MAX_STATE_LEN"
  then have len: "STATE_LEN \<le> length m" by (simp add: max_defs STATE_LEN_def)
  then show "drop (state_len ?p) (fst (generate_fn ?p m out i)) = drop (state_len ?p) m"
    by (simp add: p merged_generate_tail)
  assume bs: "state_bytes ?p \<le> length bs"
  show "setup_fn ?p m (bs @ rest) = setup_fn ?p m bs"
    using len bs by (simp add: p merged_setup_bytes)
  show "drop (state_len ?p) (setup_fn ?p m bs) = drop (state_len ?p) m"
    using len bs by (simp add: p merged_setup_bytes STATE_LEN_def)
  assume "state_bytes ?p \<le> length k"
  then show "setup_fn ?p (fst (generate_fn ?p (setup_fn ?p m k) out i)) bs = setup_fn ?p m bs"
    using len bs
    by (simp add: p merged_setup_bytes [of "fst _"] merged_generate_tail) (simp add: merged_setup_bytes STATE_LEN_def)
qed

lemma prf_memory_krovetz:
  assumes "even r"
  shows "prf_memory (PRF_CHACHA_krovetz t s (krovetz_generate t r)) (krovetz_F t r) krovetz_keyed"
proof (intro prf_memory.intro prf_memory_axioms.intro prf_contract_krovetz [OF assms])
  fix m k bs rest out :: bytes and i
  let ?p = "PRF_CHACHA_krovetz t s (krovetz_generate t r)"
  have p: "setup_fn ?p = chacha_krovetz_state_setup" "generate_fn ?p = krovetz_generate t r"
    "state_bytes ?p = KROVETZ_STATE_BYTES" "state_len ?p = KROVETZ_STATE_LEN"
    by (simp_all add: PRF_CHACHA_krovetz_def)
  assume m: "length m = MAX_STATE_LEN"
  then have len: "KROVETZ_STATE_LEN \<le> length m" by (simp add: max_defs KROVETZ_STATE_LEN_def)
  then show "drop (state_len ?p) (fst (generate_fn ?p m out i)) = drop (state_len ?p) m"
    by (simp add: p krovetz_generate_def)
  assume bs: "state_bytes ?p \<le> length bs"
  show "setup_fn ?p m (bs @ rest) = setup_fn ?p m bs"
    using len bs by (simp add: p krovetz_setup_eq)
  show "drop (state_len ?p) (setup_fn ?p m bs) = drop (state_len ?p) m"
    using len bs by (simp add: p krovetz_setup_eq KROVETZ_STATE_LEN_def KROVETZ_STATE_BYTES_def)
  assume "state_bytes ?p \<le> length k"
  then show "setup_fn ?p (fst (generate_fn ?p (setup_fn ?p m k) out i)) bs = setup_fn ?p m bs"
    using len bs by (simp add: p krovetz_generate_def krovetz_setup_eq)
qed

interpretation memory_merged8: prf_memory ottery_prf_chacha8_merged "merged_F 8" merged_keyed
  using prf_memory_merged [of 8] by (simp add: prf_table_defs chacha8_merged_generate_def [abs_def])

interpretation memory_merged12: prf_memory ottery_prf_chacha12_merged "merged_F 12" merged_keyed
  using prf_memory_merged [of 12] by (simp add: prf_table_defs chacha12_merged_generate_def [abs_def])

interpretation memory_merged20: prf_memory ottery_prf_chacha20_merged "merged_F 20" merged_keyed
  using prf_memory_merged [of 20] by (simp add: prf_table_defs chacha20_merged_generate_def [abs_def])

interpretation memory_krovetz8: prf_memory "ottery_prf_chacha8_krovetz t" "krovetz_F t 8" krovetz_keyed
  for t
  using prf_memory_krovetz [of 8] by (simp add: prf_table_defs chacha8_krovetz_generate_def [abs_def])

interpretation memory_krovetz12: prf_memory "ottery_prf_chacha12_krovetz t" "krovetz_F t 12" krovetz_keyed
  for t
  using prf_memory_krovetz [of 12] by (simp add: prf_table_defs chacha12_krovetz_generate_def [abs_def])

interpretation memory_krovetz20: prf_memory "ottery_prf_chacha20_krovetz t" "krovetz_F t 20" krovetz_keyed
  for t
  using prf_memory_krovetz [of 20] by (simp add: prf_table_defs chacha20_krovetz_generate_def [abs_def])

lemma library_prf_memory: "library_prf p F keyed \<Longrightarrow> prf_memory p F keyed"
  by (induction rule: library_prf.induct)
     (fact memory_merged8.prf_memory_axioms memory_merged12.prf_memory_axioms
       memory_merged20.prf_memory_axioms memory_krovetz8.prf_memory_axioms
       memory_krovetz12.prf_memory_axioms memory_krovetz20.prf_memory_axioms)+

section \<open>Seed in local buffers\<close>

text \<open>
  \<^verbatim>\<open>ottery_st_reseed\<close> and \<^verbatim>\<open>ottery_st_add_seed_impl\<close> collect the output of the entropy sources in a buffer
  on the stack. These are the same functions with the content that the buffer has when they return (none
  if it could not be allocated); without it they are the functions of \<open>Ottery_State\<close>.
\<close>

definition reseed_with_buf ::
    "'w env \<Rightarrow> u64 \<Rightarrow> ottery_state \<Rightarrow> 'w \<Rightarrow> (bytes option \<times> u32 \<times> ottery_state \<times> 'w) outcome" where
  "reseed_with_buf e self st w =
     (let b = e_build e;
          sb = state_bytes (st_prf st);
          buflen = ottery_get_entropy_bufsize b (e_os e) (e_disabled e) sb
      in if \<not> os_alloca_ok (e_os e) buflen w then Ret (None, OTTERY_ERR_INIT_STRONG_RNG, st, w)
         else
          (let r = st_get_entropy e st buflen w;
               buf = er_bytes r;
               st = stored_entropy_state st (er_state r);
               w = er_world r
           in if er_err r \<noteq> 0 then Ret (Some buf, er_err r, st, w)
              else if er_buflen r < sb then Ret (Some buf, OTTERY_ERR_ACCESS_STRONG_RNG, st, w)
              else
               (let st = st\<lparr>state_mem := setup_fn (st_prf st) (state_mem st) buf\<rparr>
                in obind (if er_buflen r > sb
                          then ottery_st_add_seed_impl e self st (Some (drop sb buf)) (er_buflen r - sb) False False w
                          else Ret (0, st, w)) (\<lambda>(_, st, w).
                   let buf = mem_clear buf 0 (er_buflen r);
                       st = st\<lparr>last_entropy_flags := er_flags r, entropy_src_flags := er_flags r,
                              block_counter := 0\<rparr>
                   in Ret (Some buf, 0, ottery_st_nextblock_nolock b st, w)))))"

definition add_seed_with_tmp ::
    "'w env \<Rightarrow> u64 \<Rightarrow> ottery_state \<Rightarrow> bool \<Rightarrow> 'w \<Rightarrow> (bytes option \<times> u32 \<times> ottery_state \<times> 'w) outcome" where
  "add_seed_with_tmp e self st locking w =
     (let b = e_build e;
          tmp_seed_len = ottery_get_entropy_bufsize b (e_os e) (e_disabled e) (state_bytes (st_prf st))
      in if \<not> os_alloca_ok (e_os e) tmp_seed_len w then Ret (None, OTTERY_ERR_INIT_STRONG_RNG, st, w)
         else
          (let r = st_get_entropy e st tmp_seed_len w;
               tmp_seed = er_bytes r;
               st = stored_entropy_state st (er_state r)
           in if er_err r \<noteq> 0 then Ret (Some tmp_seed, er_err r, st, er_world r)
              else if er_buflen r < state_bytes (st_prf st)
              then Ret (Some tmp_seed, OTTERY_ERR_ACCESS_STRONG_RNG, st, er_world r)
              else obind (add_seed_locked b st tmp_seed (er_buflen r) (er_flags r) locking (er_world r))
                (\<lambda>(err, st, w). Ret (Some (mem_clear tmp_seed 0 tmp_seed_len), err, st, w))))"

lemma reseed_without_buf:
  "ottery_st_reseed e self st w = obind (reseed_with_buf e self st w) (\<lambda>(_, r). Ret r)"
  by (auto simp: ottery_st_reseed_def reseed_with_buf_def obind_assoc Let_def split: prod.split intro!: obind_cong)

lemma add_seed_without_tmp:
  assumes "ready e self st" "seed = None \<or> n = 0"
  shows "ottery_st_add_seed_impl e self st seed n locking True w =
    obind (add_seed_with_tmp e self st locking w) (\<lambda>(_, r). Ret r)"
  using assms
  by (auto simp: ottery_st_add_seed_impl_def add_seed_with_tmp_def ready_def obind_assoc case_prod_unfold Let_def)

lemma length_seed_buffer:
  assumes "os_contract (e_os e)" "er_err (st_get_entropy e st n w) = 0"
  shows "length (er_bytes (st_get_entropy e st n w)) = n"
  using get_entropy_gathered [OF assms(1) refl] assms(2) unfolding st_get_entropy_def by metis

text \<open>On success the bytes that became seed have been overwritten.\<close>

lemma take_mem_clear: "n \<le> length m \<Longrightarrow> take n (mem_clear m 0 n) = replicate n 0"
  by (simp add: mem_clear_def mem_write_start)

lemma reseed_wiped:
  assumes "os_contract (e_os e)" "ottery_st_reseed e self st w = Ret (0, st', w')"
  defines "n \<equiv> length (entropy_seed (seed_request e st w))"
  shows "\<exists>buf. reseed_with_buf e self st w = Ret (Some buf, 0, st', w') \<and> take n buf = replicate n 0"
proof -
  define r where "r = seed_request e st w"
  obtain x where x: "reseed_with_buf e self st w = Ret (x, 0, st', w')"
    using assms(2) by (auto simp: reseed_without_buf outcome_simps)
  then have ok: "er_err r = 0" "x = Some (mem_clear (er_bytes r) 0 (er_buflen r))"
    by (auto simp: reseed_with_buf_def r_def seed_request_def outcome_simps Let_def err_defs split: if_splits)
  have "n = er_buflen r" using seed_request_length(2) [OF assms(1)] ok(1) by (simp add: n_def r_def)
  moreover have "er_buflen r \<le> length (er_bytes r)"
    using seed_request_gathered [OF assms(1)] ok(1) unfolding r_def by metis
  ultimately show ?thesis using x ok(2) by (simp add: take_mem_clear)
qed

lemma add_seed_wiped:
  assumes "os_contract (e_os e)" "ready e self st"
    and "ottery_st_add_seed_impl e self st None l locking True w = Ret (0, st', w')"
  defines "n \<equiv> length (entropy_seed (seed_request e st w))"
  shows "\<exists>tmp. add_seed_with_tmp e self st locking w = Ret (Some tmp, 0, st', w') \<and>
    n \<le> length tmp \<and> tmp = replicate (length tmp) 0"
proof -
  define r where "r = seed_request e st w"
  obtain x where x: "add_seed_with_tmp e self st locking w = Ret (x, 0, st', w')"
    using assms(3) by (auto simp: add_seed_without_tmp [OF assms(2)] outcome_simps)
  then have ok: "er_err r = 0" "x = Some (mem_clear (er_bytes r) 0 (ottery_get_entropy_bufsize (e_build e) (e_os e)
      (e_disabled e) (state_bytes (st_prf st))))"
    by (auto simp: add_seed_with_tmp_def r_def seed_request_def outcome_simps Let_def err_defs split: if_splits)
  have len: "length (er_bytes r) = ottery_get_entropy_bufsize (e_build e) (e_os e) (e_disabled e) (state_bytes (st_prf st))"
    using length_seed_buffer [OF assms(1)] ok(1) by (simp add: r_def seed_request_def)
  have "n \<le> length (er_bytes r)" by (simp add: n_def r_def entropy_seed_def)
  then show ?thesis
    using x ok(2) take_mem_clear [of "length (er_bytes r)" "er_bytes r"] len by (simp add: mem_clear_def)
qed

end
