(* ===== verification/Ottery_Keystream.thy ===== *)
theory Ottery_Keystream
  imports Ottery_Prf
begin

text \<open>
  The output of a PRF over several blocks, as \<^verbatim>\<open>ottery_st_rand_bytes_impl\<close> takes it: one call of
  \<^verbatim>\<open>generate\<close> after the other on the same state memory, with the block counter counting up. For the
  ChaCha PRFs this is one ChaCha stream, however many blocks a call produces; so the portable and the
  vectorised code give the same bytes for the same key.
\<close>

fun keystream_from :: "ottery_prf \<Rightarrow> bytes \<Rightarrow> u32 \<Rightarrow> nat \<Rightarrow> bytes" where
  "keystream_from p mem i 0 = []"
| "keystream_from p mem i (Suc n) =
     (case generate_fn p mem (replicate MAX_OUTPUT_LEN 0) i of (mem, out) \<Rightarrow>
        take (output_len p) out @ keystream_from p mem (i + 1) n)"

definition keystream :: "ottery_prf \<Rightarrow> bytes \<Rightarrow> nat \<Rightarrow> bytes" where
  "keystream p key n = keystream_from p (setup_fn p (replicate MAX_STATE_LEN 0) key) 0 n"

context prf_contract
begin

lemma keystream_from_F:
  assumes "length m = MAX_STATE_LEN" "keyed m k"
  shows "keystream_from p m i n = concat (map (\<lambda>j. F k (i + of_nat j)) [0..<n])"
  using assms
proof (induction n arbitrary: m i)
  case (Suc n)
  obtain m' out where g: "generate_fn p m (replicate MAX_OUTPUT_LEN 0) i = (m', out)" by fastforce
  have len: "output_len p \<le> length (replicate MAX_OUTPUT_LEN (0 :: 8 word))" using output_len_max by simp
  have out: "out = mem_write (replicate MAX_OUTPUT_LEN 0) 0 (F k i)"
    and m': "length m' = MAX_STATE_LEN" "keyed m' k"
    using generate_out [OF Suc.prems len, of i] generate_keyed [OF Suc.prems len, of i]
      length_generate [of m "replicate MAX_OUTPUT_LEN 0" i] Suc.prems(1) g by simp_all
  have "take (output_len p) out = F k i"
    using length_F [of k i] output_len_max by (simp add: out mem_write_start)
  moreover have "map (\<lambda>j. F k (i + of_nat j)) [0..<Suc n] =
      F k i # map (\<lambda>j. F k (i + 1 + of_nat j)) [0..<n]"
    by (simp add: upt_conv_Cons map_Suc_upt [symmetric] add.assoc del: upt_Suc)
  ultimately show ?case using Suc.IH [OF m', of "i + 1"] g by simp
qed simp

lemma keystream_F:
  assumes "state_bytes p \<le> length key"
  shows "keystream p key n = concat (map (\<lambda>j. F (take (state_bytes p) key) (of_nat j)) [0..<n])"
  using keystream_from_F [OF _ setup_keyed, of "replicate MAX_STATE_LEN 0" key 0 n] assms length_setup
  by (simp add: keystream_def)

end

lemma chacha_blocks_concat:
  "concat (map (\<lambda>j. chacha_stream r s key (of_nat j * of_nat s)) [0..<n]) = chacha_stream r (n * s) key 0"
proof (induction n)
  case (Suc n)
  then show ?case using chacha_stream_add [of r "n * s" s key 0] by (simp add: add.commute)
qed simp

lemma keystream_merged:
  assumes "40 \<le> length key"
  shows "keystream ottery_prf_chacha8_merged key n = chacha_stream 8 (n * 16) (take 40 key) 0"
    "keystream ottery_prf_chacha12_merged key n = chacha_stream 12 (n * 16) (take 40 key) 0"
    "keystream ottery_prf_chacha20_merged key n = chacha_stream 20 (n * 16) (take 40 key) 0"
  using assms chacha_blocks_concat [of _ 16 "take 40 key" n]
    merged8.keystream_F [of key n] merged12.keystream_F [of key n] merged20.keystream_F [of key n]
  by (simp_all add: merged_F_def IDX_STEP_def prf_table_defs PRF_CHACHA_merged_def STATE_BYTES_def)

lemma keystream_krovetz:
  assumes "40 \<le> length key"
  shows "keystream (ottery_prf_chacha8_krovetz t) key n =
      chacha_stream 8 (n * KROVETZ_IDX_STEP t) (take 40 key) 0"
    "keystream (ottery_prf_chacha12_krovetz t) key n =
      chacha_stream 12 (n * KROVETZ_IDX_STEP t) (take 40 key) 0"
    "keystream (ottery_prf_chacha20_krovetz t) key n =
      chacha_stream 20 (n * KROVETZ_IDX_STEP t) (take 40 key) 0"
  using assms chacha_blocks_concat [of _ "KROVETZ_IDX_STEP t" "take 40 key" n]
    krovetz8.keystream_F [of t key n] krovetz12.keystream_F [of t key n] krovetz20.keystream_F [of t key n]
  by (simp_all add: krovetz_F_def prf_table_defs PRF_CHACHA_krovetz_def KROVETZ_STATE_BYTES_def)

text \<open>
  C23: The portable and the vectorised PRFs are interchangeable: with the same key and the same number
  of rounds, the same number of bytes of output are the same bytes, on every instruction set.
\<close>

theorem simd_and_portable_agree:
  assumes "40 \<le> length key" "m * KROVETZ_IDX_STEP t = n * 16"
  shows "keystream (ottery_prf_chacha8_krovetz t) key m = keystream ottery_prf_chacha8_merged key n \<and>
    keystream (ottery_prf_chacha12_krovetz t) key m = keystream ottery_prf_chacha12_merged key n \<and>
    keystream (ottery_prf_chacha20_krovetz t) key m = keystream ottery_prf_chacha20_merged key n"
  using keystream_krovetz [OF assms(1), of t m] keystream_merged [OF assms(1), of n] assms(2) by simp

theorem simd_and_portable_agree_witness:
  "keystream (ottery_prf_chacha20_krovetz \<lparr>arch = Neon, clang = False\<rparr>) (replicate 40 1) 4 =
    keystream ottery_prf_chacha20_merged (replicate 40 1) 3"
  using simd_and_portable_agree [of "replicate 40 1" 4 "\<lparr>arch = Neon, clang = False\<rparr>" 3]
  by (simp add: KROVETZ_IDX_STEP_def BPI_def VBPI_def GPR_TOO_def LOOP_ITERATIONS_def)

text \<open>
  C34: The block counter passed to \<^verbatim>\<open>generate\<close> has 32 bits and is multiplied by the blocks per call in 32
  bits: the output of a key repeats after $2^{28}$ calls of the portable PRF, 256 GiB of output, and
  after $2^{28}$ or $2^{30}$ calls of a vectorised one. A single longer request gets the same bytes again.
\<close>

theorem keystream_period:
  assumes "length mem = MAX_STATE_LEN" "length out = MAX_OUTPUT_LEN" "40 \<le> length key"
  shows "snd (chacha20_merged_generate (chacha_merged_state_setup mem key) out (idx + 2 ^ 28)) =
      snd (chacha20_merged_generate (chacha_merged_state_setup mem key) out idx) \<and>
    snd (chacha20_krovetz_generate t (chacha_krovetz_state_setup mem key) out (idx + 2 ^ 30)) =
      snd (chacha20_krovetz_generate t (chacha_krovetz_state_setup mem key) out idx)"
proof -
  note d = prf_table_defs PRF_CHACHA_merged_def PRF_CHACHA_krovetz_def STATE_BYTES_def KROVETZ_STATE_BYTES_def
    OUTPUT_LEN_def KROVETZ_OUTPUT_LEN_def IDX_STEP_def max_defs
  have w: "(4294967296 :: u32) = 0" "(12884901888 :: u32) = 0" "(17179869184 :: u32) = 0"
    by simp_all
  have F: "merged_F 20 (take 40 key) (idx + 2 ^ 28) = merged_F 20 (take 40 key) idx"
    "krovetz_F t 20 (take 40 key) (idx + 2 ^ 30) = krovetz_F t 20 (take 40 key) idx"
    using krovetz_sizes [of t] by (auto simp: merged_F_def krovetz_F_def IDX_STEP_def w)
  have "snd (chacha20_merged_generate (chacha_merged_state_setup mem key) out i) =
      mem_write out 0 (merged_F 20 (take 40 key) i)" for i
    using merged20.generate_out [of _ _ out i, OF _ merged20.setup_keyed [OF assms(1)]] assms
      merged20.length_setup [of mem key] by (simp add: d)
  moreover have "snd (chacha20_krovetz_generate t (chacha_krovetz_state_setup mem key) out i) =
      mem_write out 0 (krovetz_F t 20 (take 40 key) i)" for i
    using krovetz20.generate_out [where out = out and i = i and t = t, OF _ krovetz20.setup_keyed [OF assms(1), of t]] assms
      krovetz20.length_setup [of t mem key] krovetz_sizes [of t] by (auto simp: d)
  ultimately show ?thesis by (simp only: F simp_thms)
qed

theorem keystream_period_witness:
  "snd (chacha20_merged_generate (chacha_merged_state_setup (replicate 256 0) (replicate 40 5))
      (replicate 1024 0) (3 + 2 ^ 28)) =
    snd (chacha20_merged_generate (chacha_merged_state_setup (replicate 256 0) (replicate 40 5))
      (replicate 1024 0) 3)"
  using keystream_period [of "replicate 256 0" "replicate 1024 0" "replicate 40 5" 3] by (simp add: max_defs)

end
