(* ===== verification/Chacha_Endian.thy ===== *)
theory Chacha_Endian
  imports Chacha_Merged
begin

text \<open>
  The byte-order machinery of \<^verbatim>\<open>src/chacha_merged_ecrypt.h\<close>: the tests that guess the byte order of
  the machine from predefined macros, \<^verbatim>\<open>SWAP32\<close>, and the three versions of the load and store macros.
  The tests stand at the end of the header, behind the definitions that depend on them, so a build
  that does not define \<^verbatim>\<open>ECRYPT_LITTLE_ENDIAN\<close> or \<^verbatim>\<open>ECRYPT_BIG_ENDIAN\<close> itself gets the byte-wise
  versions that \<open>Chacha_Merged\<close> uses. Here the other versions are shown to compute the same.
\<close>

section \<open>Words in the byte order of a machine\<close>

datatype byte_order = LittleEndian | BigEndian

definition native_bytes :: "byte_order \<Rightarrow> u32 \<Rightarrow> bytes" where
  "native_bytes ord v = (case ord of LittleEndian \<Rightarrow> le32 v | BigEndian \<Rightarrow> rev (le32 v))"

definition native_load :: "byte_order \<Rightarrow> bytes \<Rightarrow> nat \<Rightarrow> u32" where
  "native_load ord p i =
     (case ord of LittleEndian \<Rightarrow> load32 p i | BigEndian \<Rightarrow> load32 (rev (mem_read p i 4)) 0)"

definition native_store :: "byte_order \<Rightarrow> bytes \<Rightarrow> nat \<Rightarrow> u32 \<Rightarrow> bytes" where
  "native_store ord p i v = mem_write p i (native_bytes ord v)"

section \<open>The macros\<close>

datatype ecrypt_endian = ECRYPT_LITTLE_ENDIAN | ECRYPT_BIG_ENDIAN | ECRYPT_UNKNOWN

text \<open>The chain of tests on the macros that compilers predefine.\<close>

definition ecrypt_guess :: "string list \<Rightarrow> ecrypt_endian" where
  "ecrypt_guess predefined =
     (if \<exists>m \<in> set [''__ultrix'', ''__alpha'', ''i386'', ''__i386'', ''__x86_64'', ''_M_IX86'', ''_MSC_VER'',
          ''__INTEL_COMPILER'']. m \<in> set predefined then ECRYPT_LITTLE_ENDIAN
      else if \<exists>m \<in> set [''__sparc'', ''__powerpc__'', ''__ppc__'', ''__hppa'']. m \<in> set predefined
      then ECRYPT_BIG_ENDIAN
      else ECRYPT_UNKNOWN)"

definition SWAP32 :: "u32 \<Rightarrow> u32" where
  "SWAP32 v = (ROTL32 v 8 AND 0x00FF00FF) OR (ROTL32 v 24 AND 0xFF00FF00)"

definition U32TO32_LITTLE :: "ecrypt_endian \<Rightarrow> (u32 \<Rightarrow> u32) option" where
  "U32TO32_LITTLE cfg =
     (case cfg of ECRYPT_LITTLE_ENDIAN \<Rightarrow> Some (\<lambda>v. v) | ECRYPT_BIG_ENDIAN \<Rightarrow> Some SWAP32 | ECRYPT_UNKNOWN \<Rightarrow> None)"

definition U8TO32_LITTLE_variant :: "ecrypt_endian \<Rightarrow> byte_order \<Rightarrow> bytes \<Rightarrow> nat \<Rightarrow> u32" where
  "U8TO32_LITTLE_variant cfg ord p i =
     (case U32TO32_LITTLE cfg of Some f \<Rightarrow> f (native_load ord p i) | None \<Rightarrow> U8TO32_LITTLE p i)"

definition U32TO8_LITTLE_variant :: "ecrypt_endian \<Rightarrow> byte_order \<Rightarrow> bytes \<Rightarrow> nat \<Rightarrow> u32 \<Rightarrow> bytes" where
  "U32TO8_LITTLE_variant cfg ord p i v =
     (case U32TO32_LITTLE cfg of Some f \<Rightarrow> native_store ord p i (f v) | None \<Rightarrow> U32TO8_LITTLE p i v)"

text \<open>The configuration is right for the machine.\<close>

definition suits :: "ecrypt_endian \<Rightarrow> byte_order \<Rightarrow> bool" where
  "suits cfg ord = (cfg = ECRYPT_UNKNOWN \<or> cfg = ECRYPT_LITTLE_ENDIAN \<and> ord = LittleEndian \<or>
     cfg = ECRYPT_BIG_ENDIAN \<and> ord = BigEndian)"

section \<open>Swapping bytes\<close>

lemma less_32_cases:
  assumes "(n :: nat) < 32"
  obtains "n < 8" | "8 \<le> n" "n < 16" | "16 \<le> n" "n < 24" | "24 \<le> n" "n < 32"
  using assms by linarith

lemma bit_masks:
  assumes "n < 32"
  shows "bit (0x00FF00FF :: u32) n \<longleftrightarrow> n < 8 \<or> 16 \<le> n \<and> n < 24"
    "bit (0xFF00FF00 :: u32) n \<longleftrightarrow> \<not> (n < 8 \<or> 16 \<le> n \<and> n < 24)"
proof -
  have "n \<in> set [0..<32]" using assms by simp
  then show "bit (0x00FF00FF :: u32) n \<longleftrightarrow> n < 8 \<or> 16 \<le> n \<and> n < 24"
    "bit (0xFF00FF00 :: u32) n \<longleftrightarrow> \<not> (n < 8 \<or> 16 \<le> n \<and> n < 24)"
    by (auto simp: upt_rec numeral_eq_Suc)
qed

lemma not_bit_beyond: "32 \<le> k \<Longrightarrow> \<not> bit (v :: u32) k"
  by (auto dest: bit_imp_le_length)

lemma bit_SWAP32:
  assumes "n < 32"
  shows "bit (SWAP32 v) n = bit v (if n < 8 then n + 24 else if n < 16 then n + 8
    else if n < 24 then n - 8 else n - 24)"
  using assms bit_masks [OF assms]
  by (cases rule: less_32_cases)
     (simp_all add: SWAP32_def ROTL32_def U32V_def bit_simps not_bit_beyond add.commute)

lemma le32_SWAP32: "le32 (SWAP32 v) = rev (le32 v)"
proof -
  have "ucast (drop_bit k (SWAP32 v)) = (ucast (drop_bit (24 - k) v) :: u8)" if "k \<in> {0, 8, 16, 24}" for k
  proof (rule bit_word_eqI)
    fix n assume "n < LENGTH(8)"
    then show "bit (ucast (drop_bit k (SWAP32 v)) :: u8) n = bit (ucast (drop_bit (24 - k) v) :: u8) n"
      using that bit_SWAP32 [of "k + n" v] by (auto simp: bit_simps add.commute)
  qed
  from this [of 0] this [of 8] this [of 16] this [of 24] show ?thesis by (simp add: le32_def)
qed

lemma le32_inject: "le32 v = le32 w \<longleftrightarrow> v = w"
  using load32_le32 by metis

section \<open>The versions agree\<close>

lemma load_variant:
  assumes "suits cfg ord" "i + 4 \<le> length p"
  shows "U8TO32_LITTLE_variant cfg ord p i = load32 p i"
proof -
  have "SWAP32 (load32 (rev (mem_read p i 4)) 0) = load32 p i"
    using assms(2) le32_inject [of "SWAP32 (load32 (rev (mem_read p i 4)) 0)" "load32 p i"]
    by (simp add: le32_SWAP32 le32_load32 mem_read_def)
  with assms(1) show ?thesis
    by (auto simp: suits_def U8TO32_LITTLE_variant_def U32TO32_LITTLE_def native_load_def U8TO32_LITTLE_load32)
qed

lemma store_variant:
  assumes "suits cfg ord" "i + 4 \<le> length p"
  shows "U32TO8_LITTLE_variant cfg ord p i v = mem_write p i (le32 v)"
  using assms U32TO8_LITTLE_mem_write [OF assms(2)]
  by (auto simp: suits_def U32TO8_LITTLE_variant_def U32TO32_LITTLE_def native_store_def native_bytes_def
      le32_SWAP32)

text \<open>
  C35: On a machine of either byte order, the load and store macros selected for that byte order (a plain
  access, or a plain access and \<^verbatim>\<open>SWAP32\<close>) do what the byte-wise macros do: the bytes of a ChaCha block
  do not depend on the machine or on which version is compiled.
\<close>

theorem byte_order_variants_agree:
  assumes "suits cfg ord" "i + 4 \<le> length p"
  shows "U8TO32_LITTLE_variant cfg ord p i = U8TO32_LITTLE p i \<and>
    U32TO8_LITTLE_variant cfg ord p i v = U32TO8_LITTLE p i v"
  using load_variant [OF assms] store_variant [OF assms] U32TO8_LITTLE_mem_write [OF assms(2)]
  by (simp add: U8TO32_LITTLE_load32)

theorem byte_order_variants_agree_witness:
  "U8TO32_LITTLE_variant (ecrypt_guess [''__powerpc__'']) BigEndian [1, 2, 3, 4] 0 = U8TO32_LITTLE [1, 2, 3, 4] 0 \<and>
    U32TO8_LITTLE_variant (ecrypt_guess [''__x86_64'']) LittleEndian [0, 0, 0, 0] 0 0x04030201 = [1, 2, 3, 4]"
  using byte_order_variants_agree [where cfg = "ecrypt_guess [''__powerpc__'']" and ord = BigEndian and i = 0 and p = "[1, 2, 3, 4]"]
    byte_order_variants_agree [where cfg = "ecrypt_guess [''__x86_64'']" and ord = LittleEndian and i = 0 and p = "[0, 0, 0, 0]"
        and v = "0x04030201"]
  by (simp add: suits_def ecrypt_guess_def U32TO8_LITTLE_def U8V_def)

text \<open>
  C36: What the store macro of one machine writes, the load macro of any machine reads back, whichever
  versions the two were compiled with.
\<close>

theorem byte_order_roundtrip:
  assumes "suits cfg ord" "suits cfg' ord'" "i + 4 \<le> length p"
  shows "U8TO32_LITTLE_variant cfg' ord' (U32TO8_LITTLE_variant cfg ord p i v) i = v"
proof -
  have "load32 (mem_write p i (le32 v)) i = v"
    using assms(3) le32_inject [of "load32 (mem_write p i (le32 v)) i" v] mem_read_write [of i "le32 v" p]
    by (simp add: le32_load32)
  then show ?thesis using assms by (simp add: load_variant store_variant)
qed

theorem byte_order_roundtrip_witness:
  "U8TO32_LITTLE_variant ECRYPT_LITTLE_ENDIAN LittleEndian
     (U32TO8_LITTLE_variant ECRYPT_BIG_ENDIAN BigEndian [0, 0, 0, 0, 0, 0] 1 0xCAFE1234) 1 = 0xCAFE1234"
  by (rule byte_order_roundtrip) (simp_all add: suits_def)

end
