(* ===== verification/Spec2Isabelle.thy ===== *)
theory Spec2Isabelle
  imports Demo_Threads Prng_Life Prng_Document Ottery_Corners Prng_Erasure Ottery_Keystream Chacha_Endian Chacha_Vectors
begin

text \<open>
  libottery is a userspace random number generator in C. A \<^emph>\<open>pseudorandom function\<close> (ChaCha with 8, 12
  or 20 rounds, in a portable and a vectorised implementation) is keyed with bytes from the
  \<^emph>\<open>entropy sources\<close> of the system; the \<^emph>\<open>generator\<close> turns its output blocks into random bytes and
  integers, takes a new key out of every block it starts to use, and reseeds after a fork; a
  \<^emph>\<open>global generator\<close> wraps one state that is initialised on first use. This development models the
  C code of \<^verbatim>\<open>src/src\<close> as functions and relations in HOL and proves it correct against a reference
  generator and its own documentation, and compares the reference generator with \<^verbatim>\<open>doc/specification.txt\<close>.

  \<^bold>\<open>What models what.\<close>

  \<^item> \<open>Ottery_Prelude\<close>: C integers of 16, 32 and 64 bits kept as natural numbers with the
    wrap-around written out, byte arrays as lists with \<open>mem_write\<close>, \<open>mem_read\<close> and \<open>mem_clear\<close>
    (\<^verbatim>\<open>memcpy\<close>, \<^verbatim>\<open>ottery_memclear_\<close>), little-endian words, the type \<open>outcome\<close> of a call (it
    returns, it ends the process through the fatal error path, it fails an assertion, it does not
    end), and the locale \<open>inductive_invariant\<close> for invariants of transition systems.
  \<^item> \<open>Chacha_Core\<close>: the reference ChaCha, checked against a published test vector in
    \<open>Chacha_Vectors\<close>. \<open>Chacha_Merged\<close>: \<^verbatim>\<open>chacha_merged.c\<close> and the macros of
    \<^verbatim>\<open>chacha_merged_ecrypt.h\<close>. \<open>Chacha_Endian\<close>: the byte-order tests and the other versions of the
    load and store macros. \<open>Chacha_Krovetz\<close>: \<^verbatim>\<open>chacha_krovetz.c\<close> for NEON, SSE2 and SSSE3, with gcc and
    clang. \<open>Ottery_Keystream\<close>: the output of a PRF over many blocks.
  \<^item> \<open>Ottery_Platform\<close>: compile-time options as a record \<open>build\<close>, the operating system and CPU as a
    record \<open>os\<close> of functions on an abstract world, error codes, locks (\<^verbatim>\<open>ottery-threading.h\<close>), CPU
    capabilities (\<^verbatim>\<open>ottery_cpuinfo.c\<close>).
  \<^item> \<open>Ottery_Prf\<close>: \<^verbatim>\<open>struct ottery_prf\<close>, the PRF tables, \<^verbatim>\<open>ottery_get_impl\<close>, and the locale
    \<open>prf_contract\<close>, the interface between a PRF and the generator, interpreted on all PRFs.
  \<^item> \<open>Ottery_Entropy\<close>: the four sources (\<^verbatim>\<open>ottery_entropy_urandom.c\<close>, \<^verbatim>\<open>_egd.c\<close>, \<^verbatim>\<open>_rdrand.c\<close>,
    \<^verbatim>\<open>_cryptgenrandom.c\<close>) and their combination (\<^verbatim>\<open>ottery_entropy.c\<close>); the locale \<open>source_fills\<close> is
    what the combination needs of a source. \<open>Ottery_Config\<close>: the functions on \<^verbatim>\<open>struct ottery_config\<close>
    and the queries about the build.
  \<^item> \<open>Ottery_State\<close>: \<^verbatim>\<open>struct ottery_state\<close> as the record \<open>ottery_state\<close>, and of \<^verbatim>\<open>ottery.c\<close> the block
    generation, seeding, initialisation, wiping and the checks before a request. \<open>Ottery_Rand\<close>: the
    requests for bytes, integers and integers in a range. \<open>Ottery_Global\<close>: \<^verbatim>\<open>ottery_global.c\<close>.
  \<^item> \<open>Prng_Spec\<close>: the reference generator, a key and a buffer, with the operations Stir, Remove, requests for
    bytes and integers, Add and Construct (\<open>spec_stir\<close>, \<open>spec_get\<close>, ...). It follows the code.
    \<open>Prng_Document\<close>: the operations as \<^verbatim>\<open>doc/specification.txt\<close> has them (\<open>doc_tiny\<close>, \<open>doc_get\<close>, \<open>doc_run\<close>, ...), and
    where they agree with the reference generator: everywhere except for big requests whose \<open>N'\<close> is negative,
    for ``Add'' and big requests right after a tiny request that empties the buffer exactly, and for one stir more
    when there is more than one entropy source.
  \<^item> \<open>Prng_Refine\<close>, \<open>Prng_Seeding\<close>, \<open>Prng_Api\<close>: the refinement. \<open>represents keyed st s\<close> says that the
    structure \<open>st\<close> is a well-formed generator whose key and unused bytes are those of the abstract
    state \<open>s\<close>; the lemmas follow the calls outwards, inside \<open>prf_contract\<close>, and \<open>library_prf\<close> lists
    the PRFs they are used for.
  \<^item> \<open>Prng_Erasure\<close>: what the PRFs write to memory and what is left of an old key (the locale
    \<open>prf_memory\<close>, which extends \<open>prf_contract\<close>), and the seeding functions once more with their local
    buffers. \<open>Ottery_Corners\<close>: corner cases in which the code does not do what it is meant to.
  \<^item> \<open>Ottery_Locks\<close>, \<open>Ottery_Range\<close>: what the calls do to the mutex, for any PRF and content; the
    arithmetic of the rejection loop. \<open>Ottery_Reach\<close>: the life of a state as a state machine.
    \<open>Ottery_Threads\<close>, \<open>Global_Threads\<close>: interleavings of the calls of many threads.
  \<^item> \<open>Prng_Trace\<close>: sequences of calls against sequences of requests to the reference generator (\<open>spec_run\<close>), with the
    locale \<open>matching_draws\<close> for the rejection loop. \<open>Prng_Life\<close>: such sequences in the child of a fork
    (\<open>api_run\<close>), and on the global generator from its first use on (\<open>global_run\<close>). \<open>Seed_Threads\<close>: interleavings in which threads reseed
    from the system, which the code does partly outside of the lock.
  \<^item> \<open>Ottery_Demo\<close>, \<open>Demo_Threads\<close>: a concrete build and system on which the hypotheses of the
    properties hold.

  A function that works on a structure through a pointer takes the pointer's value and the structure and
  returns the new structure. What the library sees of the outside is the record \<open>'w env\<close> and a world
  \<open>'w\<close> that is passed through; \<open>os_contract\<close> is the documented behaviour of \<^verbatim>\<open>read\<close> and
  \<^verbatim>\<open>CryptGenRandom\<close> that the theorems rely on (never more bytes than asked for, and as many as
  reported).

  \<^bold>\<open>What is shown.\<close> Both PRFs compute ChaCha, on every target and byte order, and agree with each other;
  their counter repeats after 256 GiB of one request. Initialisation, requests, seeding and the behaviour
  after a fork follow the reference generator, on success and on every error path, and the document wherever the two
  agree; so do sequences of calls, those of
  a child process and of a program that only uses the global generator among them, and
  the calls of threads in the order in which they release the lock. All states that can be
  reached are well formed and no call on them crashes, waits or runs for ever, except that the range
  functions draw until they accept. Integers in a range are unbiased. Yielded bytes are erased, with
  one exception that is proved as such; starting a block leaves nothing of the old key in the structure, and
  seeding leaves no seed in the local buffers. The entropy layer never reports success without a strong source,
  uses no disabled source and never mixes two sources of one domain. The lock is taken and released on all
  paths; calls of concurrent threads on an initialised state are atomic (but for the reseeding from the system, which
  asks the sources before it takes the lock) and make progress; the lazy
  initialisation of the global state is not thread-safe, a fork while the lock is held leaves the child with a
  lock that nobody releases, and seed that a child adds before its first request is lost; these are proved too.

  \<^bold>\<open>Bounds and loops.\<close> The loops over blocks and seed bytes and the rejection loop are
  \<^theory_text>\<open>partial_function (option)\<close>, with \<open>Hang\<close> for \<open>None\<close>, so that their ending is a theorem; no fuel is used.
  Requests are for less than $2^{64} - 1024$ bytes, so that \<open>n + pos\<close> does not wrap; larger objects do
  not exist on a 64-bit machine.

  \<^bold>\<open>Assumptions.\<close> A little-endian machine where the code reads an integer out of the buffer or casts state
  memory to a structure; 64-bit \<^verbatim>\<open>size_t\<close>, 32-bit \<^verbatim>\<open>unsigned\<close>. A lock is a flag: taking a held lock waits
  for ever in the sequential model, and in the interleaving model until its holder releases it. Between
  two of its steps a thread is not interrupted.

  \<^bold>\<open>Not modelled.\<close> \<^verbatim>\<open>ottery_wipe_stack_\<close>, which overwrites stack below the frame of its caller, memory that no
  function reads and whose content depends on the compiler; the MSVC rotation intrinsic and the choice of an integer
  type in \<^verbatim>\<open>chacha_merged_ecrypt.h\<close>; the AltiVec branch of \<^verbatim>\<open>chacha_krovetz.c\<close>, which is disabled by
  \<^verbatim>\<open>#error\<close>; the public headers, which declare and document what is modelled with its definition; test
  programs, benchmarks and the bundled test framework. The interleavings with reseeding from the system stay
  inside one process; those without it may cross forks.
\<close>

section \<open>Choosing a PRF\<close>

text \<open>A capability that was disabled is never reported again, whatever CPUID says.\<close>

lemma disabled_capability_stays_off:
  "ottery_get_cpu_capabilities b os (ottery_disable_cpu_capabilities d m) AND m = 0"
  by (rule capability_disabled)

text \<open>
  C38: Choosing a PRF without a name always succeeds (the null pointer that
  \<^verbatim>\<open>ottery_st_initialize\<close> would dereference is never returned), and the PRF runs on the CPU: all
  the capabilities it requires are present and not disabled.
\<close>

theorem default_prf_exists:
  "\<exists>p. ottery_get_impl b os dis None = Some p \<and> p \<in> set (ALL_PRFS b) \<and>
     required_cpucap p AND ottery_get_cpu_capabilities b os dis = required_cpucap p"
proof -
  obtain p where "ottery_get_impl b os dis None = Some p"
    using ottery_get_impl_default by blast
  then show ?thesis
    using find_impl_SomeD(1,2) unfolding ottery_get_impl_def by blast
qed

text \<open>
  C37: The PRFs of the table are well typed: their sizes pass the checks of \<^verbatim>\<open>ottery_st_initialize\<close>, so that
  it never fails with \<^verbatim>\<open>OTTERY_ERR_INTERNAL\<close> because of them, and their functions respect the arrays they
  are given. \<^verbatim>\<open>setup\<close> and \<^verbatim>\<open>generate\<close> write no byte of the state memory beyond \<^verbatim>\<open>state_len\<close>, and
  \<^verbatim>\<open>generate\<close> writes none of the output beyond \<^verbatim>\<open>output_len\<close>.
\<close>

theorem prf_table_typed:
  assumes "p \<in> set (ALL_PRFS b)"
  shows "state_len p \<le> MAX_STATE_LEN \<and> state_bytes p \<le> MAX_STATE_BYTES \<and>
    state_bytes p \<le> output_len p \<and> output_len p \<le> MAX_OUTPUT_LEN \<and>
    (\<forall>m k out i. length m = MAX_STATE_LEN \<and> state_bytes p \<le> length k \<and> output_len p \<le> length out \<longrightarrow>
       length (setup_fn p m k) = MAX_STATE_LEN \<and>
       drop (state_len p) (setup_fn p m k) = drop (state_len p) m \<and>
       (case generate_fn p (setup_fn p m k) out i of (m', out') \<Rightarrow>
          length m' = MAX_STATE_LEN \<and> drop (state_len p) m' = drop (state_len p) m \<and>
          length out' = length out \<and> drop (output_len p) out' = drop (output_len p) out))"
proof -
  obtain F keyed where "library_prf p F keyed" using ALL_PRFS_library [OF assms] by blast
  then have mem: "prf_memory p F keyed" by (rule library_prf_memory)
  then have c: "prf_contract p F keyed" by (simp add: prf_memory_def)
  show ?thesis
    using prf_memory.writes_within [OF mem] prf_memory.setup_within [OF mem] prf_contract.length_setup [OF c]
      prf_contract.state_len_max [OF c] prf_contract.state_bytes_max [OF c] prf_contract.output_len_max [OF c]
      prf_contract.output_len_min [OF c]
    by (auto simp: case_prod_unfold)
qed

theorem prf_table_typed_witness:
  "ottery_prf_chacha8_merged \<in> set (ALL_PRFS demo_build) \<and>
    length (snd (generate_fn ottery_prf_chacha8_merged
      (setup_fn ottery_prf_chacha8_merged (replicate 256 0) (replicate 40 1)) (replicate 1500 9) 0)) = 1500"
proof -
  have p: "ottery_prf_chacha8_merged \<in> set (ALL_PRFS demo_build)" by (simp add: ALL_PRFS_def)
  have "output_len ottery_prf_chacha8_merged = 1024" "state_bytes ottery_prf_chacha8_merged = 40"
    using library_prf_sizes [OF library_prf.merged8]
    by (auto simp: prf_table_defs PRF_CHACHA_merged_def OUTPUT_LEN_def IDX_STEP_def)
  then show ?thesis
    using conjunct2 [OF conjunct2 [OF conjunct2 [OF conjunct2 [OF prf_table_typed [OF p]]]], rule_format,
        of "replicate 256 0" "replicate 40 1" "replicate 1500 9" 0] p
    by (simp add: max_defs case_prod_unfold)
qed

text \<open>
  C39: Forcing an implementation by name either stores a PRF of the table that the CPU supports and
  that carries the name as its PRF, implementation or flavour name, or reports an invalid argument,
  leaves the configuration alone, and there is no such PRF.
\<close>

theorem force_implementation_result:
  "(\<exists>p. answers_to os b dis s p \<and>
      ottery_config_force_implementation b os dis cfg (Some s) = (0, cfg\<lparr>cfg_impl := Some p\<rparr>)) \<or>
   (\<nexists>p. answers_to os b dis s p) \<and>
      ottery_config_force_implementation b os dis cfg (Some s) = (OTTERY_ERR_INVALID_ARGUMENT, cfg)"
proof (cases "ottery_get_impl b os dis (Some s)")
  case None
  then have "\<nexists>p. answers_to os b dis s p"
    by (auto simp: answers_to_def ottery_get_impl_def find_impl_None_iff)
  with None show ?thesis by (simp add: ottery_config_force_implementation_def)
next
  case (Some p)
  then have "answers_to os b dis s p"
    using find_impl_SomeD [of _ "Some s" "ALL_PRFS b" p] by (auto simp: answers_to_def ottery_get_impl_def)
  with Some show ?thesis by (auto simp: ottery_config_force_implementation_def)
qed

text \<open>
  C40: Of the names that the header offers for this purpose, the six with a number of rounds that ask for
  no vectorised code are accepted on every build and CPU; \<^verbatim>\<open>OTTERY_PRF_CHACHA\<close>,
  \<^verbatim>\<open>OTTERY_PRF_CHACHA_SIMD\<close> and \<^verbatim>\<open>OTTERY_PRF_CHACHA_NO_SIMD\<close> are accepted on none.
\<close>

theorem prf_names_accepted:
  "(\<forall>s \<in> {OTTERY_PRF_CHACHA8, OTTERY_PRF_CHACHA12, OTTERY_PRF_CHACHA20, OTTERY_PRF_CHACHA8_NO_SIMD,
      OTTERY_PRF_CHACHA12_NO_SIMD, OTTERY_PRF_CHACHA20_NO_SIMD}.
      fst (ottery_config_force_implementation b os dis cfg (Some s)) = 0) \<and>
   (\<forall>s \<in> {OTTERY_PRF_CHACHA, OTTERY_PRF_CHACHA_SIMD, OTTERY_PRF_CHACHA_NO_SIMD}.
      ottery_config_force_implementation b os dis cfg (Some s) = (OTTERY_ERR_INVALID_ARGUMENT, cfg))"
proof -
  have no: "find_impl cap (Some s) (ALL_PRFS b) = None"
    if "s \<in> {OTTERY_PRF_CHACHA, OTTERY_PRF_CHACHA_SIMD, OTTERY_PRF_CHACHA_NO_SIMD}" for cap s
    using that unfolding find_impl_None_iff prf_name_defs
    by (auto simp: ALL_PRFS_def prf_table_defs PRF_CHACHA_merged_def PRF_CHACHA_krovetz_def FLAV_def
        split: option.splits if_splits)
  have yes: "find_impl cap (Some s) (ALL_PRFS b) \<noteq> None"
    if "s \<in> {OTTERY_PRF_CHACHA8, OTTERY_PRF_CHACHA12, OTTERY_PRF_CHACHA20, OTTERY_PRF_CHACHA8_NO_SIMD,
      OTTERY_PRF_CHACHA12_NO_SIMD, OTTERY_PRF_CHACHA20_NO_SIMD}" for cap s
  proof -
    have "\<exists>p \<in> {ottery_prf_chacha8_merged, ottery_prf_chacha12_merged, ottery_prf_chacha20_merged}.
        required_cpucap p = 0 \<and> s \<in> {prf_name p, prf_impl p, prf_flav p}"
      using that by (auto simp: prf_table_defs PRF_CHACHA_merged_def prf_name_defs)
    moreover have "{ottery_prf_chacha8_merged, ottery_prf_chacha12_merged, ottery_prf_chacha20_merged}
        \<subseteq> set (ALL_PRFS b)"
      by (auto simp: ALL_PRFS_def split: option.split)
    ultimately show ?thesis unfolding find_impl_None_iff by fastforce
  qed
  let ?force = "\<lambda>s. ottery_config_force_implementation b os dis cfg (Some s)"
  have rejected: "?force s = (OTTERY_ERR_INVALID_ARGUMENT, cfg)"
    if "find_impl (ottery_get_cpu_capabilities b os dis) (Some s) (ALL_PRFS b) = None" for s
    using that by (simp add: ottery_config_force_implementation_def ottery_get_impl_def)
  have accepted: "fst (?force s) = 0"
    if "find_impl (ottery_get_cpu_capabilities b os dis) (Some s) (ALL_PRFS b) \<noteq> None" for s
    using that by (auto simp: ottery_config_force_implementation_def ottery_get_impl_def)
  show ?thesis by (intro conjI ballI) (erule accepted [OF yes] rejected [OF no])+
qed

theorem prf_names_accepted_witness:
  "fst (ottery_config_force_implementation demo_build demo_os 0 blank_config (Some OTTERY_PRF_CHACHA12)) = 0 \<and>
    fst (ottery_config_force_implementation demo_build demo_os 0 blank_config (Some OTTERY_PRF_CHACHA)) =
      OTTERY_ERR_INVALID_ARGUMENT"
  using prf_names_accepted [of demo_build demo_os 0 blank_config] by simp

text \<open>
  The build flags tell exactly which of the protections were compiled out; the bits of
  \<^verbatim>\<open>OTTERY_BLDFLG_MASK_SAFETY\<close> are all zero if and only if none of the five was.
\<close>

lemma build_flags_report:
  "(ottery_get_build_flags b AND OTTERY_BLDFLG_NO_PID_CHECK \<noteq> 0 \<longleftrightarrow> no_pid_check b) \<and>
   (ottery_get_build_flags b AND OTTERY_BLDFLG_NO_INIT_CHECK \<noteq> 0 \<longleftrightarrow> opt_no_init_check b) \<and>
   (ottery_get_build_flags b AND OTTERY_BLDFLG_NO_LOCKING \<noteq> 0 \<longleftrightarrow> no_locks b) \<and>
   (ottery_get_build_flags b AND OTTERY_BLDFLG_NO_CLEAR_AFTER_YIELD \<noteq> 0 \<longleftrightarrow> opt_no_clear_after_yield b) \<and>
   (ottery_get_build_flags b AND OTTERY_BLDFLG_NO_WIPE_STACK \<noteq> 0 \<longleftrightarrow> opt_no_wipe_stack b) \<and>
   (ottery_get_build_flags b AND OTTERY_BLDFLG_NO_SIMD \<noteq> 0 \<longleftrightarrow> opt_no_simd b) \<and>
   (ottery_get_build_flags b AND OTTERY_BLDFLG_MASK_SAFETY = 0 \<longleftrightarrow>
      \<not> (no_pid_check b \<or> opt_no_init_check b \<or> no_locks b \<or> opt_no_clear_after_yield b \<or>
         opt_no_wipe_stack b))"
  unfolding ottery_get_build_flags_def
  by (cases "no_pid_check b"; cases "opt_no_init_check b"; cases "no_locks b";
      cases "opt_no_clear_after_yield b"; cases "opt_no_wipe_stack b"; cases "opt_no_simd b")
     (simp_all add: bldflg_defs)

section \<open>Entropy\<close>

text \<open>
  C13: What a successful \<^verbatim>\<open>ottery_get_entropy_\<close> hands over: exactly one block of \<open>n\<close> bytes from each
  of a sublist of the sources in table order, none of them disabled, of pairwise different domains,
  each block being what that source delivered in a successful call; the flags are the union of the
  contributing sources' flags; and at least one contributing source is strong and not marked weak.
  The bytes fit into the buffer and the reported length is theirs.
\<close>

theorem entropy_success:
  assumes "os_contract os" "r = ottery_get_entropy b os dis config state sel n buflen w" "er_err r = 0"
  shows "\<exists>us ds. gathered config n (RAND_SOURCES b os dis) (er_flags r)
      (take (er_buflen r) (er_bytes r)) us ds \<and>
    er_buflen r = n * length us \<and> 1 \<le> length us \<and> er_buflen r \<le> buflen"
  using get_entropy_gathered [OF assms] gathered_nonempty by (metis One_nat_def Suc_leI length_greater_0_conv)

theorem entropy_success_witness:
  "\<exists>us ds. gathered (Some demo_config) 40 (RAND_SOURCES demo_build demo_os 0) 0x10101 (replicate 40 165) us ds \<and>
     (40::nat) = 40 * length us \<and> 1 \<le> length us \<and> (40::nat) \<le> 120"
  using entropy_success [OF demo_os_contract refl, of demo_build 0 "Some demo_config"
      "Some \<lparr>urandom_fd_inode = 0\<rparr>" 0 40 120 7] by (simp add: demo_entropy)

text \<open>
  When every source is disabled nothing is asked of the system at all, and the call fails with
  \<^verbatim>\<open>OTTERY_ERR_INIT_STRONG_RNG\<close>.
\<close>

lemma entropy_all_disabled:
  assumes "disabled_sources c AND OTTERY_ENTROPY_ALL_SOURCES = OTTERY_ENTROPY_ALL_SOURCES"
  shows "ottery_get_entropy b os dis (Some c) state sel n buflen w =
    \<lparr>er_err = OTTERY_ERR_INIT_STRONG_RNG, er_state = state, er_bytes = replicate buflen 0,
     er_buflen = buflen, er_flags = 0, er_world = w\<rparr>"
proof -
  have "src_flags s AND disabled_sources c \<noteq> 0" if "s \<in> set (RAND_SOURCES b os dis)" for s
  proof
    assume "src_flags s AND disabled_sources c = 0"
    then have "src_flags s AND OTTERY_ENTROPY_ALL_SOURCES = 0"
      using assms and.assoc [of "src_flags s" "disabled_sources c" OTTERY_ENTROPY_ALL_SOURCES] by simp
    then show False using source_selectable [OF that] by simp
  qed
  then have "entropy_loop (Some c) sel n buflen (RAND_SOURCES b os dis) a = a" for a
    by (intro entropy_loop_disabled) blast
  then show ?thesis by (simp add: ottery_get_entropy_def)
qed

lemma entropy_all_disabled_example:
  "ottery_get_entropy demo_build demo_os 0 (Some (demo_config\<lparr>disabled_sources := 0x0FFF0000\<rparr>)) None 0 40 120 5 =
    \<lparr>er_err = OTTERY_ERR_INIT_STRONG_RNG, er_state = None, er_bytes = replicate 120 0,
     er_buflen = 120, er_flags = 0, er_world = 5\<rparr>"
  by (rule entropy_all_disabled) (simp add: entropy_flag_defs)

text \<open>
  When every source is marked weak, \<^verbatim>\<open>ottery_get_entropy_\<close> reports failure, no matter how many
  bytes the sources deliver.
\<close>

lemma entropy_all_weak:
  assumes "os_contract os"
    and "weak_sources c AND OTTERY_ENTROPY_ALL_SOURCES = OTTERY_ENTROPY_ALL_SOURCES"
  shows "er_err (ottery_get_entropy b os dis (Some c) state sel n buflen w) \<noteq> 0"
proof
  assume ok: "er_err (ottery_get_entropy b os dis (Some c) state sel n buflen w) = 0"
  obtain us ds where g: "gathered (Some c) n (RAND_SOURCES b os dis)
      (er_flags (ottery_get_entropy b os dis (Some c) state sel n buflen w))
      (take (er_buflen (ottery_get_entropy b os dis (Some c) state sel n buflen w))
        (er_bytes (ottery_get_entropy b os dis (Some c) state sel n buflen w))) us ds"
    using get_entropy_gathered [OF assms(1) refl ok] .
  then obtain s where s: "s \<in> set us" "effective_flags (Some c) s AND OTTERY_ENTROPY_FL_STRONG \<noteq> 0"
    by (auto simp: gathered_def)
  have "s \<in> set (RAND_SOURCES b os dis)" using g s(1) by (auto simp: gathered_def dest: list_emb_set)
  then have "src_flags s AND weak_sources c \<noteq> 0"
    using source_selectable assms(2) and.assoc [of "src_flags s" "weak_sources c" OTTERY_ENTROPY_ALL_SOURCES]
    by fastforce
  with s(2) show False by (simp add: effective_flags_def and.assoc)
qed

lemma entropy_all_weak_example:
  "er_err (ottery_get_entropy demo_build demo_os 0 (Some (demo_config\<lparr>weak_sources := 0x0FFF0000\<rparr>))
      None 0 40 120 5) \<noteq> 0"
  by (rule entropy_all_weak [OF demo_os_contract]) (simp add: entropy_flag_defs)

text \<open>
  \<^verbatim>\<open>ottery_read_n_bytes_from_file_\<close> puts short reads together: on a file on which every
  \<^verbatim>\<open>read\<close> makes progress it returns \<open>n\<close> and has stored \<open>n\<close> bytes.
\<close>

lemma read_n_bytes_complete:
  assumes "os_contract os" "always_readable os fd"
  shows "\<exists>data w'. ottery_read_n_bytes_from_file os fd n w = (n, data, w') \<and> length data = n"
proof -
  obtain k data w' where r: "ottery_read_n_bytes_from_file os fd n w = (k, data, w')"
    by (metis prod_cases3)
  then have "k = n"
    using read_n_loop_progress [OF assms, of n 0 "[]" w] by (simp add: ottery_read_n_bytes_from_file_def)
  with r show ?thesis using read_n_bytes_length [OF assms(1) r] by simp
qed

lemma read_n_bytes_complete_example:
  "\<exists>data w'. ottery_read_n_bytes_from_file demo_os 3 40 7 = (40, data, w') \<and> length data = 40"
  by (rule read_n_bytes_complete [OF demo_os_contract]) (simp add: always_readable_def)

text \<open>
  C32: When \<^verbatim>\<open>/dev/urandom\<close> must be a device and the source reports success, the bytes were read from the descriptor
  that \<^verbatim>\<open>fstat\<close> was asked about: the caller's, or the one that opening the configured file gave. Its mode has the
  bit \<^verbatim>\<open>S_IFCHR\<close>, which character devices have (and block devices too), and its inode number is the one remembered
  from earlier calls, if there is one, and is remembered from now on. A descriptor that the source opened is closed
  again.
\<close>

theorem urandom_device_pinned:
  assumes "ottery_get_entropy_urandom os (Some c) (Some s) n w = (0, s', data, w')"
    and "\<not> allow_nondev_urandom c" "own = (\<not> (urandom_fd_is_set c \<and> urandom_fd c \<ge> 0))"
  shows "\<exists>fd w1 st w2 w3.
    (if own then os_open os (case urandom_fname c of Some f \<Rightarrow> f | None \<Rightarrow> ''/dev/urandom'') w = (fd, w1) \<and> fd \<ge> 0
     else fd = urandom_fd c \<and> w1 = w) \<and>
    os_fstat os fd w1 = (Some st, w2) \<and> st_mode st AND S_IFCHR \<noteq> 0 \<and>
    (urandom_fd_inode s = 0 \<or> urandom_fd_inode s = st_ino st) \<and> s' = Some (s\<lparr>urandom_fd_inode := st_ino st\<rparr>) \<and>
    ottery_read_n_bytes_from_file os fd n w2 = (n, data, w3) \<and> w' = (if own then os_close os fd w3 else w3)"
  using assms
  by (cases s) (auto simp: ottery_get_entropy_urandom_def Let_def err_defs
      split: prod.splits option.splits if_splits)

theorem urandom_device_pinned_witness:
  "\<exists>fd w1 st w2 w3. os_open demo_os ''/dev/urandom'' 7 = (fd, w1) \<and> os_fstat demo_os fd w1 = (Some st, w2) \<and>
    st_mode st AND S_IFCHR \<noteq> 0 \<and> st_ino st = 11 \<and>
    ottery_read_n_bytes_from_file demo_os fd 40 w2 = (40, replicate 40 165, w3)"
  using urandom_device_pinned [OF demo_urandom [of 0 40 7], of True]
  by (auto simp: demo_config_def ottery_config_init_def)

section \<open>Initialisation\<close>

text \<open>
  C9: A successful initialisation seeds the generator: from the concatenated output of the entropy
  sources the first 40 bytes become the key, the others are mixed in as ``Add'' does, and the generator is
  stirred. With one source this is the document's ``Construct''; with more it is ``Construct'' and one more ``Stir'',
  which the document does not have. The state is marked as initialised at its own address and by this process, and
  its lock is free. It succeeds whenever the structure is aligned, the lock can be made, and the
  entropy layer delivers.
\<close>

theorem init_seeds_generator:
  assumes "library_prf p F keyed" "chosen_prf e cfg = Some p" "self AND 0xF = 0" "sizes_ok (e_build e)"
    and "lock_init e locked w = (False, w1)" "os_contract (e_os e)"
    and "seed_buffer_ok e (unseeded_state cfg p) w1" "er_err (seed_request e (unseeded_state cfg p) w1) = 0"
  shows "\<exists>st'. ottery_st_initialize e self st cfg locked w =
      Ret (0, st', er_world (seed_request e (unseeded_state cfg p) w1)) \<and>
    represents keyed st' (let seed = entropy_seed (seed_request e (unseeded_state cfg p) w1) in
      if drop 40 seed = [] then doc_construct F 40 seed else spec_stir F 40 (fst (doc_construct F 40 seed))) \<and>
    st_prf st' = p \<and> magic st' = MAGIC self \<and> \<not> mutex st' \<and>
    pid st' = os_getpid (e_os e) (er_world (seed_request e (unseeded_state cfg p) w1)) \<and>
    entropy_src_flags st' = er_flags (seed_request e (unseeded_state cfg p) w1)"
  unfolding Let_def library_document(2) [OF assms(1), symmetric]
  using prf_contract.initialize_success [OF library_prf_contract [OF assms(1)] assms(2-8)]
    library_prf_sizes [OF assms(1)] by auto

theorem init_seeds_generator_witness:
  "\<exists>st'. ottery_st_initialize demo_env 16 zero_state None True 7 = Ret (0, st', 7) \<and>
    represents merged_keyed st' (doc_construct (merged_F 20) 40 (replicate 40 165)) \<and>
    st_prf st' = ottery_prf_chacha20_merged \<and> magic st' = MAGIC 16 \<and> \<not> mutex st' \<and> pid st' = 7 \<and>
    entropy_src_flags st' = 0x10101"
  using init_seeds_generator [OF library_prf.merged20 demo_prf _ _ demo_lock_init [of 7], of 16 zero_state]
    demo_os_contract demo_unseeded [of 7] demo_sizes by simp

text \<open>
  C16: Initialisation fails safe. With a PRF of the library it always returns (no crash, no endless
  loop), and a state for which it did not return zero does not pass the initialisation check of any
  later call.
\<close>

theorem init_fails_safe:
  assumes "library_prf p F keyed" "chosen_prf e cfg = Some p" "self AND 0xF = 0" "os_contract (e_os e)"
  shows "\<exists>err st' w'. ottery_st_initialize e self st cfg locked w = Ret (err, st', w') \<and>
    (err = 0 \<longleftrightarrow> magic st' = MAGIC self) \<and> (err = 0 \<longrightarrow> generator_ok st' \<and> \<not> mutex st')"
proof (cases "fst (lock_init e locked w) \<or> \<not> sizes_ok (e_build e) \<or>
      \<not> seed_buffer_ok e (unseeded_state cfg p) (snd (lock_init e locked w)) \<or>
      er_err (seed_request e (unseeded_state cfg p) (snd (lock_init e locked w))) \<noteq> 0")
  case True
  then show ?thesis
    using initialize_error [OF assms(2,3) True] MAGIC_aligned [OF assms(3)] by fastforce
next
  case False
  then have "lock_init e locked w = (False, snd (lock_init e locked w))" by (simp add: prod_eq_iff)
  then show ?thesis
    using False prf_contract.initialize_success [OF library_prf_contract [OF assms(1)] assms(2,3)] assms(4)
    by (fastforce simp: represents_def)
qed

theorem init_fails_safe_witness:
  "\<exists>err st' w'. ottery_st_initialize demo_env 32 demo_state None False 9 = Ret (err, st', w') \<and>
    (err = 0 \<longleftrightarrow> magic st' = MAGIC 32) \<and> (err = 0 \<longrightarrow> generator_ok st' \<and> \<not> mutex st')"
  by (rule init_fails_safe [OF library_prf.merged20 demo_prf]) (simp_all add: demo_os_contract)

section \<open>Requests\<close>

text \<open>
  C1: Requests for bytes. In the process that seeded the state, \<^verbatim>\<open>ottery_st_rand_bytes\<close> stores exactly \<open>n\<close> bytes, those
  that the reference generator of \<open>Prng_Spec\<close> gives for the state that the structure represents, and afterwards
  the structure represents its new state. This is the document's ``Get N Random Bytes'' whenever that describes
  anything: it does not for a request of at least \<open>BUF_LEN + Len(BUF)\<close> bytes that leaves more than \<open>BUF_LEN\<close> bytes after the
  last whole block, where it asks for a negative number of bytes. The call always returns: the assertion in
  \<^verbatim>\<open>ottery_st_rand_bytes_from_buf\<close> holds and the loop over whole blocks ends. All fields that do not hold key
  material, the lock among them, are as before.
\<close>

theorem rand_bytes_follows_spec:
  assumes "library_prf p F keyed" "represents keyed st s" "st_prf st = p" "n < 2 ^ 64 - 1024"
    and "ready e self st" "same_process e st w" "lock_free (e_build e) st"
  shows "\<exists>st' out s'. ottery_st_rand_bytes e self st n w = Ret (Some out, st', w) \<and> length out = n \<and>
    spec_get F 40 (output_len p) n s = (out, s') \<and> represents keyed st' s' \<and> meta st' = meta st \<and>
    doc_get F 40 (output_len p) n s =
      (if output_len p - 40 + length (snd s) \<le> n \<and> output_len p - 40 < (n - length (snd s)) mod output_len p
       then None else Some (out, s'))"
proof -
  have c: "prf_contract p F keyed" by (rule library_prf_contract [OF assms(1)])
  have "length (fst (spec_get F 40 (output_len p) n s)) = n"
    using library_prf_sizes [OF assms(1)] by (intro length_spec_get) (auto simp: prf_contract.length_F [OF c])
  then show ?thesis
    using prf_contract.rand_bytes_same [OF c assms(2-7)] library_prf_sizes [OF assms(1)]
      library_document(1) [OF assms(1), of n s]
    by (cases "spec_get F 40 (output_len p) n s") auto
qed

theorem rand_bytes_follows_spec_witness:
  "\<exists>st' out s'. ottery_st_rand_bytes demo_env 16 demo_state 5000 7 = Ret (Some out, st', 7) \<and>
    length out = 5000 \<and> spec_get (merged_F 20) 40 1024 5000 demo_prng = (out, s') \<and>
    represents merged_keyed st' s' \<and> meta st' = meta demo_state \<and>
    doc_get (merged_F 20) 40 1024 5000 demo_prng = Some (out, s')"
  using rand_bytes_follows_spec [OF library_prf.merged20 demo_state_ok(2,3), of 5000 demo_env 16 7]
    demo_state_ok demo_sizes_of_state(1) by simp

text \<open>
  C2: Sequences of calls. Any calls made one after the other, in the process that seeded the state (adding seed
  only with a seed), reply what the reference generator of \<open>Prng_Spec\<close> replies to the same sequence of requests:
  bytes, integers out of tiny requests, for the range functions the first tiny request that is accepted, and zero
  after seed is added. Afterwards the structure represents the reference generator's state, and is as usable as
  before. The sequence fails to return in exactly one case, when a range function never draws an integer that it
  accepts. The replies are those of \<^verbatim>\<open>doc/specification.txt\<close> for every sequence that the document describes (\<open>doc_run\<close>)
  and in which no ``Add'' and no request of more than \<open>BUF_LEN\<close> bytes comes right upon a buffer that a tiny request has
  emptied exactly (\<open>settled\<close>), which the code, unlike the document, stirs at once.
\<close>

theorem calls_follow_spec:
  assumes "library_prf p F keyed" "st_prf st = p" "represents keyed st s"
    and "ready e self st" "same_process e st w" "lock_free (e_build e) st"
    and "\<forall>c \<in> set cs. valid_call c \<and> has_seed c"
  shows "(case spec_run F 40 (output_len p) cs s of
      None \<Rightarrow> api_run e self cs st w = Hang
    | Some (rs, s') \<Rightarrow> \<exists>st'. api_run e self cs st w = Ret (rs, st', w) \<and> represents keyed st' s' \<and>
        st_prf st' = p \<and> magic st' = magic st \<and> pid st' = pid st \<and> mutex st' = mutex st) \<and>
    (\<forall>rs d. doc_run F 40 (output_len p) cs s = Some (rs, d) \<and> settled F 40 (output_len p) cs s \<longrightarrow>
      (\<exists>st'. api_run e self cs st w = Ret (rs, st', w)))"
proof -
  have "matches keyed st w (spec_run F 40 (output_len p) cs s) (api_run e self cs st w)"
    using api_run_matches [OF _ assms(3-7)] assms(1,2) by simp
  then have run: "case spec_run F 40 (output_len p) cs s of
      None \<Rightarrow> api_run e self cs st w = Hang
    | Some (rs, s') \<Rightarrow> \<exists>st'. api_run e self cs st w = Ret (rs, st', w) \<and> represents keyed st' s' \<and>
        st_prf st' = p \<and> magic st' = magic st \<and> pid st' = pid st \<and> mutex st' = mutex st"
    using assms(2) by (auto simp: matches_def standing_def split: option.split)
  then show ?thesis using document_case [OF assms(1) run] by blast
qed

theorem calls_follow_spec_witness:
  "(\<exists>rs s' st'. spec_run (merged_F 20) 40 1024
      [RandBytes 5000, RandUint32, AddSeed (Some [1, 2, 3]) 2, PreventBacktracking, RandUint64] demo_prng = Some (rs, s') \<and>
    length rs = 5 \<and> represents merged_keyed st' s' \<and>
    api_run demo_env 16 [RandBytes 5000, RandUint32, AddSeed (Some [1, 2, 3]) 2, PreventBacktracking, RandUint64]
      demo_state 7 = Ret (rs, st', 7)) \<and>
   (\<exists>rs d st'. doc_run (merged_F 20) 40 1024 [RandBytes 5000, RandUint32] demo_prng = Some (rs, d) \<and>
    length rs = 2 \<and> api_run demo_env 16 [RandBytes 5000, RandUint32] demo_state 7 = Ret (rs, st', 7))"
proof -
  let ?cs = "[RandBytes 5000, RandUint32, AddSeed (Some [1, 2, 3]) 2, PreventBacktracking, RandUint64]"
  let ?ds = "[RandBytes 5000, RandUint32]"
  note calls = calls_follow_spec [OF library_prf.merged20 demo_state_ok(3,2,4,5)]
  obtain rs s' where r: "spec_run (merged_F 20) 40 1024 ?cs demo_prng = Some (rs, s')" "length rs = 5"
    by (auto simp: map_prod_def case_prod_unfold)
  have "doc_get (merged_F 20) 40 1024 5000 demo_prng = Some (spec_get (merged_F 20) 40 1024 5000 demo_prng)"
    by (subst document_get) (simp_all add: demo_sizes_of_state(1))
  moreover have "snd demo_prng \<noteq> []" using demo_sizes_of_state(1) by auto
  ultimately obtain ds d where d: "doc_run (merged_F 20) 40 1024 ?ds demo_prng = Some (ds, d)" "length ds = 2"
    "settled (merged_F 20) 40 1024 ?ds demo_prng"
    by (auto simp: map_prod_def case_prod_unfold)
  with r show ?thesis
    using calls [of ?cs] calls [of ?ds] demo_state_ok(7)
    by (auto simp del: spec_run.simps api_run.simps doc_run.simps settled.simps)
qed

text \<open>The same for \<^verbatim>\<open>ottery_st_rand_bytes_nolock\<close>, which does not look at the lock.\<close>

lemma rand_bytes_nolock_follows_spec:
  assumes "library_prf p F keyed" "represents keyed st s" "st_prf st = p" "n < 2 ^ 64 - 1024"
    and "ready e self st" "same_process e st w"
  shows "\<exists>st'. ottery_st_rand_bytes_nolock e self st n w =
      Ret (Some (fst (spec_get F 40 (output_len p) n s)), st', w) \<and>
    represents keyed st' (snd (spec_get F 40 (output_len p) n s)) \<and> meta st' = meta st"
  using prf_contract.rand_bytes_nolock_same [OF library_prf_contract [OF assms(1)] assms(2-6)]
    library_prf_sizes [OF assms(1)] by simp

lemma rand_bytes_nolock_follows_spec_example:
  "\<exists>st'. ottery_st_rand_bytes_nolock demo_env 16 demo_state 16 7 =
      Ret (Some (fst (spec_get (merged_F 20) 40 1024 16 demo_prng)), st', 7) \<and>
    represents merged_keyed st' (snd (spec_get (merged_F 20) 40 1024 16 demo_prng)) \<and>
    meta st' = meta demo_state"
  using rand_bytes_nolock_follows_spec [OF library_prf.merged20 demo_state_ok(2,3), of 16 demo_env 16 7]
    demo_state_ok by simp

text \<open>
  C31: Random integers are tiny requests. \<^verbatim>\<open>ottery_st_rand_unsigned\<close>, \<^verbatim>\<open>ottery_st_rand_uint32\<close> and
  \<^verbatim>\<open>ottery_st_rand_uint64\<close> return the little-endian value of the four or eight bytes of the document's ``Tiny Request'',
  and leave the state that it leaves, except that a buffer which it leaves empty has been stirred. The lock is free
  again.
\<close>

theorem rand_uint_follows_spec:
  assumes "library_prf p F keyed" "represents keyed st s" "st_prf st = p"
    and "ready e self st" "same_process e st w" "lock_free (e_build e) st"
  shows "(\<exists>st'. ottery_st_rand_unsigned e self st w = Ret (le_word (fst (doc_tiny F 40 4 s)), st', w) \<and>
      represents keyed st' (refill F 40 (snd (doc_tiny F 40 4 s))) \<and> meta st' = meta st) \<and>
    (\<exists>st'. ottery_st_rand_uint32 e self st w = Ret (le_word (fst (doc_tiny F 40 4 s)), st', w) \<and>
      represents keyed st' (refill F 40 (snd (doc_tiny F 40 4 s))) \<and> meta st' = meta st) \<and>
    (\<exists>st'. ottery_st_rand_uint64 e self st w = Ret (le_word (fst (doc_tiny F 40 8 s)), st', w) \<and>
      represents keyed st' (refill F 40 (snd (doc_tiny F 40 8 s))) \<and> meta st' = meta st)"
proof -
  note c = prf_contract.inttype_same [OF library_prf_contract [OF assms(1)] assms(2,3) _ _ assms(4-6)]
  show ?thesis
    using c [of 4] c [of 8] library_prf_sizes [OF assms(1)]
    by (auto simp: ottery_st_rand_unsigned_def ottery_st_rand_uint32_def ottery_st_rand_uint64_def to_int_def
        document_tiny)
qed

theorem rand_uint_follows_spec_witness:
  "\<exists>st'. ottery_st_rand_uint32 demo_env 16 demo_state 7 =
      Ret (le_word (fst (doc_tiny (merged_F 20) 40 4 demo_prng)), st', 7) \<and>
    represents merged_keyed st' (refill (merged_F 20) 40 (snd (doc_tiny (merged_F 20) 40 4 demo_prng)))"
  using rand_uint_follows_spec [OF library_prf.merged20 demo_state_ok(2-5)] demo_state_ok(7) by auto

section \<open>Forks and uninitialised states\<close>

text \<open>
  C3: Sequences of calls in the child of a fork. The calls up to the first one that takes bytes (adding seed,
  preventing backtracking) reply at once and reseed nothing. That one, whichever it is, reseeds: the replies to
  it and to all calls after it are those that the reference generator of \<open>Prng_Spec\<close> gives when it is constructed
  from fresh entropy alone, whatever key and buffered bytes the child shares with its parent, and whatever seed the
  child added before, which is lost. Afterwards the structure represents the reference generator's state and belongs
  to the child. When the entropy came from one source, the replies are those of \<^verbatim>\<open>doc/specification.txt\<close> where \<open>doc_run\<close> and
  \<open>settled\<close> say so.
\<close>

theorem child_calls_follow_spec:
  assumes "library_prf p F keyed" "st_prf st = p" "represents keyed st s" "\<not> same_process e st w"
    and "ready e self st" "lock_free (e_build e) st"
    and "\<forall>c \<in> set pre. valid_call c \<and> has_seed c \<and> \<not> draws c"
    and "\<forall>c \<in> set (c # cs). valid_call c \<and> has_seed c" "draws c"
    and "os_contract (e_os e)" "seed_buffer_ok e st w" "er_err (seed_request e st w) = 0"
    and "r = seed_request e st w"
  shows "(case spec_run F 40 (output_len p) (c # cs) (spec_construct F 40 (entropy_seed r)) of
      None \<Rightarrow> api_run e self (pre @ c # cs) st w = Hang
    | Some (rs, s') \<Rightarrow> \<exists>st'. api_run e self (pre @ c # cs) st w = Ret (map quiet_reply pre @ rs, st', er_world r) \<and>
        represents keyed st' s' \<and> st_prf st' = p \<and> magic st' = magic st \<and> mutex st' = mutex st \<and>
        pid st' = os_getpid (e_os e) (er_world r)) \<and>
    (\<forall>rs d. drop 40 (entropy_seed r) = [] \<and>
      doc_run F 40 (output_len p) (c # cs) (doc_construct F 40 (entropy_seed r)) = Some (rs, d) \<and>
      settled F 40 (output_len p) (c # cs) (doc_construct F 40 (entropy_seed r)) \<longrightarrow>
      (\<exists>st'. api_run e self (pre @ c # cs) st w = Ret (map quiet_reply pre @ rs, st', er_world r)))"
proof -
  have "library_prf (st_prf st) F keyed" using assms(1,2) by simp
  from calls_in_child [OF this assms(3-12)]
  have run: "case spec_run F 40 (output_len p) (c # cs) (spec_construct F 40 (entropy_seed r)) of
      None \<Rightarrow> api_run e self (pre @ c # cs) st w = Hang
    | Some (rs, s') \<Rightarrow> \<exists>st'. api_run e self (pre @ c # cs) st w = Ret (map quiet_reply pre @ rs, st', er_world r) \<and>
        represents keyed st' s' \<and> st_prf st' = p \<and> magic st' = magic st \<and> mutex st' = mutex st \<and>
        pid st' = os_getpid (e_os e) (er_world r)"
    using assms(2,13) by (auto simp: inherited_def simp del: api_run.simps spec_run.simps split: option.splits)
  show ?thesis
  proof (rule conjI [OF run], intro allI impI, elim conjE)
    fix rs d
    assume one: "drop 40 (entropy_seed r) = []"
      and doc: "doc_run F 40 (output_len p) (c # cs) (doc_construct F 40 (entropy_seed r)) = Some (rs, d)"
        "settled F 40 (output_len p) (c # cs) (doc_construct F 40 (entropy_seed r))"
    have "spec_construct F 40 (entropy_seed r) = doc_construct F 40 (entropy_seed r)"
      unfolding library_document(2) [OF assms(1)] if_P [OF one] ..
    from document_case [OF assms(1) run, unfolded this, OF doc]
    show "\<exists>st'. api_run e self (pre @ c # cs) st w = Ret (map quiet_reply pre @ rs, st', er_world r)" by blast
  qed
qed

theorem child_calls_follow_spec_witness:
  "\<exists>rs s' st'. spec_run (merged_F 20) 40 1024 [RandUint32, RandBytes 5000] demo_prng = Some (rs, s') \<and>
    represents merged_keyed st' s' \<and> pid st' = 8 \<and>
    api_run demo_env 16 [AddSeed (Some [1, 2, 3]) 3, RandUint32, RandBytes 5000] demo_state 8 =
      Ret (GotCode 0 # rs, st', 8)"
proof -
  obtain rs s' where "spec_run (merged_F 20) 40 1024 [RandUint32, RandBytes 5000] demo_prng = Some (rs, s')"
    by (auto simp: map_prod_def case_prod_unfold)
  then show ?thesis
    using child_calls_follow_spec [OF library_prf.merged20 demo_state_ok(3,2,6,4),
        of "[AddSeed (Some [1, 2, 3]) 3]" RandUint32 "[RandBytes 5000]" "seed_request demo_env demo_state 8"]
      demo_state_ok demo_os_contract
    by (auto simp: draws_def demo_prng_def simp del: spec_run.simps api_run.simps)
qed

text \<open>
  In particular a request for bytes, for any well-formed copy: neither its output nor the state it
  leaves behind depend on the key or the buffered bytes that the child shares with its parent.
\<close>

lemma fork_reseeds:
  assumes "library_prf p F keyed" "generator_ok st" "st_prf st = p" "\<not> same_process e st w"
    and "ready e self st" "lock_free (e_build e) st" "n < 2 ^ 64 - 1024"
    and "os_contract (e_os e)" "seed_buffer_ok e st w" "er_err (seed_request e st w) = 0"
    and "s = spec_construct F 40 (entropy_seed (seed_request e st w))"
  shows "\<exists>st'. ottery_st_rand_bytes e self st n w =
      Ret (Some (fst (spec_get F 40 (output_len p) n s)), st', er_world (seed_request e st w)) \<and>
    represents keyed st' (snd (spec_get F 40 (output_len p) n s)) \<and>
    pid st' = os_getpid (e_os e) (er_world (seed_request e st w)) \<and> mutex st' = mutex st"
  using prf_contract.rand_bytes_fork [OF library_prf_contract [OF assms(1)] assms(2-10)]
    library_prf_sizes [OF assms(1)] assms(11) by simp

lemma fork_reseeds_example:
  "\<exists>st'. ottery_st_rand_bytes demo_env 16 demo_state 32 8 =
      Ret (Some (fst (spec_get (merged_F 20) 40 1024 32 demo_prng)), st', 8) \<and>
    represents merged_keyed st' (snd (spec_get (merged_F 20) 40 1024 32 demo_prng)) \<and>
    pid st' = 8 \<and> mutex st' = mutex demo_state"
  using fork_reseeds [OF library_prf.merged20 _ demo_state_ok(3,6,4), of 32 demo_prng]
    demo_state_ok demo_os_contract by (simp add: represents_def demo_prng_def)

text \<open>
  C17: If the entropy layer fails after a fork, no bytes are given out: the fatal error handler gets the
  error with \<^verbatim>\<open>OTTERY_ERR_FLAG_POSTFORK_RESEED\<close> set, and without a handler the process ends. If the
  handler returns, the lock is free and the state still belongs to the old process, so that the next
  request tries to reseed again.
\<close>

theorem fork_without_entropy:
  assumes "\<not> same_process e st w" "ready e self st" "lock_free (e_build e) st"
    and "seed_buffer_ok e st w" "er_err (seed_request e st w) = err" "err \<noteq> 0"
  shows "\<exists>st'. ottery_st_rand_bytes e self st n w =
      (case e_handler e of None \<Rightarrow> Abort (OTTERY_ERR_FLAG_POSTFORK_RESEED OR err)
       | Some h \<Rightarrow> Ret (None, st', h (OTTERY_ERR_FLAG_POSTFORK_RESEED OR err) (er_world (seed_request e st w)))) \<and>
    pid st' = pid st \<and> mutex st' = mutex st"
proof -
  define s0 where "s0 = st\<lparr>mutex := \<not> no_locks (e_build e) \<or> mutex st\<rparr>"
  define r where "r = seed_request e st w"
  have eq: "seed_request e s0 w = r" "seed_buffer_ok e s0 w" "\<not> same_process e s0 w"
    using assms(1,4) by (simp_all add: s0_def r_def seed_request_def seed_buffer_ok_def st_get_entropy_def)
  have lock: "LOCK (e_build e) st = Ret s0" using assms(3) by (simp add: LOCK_free s0_def)
  have "ottery_st_reseed e self s0 w = Ret (err, stored_entropy_state s0 (er_state r), er_world r)"
    using reseed_no_entropy [of e s0 w self] eq assms(5,6) by (simp add: r_def)
  then have "ottery_st_rand_bytes e self st n w =
      (case e_handler e of None \<Rightarrow> Abort (OTTERY_ERR_FLAG_POSTFORK_RESEED OR err)
       | Some h \<Rightarrow> Ret (None, UNLOCK (e_build e) (stored_entropy_state s0 (er_state r)),
                      h (OTTERY_ERR_FLAG_POSTFORK_RESEED OR err) (er_world r)))"
    using assms(2,6) eq(3) lock unfolding same_process_def
    by (simp add: ottery_st_rand_bytes_def ottery_st_rand_lock_and_check_def check_init_ready
        ottery_st_rand_check_pid_def ottery_fatal_error_def split: option.split)
  moreover have "pid (UNLOCK (e_build e) (stored_entropy_state s0 (er_state r))) = pid st"
    "mutex (UNLOCK (e_build e) (stored_entropy_state s0 (er_state r))) = mutex st"
    using assms(3) by (auto simp: UNLOCK_def RELEASE_LOCK_def s0_def lock_free_def)
  ultimately show ?thesis unfolding r_def by blast
qed

theorem fork_without_entropy_witness:
  "\<exists>st'. ottery_st_rand_bytes (demo_env\<lparr>e_handler := Some (\<lambda>err w. w + 100)\<rparr>) 16
      (demo_state\<lparr>entropy_config := demo_config\<lparr>disabled_sources := 0x0FFF0000\<rparr>\<rparr>) 32 8 = Ret (None, st', 108) \<and>
    pid st' = pid demo_state \<and> mutex st' = mutex demo_state"
proof -
  let ?e = "demo_env\<lparr>e_handler := Some (\<lambda>err w. w + 100)\<rparr>"
  let ?st = "demo_state\<lparr>entropy_config := demo_config\<lparr>disabled_sources := 0x0FFF0000\<rparr>\<rparr>"
  have r: "er_err (seed_request ?e ?st 8) = OTTERY_ERR_INIT_STRONG_RNG \<and> er_world (seed_request ?e ?st 8) = 8"
    using entropy_loop_disabled
    by (simp add: seed_request_def st_get_entropy_def ottery_get_entropy_def demo_sources
        entropy_loop.simps ENTROPY_SOURCE_URANDOM_def ENTROPY_SOURCE_EGD_def ENTROPY_SOURCE_RDRAND_def
        entropy_flag_defs)
  show ?thesis
    using fork_without_entropy [of ?e ?st 8 16 OTTERY_ERR_INIT_STRONG_RNG 32] demo_state_ok r
    by (simp add: same_process_def ready_def lock_free_def seed_buffer_ok_def)
qed

text \<open>
  C18: A state that is not initialised is refused. The functions that take bytes, integers or integers in a range,
  locking or not, and those that add seed, give out nothing and change nothing: the handler for fatal errors gets
  \<^verbatim>\<open>OTTERY_ERR_STATE_INIT\<close>, the process ends if there is none, and if the handler returns the result is empty, zero or
  (when adding seed) the error code. \<^verbatim>\<open>ottery_st_prevent_backtracking\<close>, which gives out nothing, makes no such test and
  is not among them. Without the test (\<^verbatim>\<open>OTTERY_NO_INIT_CHECK\<close>) every state counts as initialised.
\<close>

theorem uninitialised_state_refused:
  assumes "\<not> ready e self st"
  shows "ottery_st_rand_bytes e self st n w = refused e None st w \<and>
    ottery_st_rand_bytes_nolock e self st n w = refused e None st w \<and>
    ottery_st_rand_unsigned e self st w = refused e 0 st w \<and>
    ottery_st_rand_unsigned_nolock e self st w = refused e 0 st w \<and>
    ottery_st_rand_uint32 e self st w = refused e 0 st w \<and>
    ottery_st_rand_uint32_nolock e self st w = refused e 0 st w \<and>
    ottery_st_rand_uint64 e self st w = refused e 0 st w \<and>
    ottery_st_rand_uint64_nolock e self st w = refused e 0 st w \<and>
    ottery_st_rand_range e self st upper w = refused e 0 st w \<and>
    ottery_st_rand_range_nolock e self st upper w = refused e 0 st w \<and>
    ottery_st_rand_range64 e self st upper64 w = refused e 0 st w \<and>
    ottery_st_rand_range64_nolock e self st upper64 w = refused e 0 st w \<and>
    ottery_st_add_seed e self st seed n w = refused e OTTERY_ERR_STATE_INIT st w \<and>
    ottery_st_add_seed_nolock e self st seed n w = refused e OTTERY_ERR_STATE_INIT st w"
  using assms check_init_not_ready [OF assms, of w]
  by (simp add: ottery_st_rand_bytes_def ottery_st_rand_bytes_nolock_def ottery_st_rand_uint32_def
      ottery_st_rand_unsigned_def ottery_st_rand_unsigned_nolock_def ottery_st_rand_uint32_nolock_def
      ottery_st_rand_uint64_nolock_def RAND_INTTYPE_NOLOCK_def ottery_st_add_seed_nolock_def
      ottery_st_rand_range_nolock_def ottery_st_rand_range64_nolock_def run_loop_def
      range_loop.simps [of _ _ _ "(st, w)"]
      ottery_st_rand_uint64_def RAND_INTTYPE_def ottery_st_rand_range_def ottery_st_rand_range64_def
      to_int_def ottery_st_rand_lock_and_check_def ottery_st_rand_check_nolock_def refused_def
      ottery_st_add_seed_def ottery_st_add_seed_impl_def ready_def ottery_fatal_error_def Let_def
      split: option.split)

theorem uninitialised_state_refused_witness:
  "ottery_st_rand_bytes demo_env 16 zero_state 8 7 = Abort OTTERY_ERR_STATE_INIT"
  using uninitialised_state_refused [of demo_env 16 zero_state 8 7]
  by (simp add: ready_def refused_def demo_build_def zero_state_def MAGIC_def MAGIC_BASIS_def)

text \<open>
  Wiping leaves nothing but zeros of key and buffer, and (where the initialisation check is compiled in) the wiped
  state of an aligned structure is refused by later calls.
\<close>

lemma wiped_state_is_dead:
  assumes "self AND 0xF = 0" "\<not> opt_no_init_check (e_build e)" "mem_ok st"
  shows "buffer (ottery_st_wipe b st) = replicate MAX_OUTPUT_LEN 0 \<and>
    state_mem (ottery_st_wipe b st) = replicate MAX_STATE_LEN 0 \<and> \<not> ready e self (ottery_st_wipe b st)"
proof -
  have "\<not> ready e self (ottery_st_wipe b st)"
    using assms(2) MAGIC_aligned [OF assms(1)]
    by (simp add: ready_def ottery_st_wipe_def ottery_st_wipe_nolock_def)
  then show ?thesis
    using assms(3) by (simp add: ottery_st_wipe_def ottery_st_wipe_nolock_def mem_ok_def mem_clear_def mem_write_def)
qed

section \<open>Locks\<close>

text \<open>
  C22: Every call releases the lock that it takes, on every path that returns: after success, after a
  failed check, after a failed reseeding; \<^verbatim>\<open>ottery_st_prevent_backtracking\<close> too. This holds for every PRF and every content of the state.
\<close>

theorem lock_released:
  assumes "lock_free (e_build e) st"
  shows "keeps_lock st (ottery_st_rand_bytes e self st n w) \<and>
    keeps_lock st (ottery_st_rand_unsigned e self st w) \<and>
    keeps_lock st (ottery_st_rand_uint32 e self st w) \<and>
    keeps_lock st (ottery_st_rand_uint64 e self st w) \<and>
    keeps_lock st (ottery_st_rand_range e self st upper w) \<and>
    keeps_lock st (ottery_st_rand_range64 e self st upper64 w) \<and>
    keeps_lock st (ottery_st_add_seed e self st seed n w) \<and>
    (\<exists>st'. ottery_st_prevent_backtracking (e_build e) st = Ret st' \<and> mutex st' = mutex st)"
proof -
  have int: "keeps_lock st (RAND_INTTYPE e self k st w)" for k
    by (rule keeps_lockI) (rule inttype_mutex [OF _ assms])
  have "keeps_lock st (ottery_st_rand_bytes e self st n w)"
    by (rule keeps_lockI) (rule rand_bytes_mutex [OF _ assms])
  moreover have "keeps_lock st (ottery_st_rand_range e self st upper w)"
    by (rule keeps_lockI) (rule range_mutex [OF _ assms, THEN conjunct1])
  moreover have "keeps_lock st (ottery_st_rand_range64 e self st upper64 w)"
    by (rule keeps_lockI) (rule range64_mutex [OF _ assms, THEN conjunct1])
  moreover have "keeps_lock st (ottery_st_add_seed e self st seed n w)"
    unfolding ottery_st_add_seed_def
    by (rule keeps_lockI) (rule add_seed_impl_mutex, assumption, simp add: assms)
  moreover have "\<exists>st'. ottery_st_prevent_backtracking (e_build e) st = Ret st' \<and> mutex st' = mutex st"
    using assms
    by (auto simp: ottery_st_prevent_backtracking_def LOCK_free UNLOCK_def RELEASE_LOCK_def lock_free_def
        ottery_st_prevent_backtracking_nolock_def)
  ultimately show ?thesis using int
    by (simp add: ottery_st_rand_unsigned_def ottery_st_rand_uint32_def ottery_st_rand_uint64_def
        keeps_lock_to_int)
qed

theorem lock_released_witness:
  "keeps_lock demo_state (ottery_st_rand_bytes demo_env 16 demo_state 8 7) \<and>
    keeps_lock demo_state (ottery_st_add_seed demo_env 16 demo_state None 0 7)"
  using lock_released [of demo_env demo_state 16] demo_state_ok(7) by simp

text \<open>
  While another thread holds the lock, the locking calls on an initialised state wait: none of them
  reads or changes the state before it has the lock.
\<close>

lemma lock_excludes:
  assumes "ready e self st" "\<not> lock_free (e_build e) st"
  shows "ottery_st_rand_bytes e self st n w = Hang \<and> ottery_st_rand_unsigned e self st w = Hang \<and>
    ottery_st_rand_uint32 e self st w = Hang \<and> ottery_st_rand_uint64 e self st w = Hang \<and>
    ottery_st_rand_range e self st upper w = Hang \<and> ottery_st_rand_range64 e self st upper64 w = Hang \<and>
    ottery_st_add_seed e self st (Some sd) (Suc k) w = Hang \<and> ottery_st_prevent_backtracking (e_build e) st = Hang"
  using assms assms(1) [unfolded ready_def]
  by (auto simp: ottery_st_rand_bytes_def ottery_st_rand_unsigned_def ottery_st_rand_uint32_def
      ottery_st_rand_uint64_def RAND_INTTYPE_def to_int_def ottery_st_rand_lock_and_check_def
      ottery_st_rand_range_def ottery_st_rand_range64_def check_init_ready LOCK_held
      ottery_st_add_seed_def ottery_st_add_seed_impl_def add_seed_locked_def
      ottery_st_prevent_backtracking_def Let_def)

lemma lock_excludes_example:
  "ottery_st_rand_bytes demo_env 16 (demo_state\<lparr>mutex := True\<rparr>) 8 7 = Hang"
  using lock_excludes [of demo_env 16 "demo_state\<lparr>mutex := True\<rparr>" 8 7] demo_state_ok(4)
  by (simp add: lock_free_def demo_locks ready_def)

section \<open>Adding seed, splitting requests, erasing\<close>

text \<open>
  C14: Seed that the user adds is absorbed as the document's ``Add'' means it (with \<open>X\<close> as the new key): each half key of seed
  is added to a key drawn from the current one, and the generator is stirred. The loop ends, and the
  result code is zero. The bytes that were waiting in the buffer are discarded.
\<close>

theorem add_seed_follows_spec:
  assumes "library_prf p F keyed" "represents keyed st s" "st_prf st = p"
    and "ready e self st" "lock_free (e_build e) st" "0 < n" "n \<le> length seed"
  shows "\<exists>st'. ottery_st_add_seed e self st (Some seed) n w = Ret (0, st', w) \<and>
    represents keyed st' (spec_add F 40 (take n seed) (fst s)) \<and>
    meta st' = meta (st\<lparr>last_entropy_flags := 0\<rparr>)"
  using prf_contract.add_seed_user [OF library_prf_contract [OF assms(1)] assms(2-4) _ assms(6,7), of True]
    assms(5) library_prf_sizes [OF assms(1)] by (simp add: ottery_st_add_seed_def)

theorem add_seed_follows_spec_witness:
  "\<exists>st'. ottery_st_add_seed demo_env 16 demo_state (Some [1, 2, 3]) 3 7 = Ret (0, st', 7) \<and>
    represents merged_keyed st' (spec_add (merged_F 20) 40 [1, 2, 3] (fst demo_prng)) \<and>
    meta st' = meta (demo_state\<lparr>last_entropy_flags := 0\<rparr>)"
  using add_seed_follows_spec [OF library_prf.merged20 demo_state_ok(2-4), of 3 "[1, 2, 3]" 7] demo_state_ok
  by simp

text \<open>
  C15: Adding seed without giving any takes it from the entropy layer: on success the generator has
  absorbed everything that the sources delivered, and their flags are recorded.
\<close>

theorem add_seed_from_entropy:
  assumes "library_prf p F keyed" "represents keyed st s" "st_prf st = p"
    and "ready e self st" "lock_free (e_build e) st" "os_contract (e_os e)" "seed_buffer_ok e st w"
    and "er_err (seed_request e st w) = 0" "seed = None \<or> n = 0"
  shows "\<exists>st'. ottery_st_add_seed e self st seed n w = Ret (0, st', er_world (seed_request e st w)) \<and>
    represents keyed st' (spec_add F 40 (entropy_seed (seed_request e st w)) (fst s)) \<and>
    entropy_src_flags st' = entropy_src_flags st OR er_flags (seed_request e st w) \<and>
    last_entropy_flags st' = er_flags (seed_request e st w)"
  using prf_contract.add_seed_os [OF library_prf_contract [OF assms(1)] assms(2-4) _ assms(6-9), of True]
    assms(5) library_prf_sizes [OF assms(1)] by (auto simp: ottery_st_add_seed_def)

theorem add_seed_from_entropy_witness:
  "\<exists>st'. ottery_st_add_seed demo_env 16 demo_state None 0 7 = Ret (0, st', 7) \<and>
    represents merged_keyed st' (spec_add (merged_F 20) 40 (replicate 40 165) (fst demo_prng)) \<and>
    entropy_src_flags st' = entropy_src_flags demo_state OR 0x10101 \<and> last_entropy_flags st' = 0x10101"
  using add_seed_from_entropy [OF library_prf.merged20 demo_state_ok(2-4), of 7 None 0] demo_state_ok
    demo_os_contract by simp

text \<open>
  How a stretch of output is cut into requests does not change it: two requests in a row give the
  same bytes as one request for both, as long as together they need no more than the buffer and one
  fresh buffer.
\<close>

lemma requests_split:
  assumes "library_prf p F keyed" "represents keyed st s" "st_prf st = p"
    and "ready e self st" "same_process e st w" "lock_free (e_build e) st"
    and "n1 + n2 < length (snd s) + (output_len p - 40)"
  shows "\<exists>out1 out2 st1 st2 st'. ottery_st_rand_bytes e self st n1 w = Ret (Some out1, st1, w) \<and>
    ottery_st_rand_bytes e self st1 n2 w = Ret (Some out2, st2, w) \<and>
    ottery_st_rand_bytes e self st (n1 + n2) w = Ret (Some (out1 @ out2), st', w)"
proof -
  have c: "prf_contract p F keyed" by (rule library_prf_contract [OF assms(1)])
  note sz = library_prf_sizes [OF assms(1)]
  have "length (snd s) \<le> 1024"
    using prf_contract.represents_facts(4) [OF c assms(2,3)] sz by auto
  then have small: "n1 < 2 ^ 64 - 1024" "n2 < 2 ^ 64 - 1024" "n1 + n2 < 2 ^ 64 - 1024"
    using assms(7) sz by auto
  note get = prf_contract.rand_bytes_same [OF c]
  let ?g = "spec_get F 40 (output_len p)"
  obtain st1 where st1: "ottery_st_rand_bytes e self st n1 w = Ret (Some (fst (?g n1 s)), st1, w)"
    "represents keyed st1 (snd (?g n1 s))" "meta st1 = meta st"
    using get [OF assms(2,3) small(1) assms(4-6)] sz by auto
  have ok1: "st_prf st1 = p" "ready e self st1" "same_process e st1 w" "lock_free (e_build e) st1"
    using meta_eqD [OF st1(3)] assms(3-6) by (simp_all add: ready_def same_process_def lock_free_def)
  then obtain st2 where "ottery_st_rand_bytes e self st1 n2 w = Ret (Some (fst (?g n2 (snd (?g n1 s)))), st2, w)"
    using get [OF st1(2) ok1(1) small(2) ok1(2-4)] sz by auto
  moreover have "fst (?g (n1 + n2) s) = fst (?g n1 s) @ fst (?g n2 (snd (?g n1 s)))"
    using spec_get_split [OF prf_contract.length_F [OF c] assms(7)] by simp
  ultimately show ?thesis
    using st1(1) get [OF assms(2,3) small(3) assms(4-6)] sz by auto
qed

lemma requests_split_example:
  "\<exists>out1 out2 st1 st2 st'. ottery_st_rand_bytes demo_env 16 demo_state 900 7 = Ret (Some out1, st1, 7) \<and>
    ottery_st_rand_bytes demo_env 16 st1 200 7 = Ret (Some out2, st2, 7) \<and>
    ottery_st_rand_bytes demo_env 16 demo_state 1100 7 = Ret (Some (out1 @ out2), st', 7)"
  using requests_split [OF library_prf.merged20 demo_state_ok(2-5), of 900 200] demo_state_ok(7)
    demo_sizes_of_state by simp

text \<open>
  C28: Requests that the buffer serves erase what they give out. In builds that erase yielded bytes, after a request
  for bytes or for an integer that leaves at least one byte in the buffer, the places where the bytes were hold zeros,
  and the read position is behind them. (For requests that go on into the next buffer this is not so: C29.)
\<close>

theorem yielded_bytes_erased:
  assumes "\<not> opt_no_clear_after_yield b" "generator_ok st" "output_len (st_prf st) \<le> 1024"
    and "pos st + n < output_len (st_prf st)"
  shows "(\<exists>st'. ottery_st_rand_bytes_from_buf b st n = Ret (mem_read (buffer st) (pos st) n, st') \<and>
      mem_read (buffer st') (pos st) n = replicate n 0 \<and> pos st' = pos st + n) \<and>
    (\<exists>st'. RAND_INTTYPE_IMPL b n st = (mem_read (buffer st) (pos st) n, st') \<and>
      mem_read (buffer st') (pos st) n = replicate n 0 \<and> pos st' = pos st + n)"
proof -
  have len: "length (buffer st) = 1024" using assms(2) by (simp add: generator_ok_def mem_ok_def max_defs)
  have "mem_read (mem_clear (buffer st) (pos st) n) (pos st) n = replicate n 0"
    using mem_read_write [of "pos st" "replicate n 0" "buffer st"] len assms(3,4) by (simp add: mem_clear_def)
  then show ?thesis
    using assms
    by (simp add: ottery_st_rand_bytes_from_buf_def RAND_INTTYPE_IMPL_def CLEARBUF_def add64_id add16_id add.commute)
qed

theorem yielded_bytes_erased_witness:
  "(\<exists>st'. ottery_st_rand_bytes_from_buf demo_build demo_state 8 =
      Ret (mem_read (buffer demo_state) (pos demo_state) 8, st') \<and>
      mem_read (buffer st') (pos demo_state) 8 = replicate 8 0 \<and> pos st' = pos demo_state + 8) \<and>
    (\<exists>st'. RAND_INTTYPE_IMPL demo_build 8 demo_state = (mem_read (buffer demo_state) (pos demo_state) 8, st') \<and>
      mem_read (buffer st') (pos demo_state) 8 = replicate 8 0 \<and> pos st' = pos demo_state + 8)"
  using yielded_bytes_erased [of demo_build demo_state 8] demo_state_ok(3) demo_sizes_of_state
  by (simp add: demo_build_def)

text \<open>
  C29: When a request empties the buffer and takes \<open>m\<close> bytes (at most 40) from the next one, those \<open>m\<close>
  bytes stay in the structure after they were given out, although erasing is compiled in: the code
  clears the front of the buffer instead of the bytes it copied. \<^verbatim>\<open>ottery_st_prevent_backtracking\<close> does
  not erase them either.
\<close>

theorem yielded_bytes_left_behind:
  assumes "library_prf p F keyed" "represents keyed st s" "st_prf st = p" "m \<le> 40"
    and "\<not> opt_no_clear_after_yield b"
  shows "\<exists>st' out. ottery_st_rand_bytes_impl b st (length (snd s) + m) = Ret (snd s @ out, st') \<and>
    length out = m \<and> mem_read (buffer (ottery_st_prevent_backtracking_nolock b st')) 40 m = out"
  using prf_contract.rand_bytes_impl_across [OF library_prf_contract [OF assms(1)] assms(2,3), of m b]
    library_prf_sizes [OF assms(1)] assms(4,5)
  by (auto simp: ottery_st_prevent_backtracking_nolock_def)

theorem yielded_bytes_left_behind_witness:
  "\<exists>st' out. ottery_st_rand_bytes_impl demo_build demo_state (length (snd demo_prng) + 32) =
      Ret (snd demo_prng @ out, st') \<and> length out = 32 \<and>
    mem_read (buffer (ottery_st_prevent_backtracking_nolock demo_build st')) 40 32 = out"
  by (rule yielded_bytes_left_behind [OF library_prf.merged20 demo_state_ok(2,3)]) (simp_all add: demo_build_def)

text \<open>
  C30: In builds that do not erase bytes when they are given out, \<^verbatim>\<open>ottery_st_prevent_backtracking\<close> zeros
  everything in the buffer up to the next byte to give out, and does not disturb the generator.
\<close>

theorem prevent_backtracking_erases:
  assumes "library_prf (st_prf st) F keyed" "represents keyed st s" "opt_no_clear_after_yield b"
  shows "take (pos st) (buffer (ottery_st_prevent_backtracking_nolock b st)) = replicate (pos st) 0 \<and>
    represents keyed (ottery_st_prevent_backtracking_nolock b st) s"
  using prf_contract.prevent_backtracking_represents [OF library_prf_contract [OF assms(1)] assms(2) refl]
    assms(3) by blast

theorem prevent_backtracking_erases_witness:
  "take (pos demo_state) (buffer (ottery_st_prevent_backtracking_nolock
      (demo_build\<lparr>opt_no_clear_after_yield := True\<rparr>) demo_state)) = replicate (pos demo_state) 0 \<and>
    represents merged_keyed (ottery_st_prevent_backtracking_nolock
      (demo_build\<lparr>opt_no_clear_after_yield := True\<rparr>) demo_state) demo_prng"
  by (rule prevent_backtracking_erases [OF _ demo_state_ok(2), where F = "merged_F 20"])
     (simp_all add: demo_state_ok(3) library_prf.merged20)

text \<open>
  C26: Starting a block erases the key. Let the state memory hold a key \<open>k\<close> set up over some memory \<open>m\<close>, and let
  the buffer hold anything. After \<^verbatim>\<open>ottery_st_nextblock_nolock\<close> every byte of the structure is determined by
  \<open>m\<close>, the bytes of the buffer behind the output, and the block that the PRF computed from \<open>k\<close>: its front is
  the new key, set up over \<open>m\<close> as if there had been no other key, its rest is in the buffer, and the front
  of the buffer is zero. Of the old key, the old counter and the old block nothing else is left.
\<close>

theorem rekey_forgets_key:
  assumes "library_prf p F keyed" "st_prf st = p" "length m = MAX_STATE_LEN" "length buf = MAX_OUTPUT_LEN"
    and "length k = 40" "\<not> opt_no_clear_after_yield b"
  shows "ottery_st_nextblock_nolock b (st\<lparr>state_mem := setup_fn p m k, buffer := buf\<rparr>) =
    (let block = F k (block_counter st)
     in st\<lparr>state_mem := setup_fn p m (take 40 block),
          buffer := replicate 40 0 @ drop 40 block @ drop (output_len p) buf, block_counter := 0, pos := 40\<rparr>)"
proof -
  have mem: "prf_memory p F keyed" by (rule library_prf_memory [OF assms(1)])
  note size = library_prf_sizes [OF assms(1)]
  define block where "block = F k (block_counter st)"
  have len: "length block = output_len p"
    by (simp add: block_def prf_contract.length_F [OF library_prf_contract [OF assms(1)]])
  have "setup_fn p m block = setup_fn p m (take 40 block)"
    using prf_memory.setup_front [OF mem _ assms(3), of "take 40 block" "drop 40 block"] len size by auto
  moreover have "CLEARBUF b (block @ drop (output_len p) buf) 0 40 =
      replicate 40 0 @ drop 40 block @ drop (output_len p) buf"
    using assms(6) len size by (auto simp: CLEARBUF_def mem_clear_def mem_write_start)
  ultimately show ?thesis
    using prf_memory.nextblock_forgets [OF mem assms(2-4), of k b] assms(5) size by (simp add: block_def Let_def)
qed

theorem rekey_forgets_key_witness:
  "ottery_st_nextblock_nolock demo_build
      (demo_state\<lparr>state_mem := setup_fn ottery_prf_chacha20_merged (replicate 256 0) (replicate 40 3),
        buffer := replicate 1024 77\<rparr>) =
    (let block = merged_F 20 (replicate 40 3) (block_counter demo_state)
     in demo_state\<lparr>state_mem := setup_fn ottery_prf_chacha20_merged (replicate 256 0) (take 40 block),
          buffer := replicate 40 0 @ drop 40 block, block_counter := 0, pos := 40\<rparr>)"
  using rekey_forgets_key [OF library_prf.merged20 demo_state_ok(3), of "replicate 256 0" "replicate 1024 77"
      "replicate 40 3" demo_build]
  by (simp add: max_defs demo_build_def)

text \<open>
  C27: Seed does not stay on the stack. When \<^verbatim>\<open>ottery_st_reseed\<close> succeeds, all bytes of its local buffer that
  were used as seed are zero; when \<^verbatim>\<open>ottery_st_add_seed_impl\<close> without a seed succeeds, its whole local buffer is.
\<close>

theorem seed_buffers_wiped:
  assumes "os_contract (e_os e)" "ready e self st"
  shows "(ottery_st_reseed e self st w = Ret (0, st', w') \<longrightarrow>
      (\<exists>buf. reseed_with_buf e self st w = Ret (Some buf, 0, st', w') \<and> take (length (entropy_seed (seed_request e st w))) buf =
        replicate (length (entropy_seed (seed_request e st w))) 0)) \<and>
    (ottery_st_add_seed_impl e self st None l locking True w = Ret (0, st', w') \<longrightarrow>
      (\<exists>tmp. add_seed_with_tmp e self st locking w = Ret (Some tmp, 0, st', w') \<and>
         length (entropy_seed (seed_request e st w)) \<le> length tmp \<and> tmp = replicate (length tmp) 0))"
proof (intro conjI impI)
  assume "ottery_st_reseed e self st w = Ret (0, st', w')"
  then show "\<exists>buf. reseed_with_buf e self st w = Ret (Some buf, 0, st', w') \<and> take (length (entropy_seed (seed_request e st w))) buf =
        replicate (length (entropy_seed (seed_request e st w))) 0"
    using reseed_wiped [OF assms(1)] by simp
next
  assume "ottery_st_add_seed_impl e self st None l locking True w = Ret (0, st', w')"
  then show "\<exists>tmp. add_seed_with_tmp e self st locking w = Ret (Some tmp, 0, st', w') \<and>
      length (entropy_seed (seed_request e st w)) \<le> length tmp \<and> tmp = replicate (length tmp) 0"
    using add_seed_wiped [OF assms(1,2)] by simp
qed

theorem seed_buffers_wiped_witness:
  "\<exists>st' buf. ottery_st_reseed demo_env 16 demo_state 7 = Ret (0, st', 7) \<and>
     reseed_with_buf demo_env 16 demo_state 7 = Ret (Some buf, 0, st', 7) \<and> take 40 buf = replicate 40 0"
proof -
  obtain st' where st': "ottery_st_reseed demo_env 16 demo_state 7 = Ret (0, st', 7)"
    using merged20.reseed_success [OF demo_state_ok(3), of demo_env 7 16] demo_sizes_of_state(3)
      demo_os_contract demo_state_ok(8,9) by (auto simp: generator_ok_def)
  with seed_buffers_wiped [of demo_env 16 demo_state 7 st' 7] demo_os_contract demo_state_ok(4,8)
  show ?thesis by auto
qed

section \<open>Integers in a range\<close>

text \<open>
  C24: \<^verbatim>\<open>ottery_st_rand_range\<close> and its variants return no value above the bound, on any path.
\<close>

theorem range_within_bound:
  assumes "lock_free (e_build e) st"
  shows "(ottery_st_rand_range e self st upper w = Ret (v, st', w') \<longrightarrow> v \<le> upper) \<and>
    (ottery_st_rand_range_nolock e self st upper w = Ret (v, st', w') \<longrightarrow> v \<le> upper) \<and>
    (ottery_st_rand_range64 e self st upper64 w = Ret (v64, st', w') \<longrightarrow> v64 \<le> upper64) \<and>
    (ottery_st_rand_range64_nolock e self st upper64 w = Ret (v64, st', w') \<longrightarrow> v64 \<le> upper64)"
  by (auto dest: range_mutex [OF _ assms] range_nolock_mutex(2) range64_mutex [OF _ assms]
      range64_nolock_mutex(2))

theorem range_within_bound_witness:
  "\<forall>v v64 st'. (ottery_st_rand_range demo_env 16 demo_state 5 7 = Ret (v, st', 7) \<longrightarrow> v \<le> 5) \<and>
     (ottery_st_rand_range64 demo_env 16 demo_state 5 7 = Ret (v64, st', 7) \<longrightarrow> v64 \<le> 5)"
  using range_within_bound [of demo_env demo_state 16 5 7 _ _ 7 5] demo_state_ok(7) by simp

text \<open>
  C12: Integers in a range are unbiased. The divisor is not zero; every value up to the bound is the
  quotient of exactly as many of the equally likely 32-bit (or 64-bit) draws as every other; and at
  least half of all draws are accepted, so that the expected number of draws is at most two.
\<close>

theorem range_unbiased:
  fixes upper :: u32 and upper64 :: u64
  shows "(\<forall>v. v \<le> upper \<longrightarrow> card {x. x div range_divisor upper = v} = unat (range_divisor upper)) \<and>
    (\<forall>v. v \<le> upper64 \<longrightarrow> card {x. x div range_divisor upper64 = v} = unat (range_divisor upper64)) \<and>
    range_divisor upper \<noteq> 0 \<and> range_divisor upper64 \<noteq> 0 \<and>
    2 ^ 32 \<le> 2 * card {x. x div range_divisor upper \<le> upper} \<and>
    2 ^ 64 \<le> 2 * card {x. x div range_divisor upper64 \<le> upper64}"
proof -
  have "range_divisor upper \<noteq> 0" "range_divisor upper64 \<noteq> 0"
    using range_divisor_bounds(1) [of upper] range_divisor_bounds(1) [of upper64] by auto
  moreover have "2 ^ 32 \<le> 2 * card {x. x div range_divisor upper \<le> upper}"
    "2 ^ 64 \<le> 2 * card {x. x div range_divisor upper64 \<le> upper64}"
    using range_divisor_bounds(3) [of upper] range_divisor_bounds(3) [of upper64]
    unfolding card_accepted by simp_all
  ultimately show ?thesis by (simp add: range_uniform)
qed

theorem range_unbiased_witness:
  "card {x :: u32. x div range_divisor 5 = 2} = 715827882"
proof -
  have "card {x :: u32. x div range_divisor 5 = 2} = unat (range_divisor 5 :: u32)"
    using range_unbiased [of 5 5] by simp
  also have "unat (range_divisor 5 :: u32) = 715827882"
    by (simp add: unat_range_divisor)
  finally show ?thesis .
qed

text \<open>
  C25: The rejection loop returns as soon as a draw is accepted: if draw number \<open>k\<close> is the first whose
  quotient is within the bound, \<^verbatim>\<open>ottery_st_rand_range_nolock\<close> returns that quotient and the state after
  that draw. (Whether such a draw ever comes depends on the generator's output.)
\<close>

theorem range_returns_first_accepted:
  assumes "nth_draw (\<lambda>(st, w). ottery_st_rand_unsigned_nolock e self st w) k (st, w) = Ret (r, st', w')"
    and "r div range_divisor upper \<le> upper"
    and "\<forall>j r s. j < k \<longrightarrow> nth_draw (\<lambda>(st, w). ottery_st_rand_unsigned_nolock e self st w) j (st, w) = Ret (r, s)
           \<longrightarrow> upper < r div range_divisor upper"
  shows "ottery_st_rand_range_nolock e self st upper w = Ret (r div range_divisor upper, st', w')"
  using range_loop_first [OF assms(1,2)] assms(3)
  by (simp add: ottery_st_rand_range_nolock_def run_loop_def)

theorem range_returns_first_accepted_witness:
  "\<exists>st'. ottery_st_rand_range_nolock demo_env 16 demo_state (- 1) 7 =
     Ret (le_word (fst (spec_tiny (merged_F 20) 40 4 demo_prng)), st', 7)"
proof -
  obtain st' where st': "ottery_st_rand_unsigned_nolock demo_env 16 demo_state 7 =
      Ret (le_word (fst (spec_tiny (merged_F 20) 40 4 demo_prng)), st', 7)"
    using merged20.inttype_nolock_same [OF demo_state_ok(2,3) _ _ demo_state_ok(4,5), of 4]
    by (auto simp: ottery_st_rand_unsigned_nolock_def to_int_def)
  then show ?thesis
    using range_returns_first_accepted [of demo_env 16 0 demo_state 7 _ st' 7 "- 1"]
    by (simp add: range_divisor_def)
qed

section \<open>The global generator\<close>

text \<open>
  C8: A program that only uses the functions without a state argument gets what the reference generator of \<open>Prng_Spec\<close>
  gives. The first of them, whichever it is, initialises the global state with the default configuration; it and
  all calls after it reply what the reference generator replies when it is constructed from the entropy that was
  gathered then. When that came from one source, the replies are those of \<^verbatim>\<open>doc/specification.txt\<close> where \<open>doc_run\<close> and
  \<open>settled\<close> say so. This holds from the start of the program, and again after \<^verbatim>\<open>ottery_wipe\<close>, whatever the
  global structure contains.
\<close>

theorem program_follows_spec:
  assumes "library_prf p F keyed" "chosen_prf e None = Some p" "G AND 0xF = 0" "sizes_ok (e_build e)"
    and "lock_init e True w = (False, w1)" "os_contract (e_os e)"
    and "seed_buffer_ok e (unseeded_state None p) w1" "er_err (seed_request e (unseeded_state None p) w1) = 0"
    and "\<not> global_initialized g" "\<forall>c \<in> set cs. valid_call c \<and> has_seed c" "cs \<noteq> []"
    and "r = seed_request e (unseeded_state None p) w1"
  shows "(case spec_run F 40 (output_len p) cs (spec_construct F 40 (entropy_seed r)) of
      None \<Rightarrow> global_run e G cs g w = Hang
    | Some (rs, s') \<Rightarrow> \<exists>g'. global_run e G cs g w = Ret (rs, g', er_world r) \<and> global_initialized g' \<and>
        represents keyed (global_state g') s') \<and>
    (\<forall>rs d. drop 40 (entropy_seed r) = [] \<and>
      doc_run F 40 (output_len p) cs (doc_construct F 40 (entropy_seed r)) = Some (rs, d) \<and>
      settled F 40 (output_len p) cs (doc_construct F 40 (entropy_seed r)) \<longrightarrow>
      (\<exists>g'. global_run e G cs g w = Ret (rs, g', er_world r)))"
proof -
  note run = global_program [OF assms(1-11), folded assms(12)]
  show ?thesis
  proof (rule conjI [OF run], intro allI impI, elim conjE)
    fix rs d
    assume one: "drop 40 (entropy_seed r) = []"
      and doc: "doc_run F 40 (output_len p) cs (doc_construct F 40 (entropy_seed r)) = Some (rs, d)"
        "settled F 40 (output_len p) cs (doc_construct F 40 (entropy_seed r))"
    have "spec_construct F 40 (entropy_seed r) = doc_construct F 40 (entropy_seed r)"
      unfolding library_document(2) [OF assms(1)] if_P [OF one] ..
    from document_case [OF assms(1) run, unfolded this, OF doc]
    show "\<exists>g'. global_run e G cs g w = Ret (rs, g', er_world r)" by blast
  qed
qed

theorem program_follows_spec_witness:
  "\<exists>rs s' g'. spec_run (merged_F 20) 40 1024 [RandBytes 12, AddSeed (Some [1, 2, 3]) 3, RandUint64] demo_prng = Some (rs, s') \<and>
    represents merged_keyed (global_state g') s' \<and> global_initialized g' \<and>
    global_run demo_env 16 [RandBytes 12, AddSeed (Some [1, 2, 3]) 3, RandUint64] initial_global 7 = Ret (rs, g', 7)"
proof -
  let ?cs = "[RandBytes 12, AddSeed (Some [1, 2, 3]) 3, RandUint64]"
  obtain rs s' where "spec_run (merged_F 20) 40 1024 ?cs demo_prng = Some (rs, s')"
    by (auto simp: map_prod_def case_prod_unfold)
  then show ?thesis
    using program_follows_spec [OF library_prf.merged20 demo_prf _ _ demo_lock_init [of 7],
        of 16 initial_global ?cs "seed_request demo_env (unseeded_state None ottery_prf_chacha20_merged) 7"]
      demo_os_contract demo_unseeded [of 7] demo_sizes
    by (auto simp: initial_global_def demo_prng_def simp del: spec_run.simps global_run.simps)
qed

text \<open>
  C33: When the lazy initialisation fails, the fatal error handler gets the error with
  \<^verbatim>\<open>OTTERY_ERR_FLAG_GLOBAL_PRNG_INIT\<close> set; if it returns, no bytes are given out and the global state
  stays uninitialised. \<^verbatim>\<open>ottery_add_seed\<close>, whose result is an error code, then returns zero.
\<close>

theorem global_init_failure:
  assumes "\<not> global_initialized g" "ottery_init e G g None w = Ret (err, g', w')" "err \<noteq> 0"
    and "e_handler e = Some h"
  shows "\<not> global_initialized g' \<and>
    ottery_rand_bytes e G g n w = Ret (None, g', h (OTTERY_ERR_FLAG_GLOBAL_PRNG_INIT OR err) w') \<and>
    ottery_rand_uint64 e G g w = Ret (0, g', h (OTTERY_ERR_FLAG_GLOBAL_PRNG_INIT OR err) w') \<and>
    ottery_add_seed e G g seed n w = Ret (0, g', h (OTTERY_ERR_FLAG_GLOBAL_PRNG_INIT OR err) w')"
proof -
  have "\<not> global_initialized g'"
    using assms(1-3) by (auto simp: ottery_init_def outcome_simps Let_def)
  then show ?thesis
    using assms
    by (simp add: ottery_rand_bytes_def ottery_rand_uint64_def ottery_add_seed_def CHECK_INIT_def
        ottery_fatal_error_def)
qed

theorem global_init_failure_witness:
  "ottery_add_seed (demo_env\<lparr>e_handler := Some (\<lambda>err w. w + 100)\<rparr>) 3 initial_global (Some [1]) 1 7 =
    Ret (0, initial_global, 107)"
proof -
  let ?e = "demo_env\<lparr>e_handler := Some (\<lambda>err w. w + 100)\<rparr>"
  have "ottery_init ?e 3 initial_global None 7 = Ret (OTTERY_ERR_STATE_ALIGNMENT, initial_global, 7)"
    by (simp add: ottery_init_def ottery_st_init_def ottery_st_initialize_def err_defs initial_global_def)
  from global_init_failure [OF _ this, of "\<lambda>err w. w + 100" 1 "Some [1]"] show ?thesis
    by (simp add: initial_global_def err_defs)
qed

section \<open>The life of a state\<close>

text \<open>
  C10: Every state that a program can reach, from a successful initialisation with a PRF of the library
  through any calls, with any change of the outside world in between (a fork, failing entropy sources),
  is well formed: the magic number is right, the lock is free, the arrays have their sizes, the read
  position is behind the erased key bytes and inside the output of the PRF, so that no read of the
  buffer is out of bounds, and the block counter is zero.
\<close>

theorem reachable_states_sound:
  assumes "reachable e self locked st w" "os_contract (e_os e)"
  shows "magic st = MAGIC self \<and> \<not> mutex st \<and> length (buffer st) = MAX_OUTPUT_LEN \<and>
    length (state_mem st) = MAX_STATE_LEN \<and> state_bytes (st_prf st) = 40 \<and> 40 \<le> pos st \<and>
    pos st < output_len (st_prf st) \<and> output_len (st_prf st) \<le> MAX_OUTPUT_LEN \<and> block_counter st = 0"
proof -
  have s: "sound self st" "\<not> mutex st" using reachable_invariant [OF assms] by simp_all
  obtain F keyed r where r: "library_prf (st_prf st) F keyed" "represents keyed st r"
    using s(1) by (auto simp: sound_def)
  show ?thesis
    using s r(2) library_prf_sizes [OF r(1)] prf_contract.output_len_max [OF library_prf_contract [OF r(1)]]
    by (simp add: sound_def represents_def generator_ok_def mem_ok_def)
qed

theorem reachable_states_sound_witness:
  "magic demo_state = MAGIC 16 \<and> length (buffer demo_state) = 1024 \<and> 40 \<le> pos demo_state \<and>
    pos demo_state < 1024 \<and> block_counter demo_state = 0"
  using reachable_states_sound [OF demo_reachable [of 8]] demo_os_contract
  by (simp add: max_defs demo_state_ok(3))

text \<open>
  C11: No call breaks on a reachable state. Whatever the outside world does, a call returns or ends the
  process through the fatal error path; it never fails the assertion, never waits for a lock that is
  held, and, the range functions apart, always ends. The range functions can only go on for ever by
  drawing integers that are rejected.
\<close>

theorem reachable_calls_safe:
  assumes "reachable e self locked st w" "os_contract (e_os e)" "valid_call c" "locking \<longrightarrow> locked"
  shows "perform e self locking c st w' \<noteq> Crash \<and>
    (draws_until_accepted c \<or> perform e self locking c st w' \<noteq> Hang) \<and>
    (\<forall>st' w''. perform e self locking c st w' = Ret ((), st', w'') \<longrightarrow> reachable e self locked st' w'')"
proof -
  have s: "sound self st" "\<not> mutex st" using reachable_invariant [OF assms(1,2)] by simp_all
  have "perform e self locking c st w' \<noteq> Crash"
    using perform_hung_or_well [OF s assms(2,3), of locking w'] by (auto simp: hung_or_well_def)
  moreover have "draws_until_accepted c \<or> perform e self locking c st w' \<noteq> Hang"
    using perform_went_well [OF s assms(2,3), of locking w'] by auto
  moreover have "reachable e self locked st' w''" if "perform e self locking c st w' = Ret ((), st', w'')"
    for st' w''
    using reachable.call [OF reachable.world [OF assms(1)] assms(3,4) that] .
  ultimately show ?thesis by blast
qed

theorem reachable_calls_safe_witness:
  "perform demo_env 16 True (RandBytes 100000) demo_state 8 \<noteq> Crash \<and>
    perform demo_env 16 True (RandBytes 100000) demo_state 8 \<noteq> Hang"
  using reachable_calls_safe [OF demo_reachable [of 7], of "RandBytes 100000" True 8] demo_os_contract by simp

section \<open>Threads\<close>

text \<open>
  C6: The calls that do all their work inside the lock are atomic: all locking calls but \<^verbatim>\<open>ottery_st_add_seed\<close> without
  a seed, which asks the entropy sources before it takes the lock. However such calls of any number of threads on a
  shared state are interleaved, what the threads got and what became of the state and the world is what the same calls
  give when they are made one after the other, in the order in which they released the lock.
\<close>

theorem threads_linearisable:
  assumes "threads e self (at_rest st0 w0) s" "reachable e self True st0 w0"
    and "os_contract (e_os e)" "\<not> no_locks (e_build e)"
  shows "\<exists>st w. one_by_one e self (history s) st0 w0 = Some (st, w) \<and>
    ((\<forall>i. \<not> inside (pcs s i)) \<longrightarrow> shared s = st \<and> sys_world s = w)"
proof -
  have "consistent e self st0 w0 s" using threads_consistent [OF assms(1-4)] .
  then show ?thesis unfolding consistent_def nobody_inside_def one_inside_def by metis
qed

theorem threads_linearisable_witness:
  "\<exists>(s :: int system) r. history s = [(0, RandUint32, r)] \<and>
     one_by_one demo_env 16 [(0, RandUint32, r)] demo_state 7 = Some (shared s, sys_world s)"
proof -
  obtain s r where s: "threads demo_env 16 (at_rest demo_state 7) s" "history s = [(0, RandUint32, r)]"
    "pcs s = (\<lambda>_. Idle)(1 := Checked RandUint64)" using demo_run by blast
  have "\<exists>st w. one_by_one demo_env 16 (history s) demo_state 7 = Some (st, w) \<and>
      ((\<forall>i. \<not> inside (pcs s i)) \<longrightarrow> shared s = st \<and> sys_world s = w)"
    using threads_linearisable [OF s(1) demo_reachable] demo_os_contract demo_locks by simp
  moreover have "\<forall>i. \<not> inside (pcs s i)" by (simp add: s(3))
  ultimately have "one_by_one demo_env 16 [(0, RandUint32, r)] demo_state 7 = Some (shared s, sys_world s)"
    unfolding s(2) by blast
  with s(2) show ?thesis by blast
qed

text \<open>
  C7: Threads follow the reference generator. Any number of threads in the process that seeded the state make
  any calls, \<^verbatim>\<open>ottery_st_add_seed\<close> without a seed among them, whose access to the entropy sources and to the
  cached inode is not protected by the lock. In every interleaving no two threads are inside the lock; the
  replies are those of the reference generator of \<open>Prng_Spec\<close> for the same calls in the order of the unlocks, with the
  gathered bytes as seed (and those of \<^verbatim>\<open>doc/specification.txt\<close> where \<open>doc_run\<close> and \<open>settled\<close> say so); and whenever nobody
  is inside, the lock is free and the structure represents the reference generator's state.
\<close>

theorem threads_follow_spec:
  assumes "crowd e self (gathered_around st w) s" "one_process e self st F keyed"
    and "represents keyed st s0" "\<not> mutex st" "same_process e st w"
  shows "\<exists>s'. spec_run F 40 (output_len (st_prf st)) (journal_calls s) s0 = Some (journal_replies s, s') \<and>
    (\<forall>i j. working (phases s i) \<and> working (phases s j) \<longrightarrow> i = j) \<and>
    ((\<forall>i. \<not> working (phases s i)) \<longrightarrow> represents keyed (struct s) s' \<and> \<not> mutex (struct s)) \<and>
    (\<forall>rs d. doc_run F 40 (output_len (st_prf st)) (journal_calls s) s0 = Some (rs, d) \<and>
      settled F 40 (output_len (st_prf st)) (journal_calls s) s0 \<longrightarrow> rs = journal_replies s)"
proof -
  obtain s' where run: "spec_run F 40 (output_len (st_prf st)) (journal_calls s) s0 = Some (journal_replies s, s')"
    and "all_out keyed s' s \<or> (\<exists>h. one_in F (output_len (st_prf st)) keyed s' s h)"
    using crowd_following [OF assms] unfolding following_def by blast
  moreover have "rs = journal_replies s"
    if "doc_run F 40 (output_len (st_prf st)) (journal_calls s) s0 = Some (rs, d)"
      "settled F 40 (output_len (st_prf st)) (journal_calls s) s0" for rs d
    using library_document(3) [OF _ that] one_processD(1) [OF assms(2) refl] run by fastforce
  ultimately show ?thesis
    unfolding all_out_def one_in_def by (intro exI [of _ s']) metis
qed

theorem threads_follow_spec_witness:
  "\<exists>s r s'. crowd demo_env 16 (gathered_around demo_state 7) s \<and>
     journal_calls s = [RandUint32, AddSeed (Some (replicate 40 165 @ replicate 80 0)) 40] \<and>
     spec_run (merged_F 20) 40 1024 (journal_calls s) demo_prng = Some ([r, GotCode 0], s') \<and>
     represents merged_keyed (struct s) s'"
proof -
  obtain s r where s: "crowd demo_env 16 (gathered_around demo_state 7) s" "phases s = (\<lambda>_. Resting)"
    "journal s = [(0, Plain RandUint32, r),
      (1, Seeding (replicate 40 165 @ replicate 80 0) 40 0x10101, GotCode 0)]"
    using demo_crowd by blast
  then have j: "journal_calls s = [RandUint32, AddSeed (Some (replicate 40 165 @ replicate 80 0)) 40]"
    "journal_replies s = [r, GotCode 0]"
    by (simp_all add: journal_calls_def journal_replies_def)
  obtain s' where "spec_run (merged_F 20) 40 1024 (journal_calls s) demo_prng = Some ([r, GotCode 0], s')"
    "represents merged_keyed (struct s) s'"
    using threads_follow_spec [OF s(1) demo_one_process demo_state_ok(2,11,5)] s(2) demo_state_ok(3) j(2) by auto
  with s(1) j(1) show ?thesis by blast
qed



text \<open>
  C21: A fork while another thread holds the lock. At whatever time during the calls of the threads the structure
  is copied into a child process, if some thread is inside the lock then every call in the child that comes to the
  lock, in any world, waits for ever: the thread that could release the lock does not exist there, and the process test
  that reseeds the child comes after taking the lock. Every locking call on the copy comes to the lock, except that
  \<^verbatim>\<open>ottery_st_add_seed\<close> without a seed returns with an error before if the entropy sources fail; the lock stays held.
\<close>

theorem forked_lock_hangs:
  assumes "threads e self (at_rest st0 w0) s" "reachable e self True st0 w0"
    and "os_contract (e_os e)" "\<not> no_locks (e_build e)" "inside (pcs s i)"
  shows "if comes_to_lock e c (shared s) w then api e self c (shared s) w = Hang
    else \<exists>err st' w'. err \<noteq> 0 \<and> api e self c (shared s) w = Ret (GotCode err, st', w') \<and> mutex st'"
  using copied_while_held [OF threads_consistent [OF assms(1-4)] assms(3-5)] assms(4)
  by (intro api_while_held) simp_all

theorem forked_lock_hangs_witness:
  "\<exists>s. threads demo_env 16 (at_rest demo_state 7) s \<and> pcs s 0 = Entered RandUint32 \<and>
     api demo_env 16 (RandBytes 32) (shared s) 8 = Hang"
proof -
  obtain s where s: "threads demo_env 16 (at_rest demo_state 7) s" "pcs s 0 = Entered RandUint32"
    using demo_holding by blast
  then have "api demo_env 16 (RandBytes 32) (shared s) 8 = Hang"
    using forked_lock_hangs [OF s(1) demo_reachable, of 0 "RandBytes 32" 8] demo_os_contract demo_locks
    by (simp add: comes_to_lock_def)
  with s show ?thesis by blast
qed

text \<open>
  Once the global state is initialised, threads can use the global functions freely: their calls
  behave as calls on one shared state do, and nobody initialises the state again.
\<close>

lemma global_threads_after_init:
  assumes "global_threads e GLOBAL (after_init st0 w0) g" "reachable e GLOBAL True st0 w0"
    and "os_contract (e_os e)" "\<not> no_locks (e_build e)" "\<forall>i. \<not> inside (pcs (base g) i)"
  shows "flag g \<and> (\<forall>i. entries g i \<noteq> Initialising) \<and>
    one_by_one e GLOBAL (history (base g)) st0 w0 = Some (shared (base g), sys_world (base g))"
proof -
  have g: "flag g" "\<forall>i. entries g i \<noteq> Initialising" "threads e GLOBAL (at_rest st0 w0) (base g)"
    using global_threads_initialised [OF assms(1)] by simp_all
  have "consistent e GLOBAL st0 w0 (base g)" using threads_consistent [OF g(3) assms(2-4)] .
  then show ?thesis
    using g(1,2) assms(5) unfolding consistent_def nobody_inside_def one_inside_def by metis
qed

lemma global_threads_after_init_example:
  "one_by_one demo_env 16 [] demo_state 7 = Some (demo_state, 7)"
  using global_threads_after_init [OF global_threads_none demo_reachable, of 7] demo_os_contract demo_locks
  by (simp add: after_init_def at_rest_def)

text \<open>
  C20: Before that they cannot. \<^verbatim>\<open>CHECK_INIT\<close> tests the flag and initialises without a lock. Two threads that
  make the first use of the library at the same time can both be inside the critical section: the
  initialisation by the second clears the lock that the first thread holds.
\<close>

theorem global_init_race:
  assumes "G AND 0xF = 0" "chosen_prf e None = Some p" "library_prf p F keyed" "os_contract (e_os e)"
    and "\<not> no_locks (e_build e)"
    and "ottery_st_init e G zero_state None w = Ret (0, st1, w1)"
    and "ottery_st_init e G zero_state None w1 = Ret (0, st2, w2)"
  shows "\<exists>g. global_threads e G (program_start w) g \<and> inside (pcs (base g) 0) \<and> inside (pcs (base g) 1)"
proof -
  note i = assms(6,7) [unfolded ottery_st_init_def]
  have "sound G st1 \<and> \<not> mutex st1" "sound G st2 \<and> \<not> mutex st2"
    using initialize_sound [OF assms(2-4)] i by blast+
  then show ?thesis using init_race [OF assms(1,2,5) i] by (simp add: sound_def)
qed

theorem global_init_race_witness:
  "\<exists>g. global_threads demo_env 16 (program_start 7) g \<and> inside (pcs (base g) 0) \<and> inside (pcs (base g) 1)"
  using global_init_race [OF _ demo_prf library_prf.merged20 _ _ demo_state_ok(1) demo_state_ok(1)]
    demo_os_contract demo_locks by simp

end
